(* ===== verification/Prelude.thy ===== *)
theory Prelude
  imports Main "HOL-Library.Word" "HOL-Library.Code_Target_Nat"
begin

text \<open>
  Shared vocabulary of the development.  It holds: the type names of the Rust sources
  (\<open>u8\<close> ... \<open>u128\<close>, \<open>i64\<close>, byte strings and public keys); results as sums with the
  combinators that stand for the \<^verbatim>\<open>?\<close> operator, \<^verbatim>\<open>ok_or\<close>, \<^verbatim>\<open>map_err\<close> and \<^verbatim>\<open>require!\<close>; the checked,
  saturating and panicking integer operations of the standard library at their width; slices
  and little-endian decoding.  Each operation comes with an inversion lemma in the collection
  \<open>checked\<close> (or \<open>result\<close>), which turns "the code did not fail" into an equation on natural
  numbers or integers; component proofs are carried by these collections.
\<close>

named_theorems result \<open>inversion of results: when a fallible step returns a value\<close>
named_theorems checked \<open>inversion of the fixed-width integer operations\<close>

section \<open>Types of the sources\<close>

text \<open>
  A signed \<open>i64\<close> is the same 64 bits as a \<open>u64\<close>; it is read with \<open>sint\<close> wherever the code
  compares it or does arithmetic on it.  A public key is its 32 bytes.
\<close>

type_synonym u8 = "8 word"
type_synonym u16 = "16 word"
type_synonym u32 = "32 word"
type_synonym u64 = "64 word"
type_synonym u128 = "128 word"
type_synonym i64 = "64 word"
type_synonym bytes = "u8 list"
type_synonym pubkey = bytes

section \<open>Results\<close>

text \<open>The \<open>?\<close> operator: stop at the first error.\<close>

definition and_then :: "'e + 'a \<Rightarrow> ('a \<Rightarrow> 'e + 'b) \<Rightarrow> 'e + 'b" where
  "and_then m f = (case m of Inl e \<Rightarrow> Inl e | Inr x \<Rightarrow> f x)"

definition ok_or :: "'a option \<Rightarrow> 'e \<Rightarrow> 'e + 'a" where
  "ok_or x e = (case x of None \<Rightarrow> Inl e | Some y \<Rightarrow> Inr y)"

definition map_err :: "('e \<Rightarrow> 'f) \<Rightarrow> 'e + 'a \<Rightarrow> 'f + 'a" where
  "map_err g m = (case m of Inl e \<Rightarrow> Inl (g e) | Inr x \<Rightarrow> Inr x)"

definition require :: "bool \<Rightarrow> 'e \<Rightarrow> 'e + unit" where
  "require b e = (if b then Inr () else Inl e)"

definition is_ok :: "'e + 'a \<Rightarrow> bool" where
  "is_ok m = (case m of Inl _ \<Rightarrow> False | Inr _ \<Rightarrow> True)"

lemma and_then_simps [simp]:
  "and_then (Inl e) f = Inl e"
  "and_then (Inr x) f = f x"
  by (simp_all add: and_then_def)

lemma ok_or_simps [simp]:
  "ok_or None e = Inl e"
  "ok_or (Some x) e = Inr x"
  by (simp_all add: ok_or_def)

lemma map_err_simps [simp]:
  "map_err g (Inl e) = Inl (g e)"
  "map_err g (Inr x) = Inr x"
  by (simp_all add: map_err_def)

lemma require_simps [simp]:
  "require True e = Inr ()"
  "require False e = Inl e"
  by (simp_all add: require_def)

lemma is_ok_simps [simp]:
  "\<not> is_ok (Inl e)"
  "is_ok (Inr x)"
  by (simp_all add: is_ok_def)

lemma is_ok_iff: "is_ok m \<longleftrightarrow> (\<exists>x. m = Inr x)"
  by (cases m) simp_all

lemma and_then_Inr_iff [result]:
  "and_then m f = Inr y \<longleftrightarrow> (\<exists>x. m = Inr x \<and> f x = Inr y)"
  by (cases m) simp_all

lemma ok_or_Inr_iff [result]: "ok_or x e = Inr y \<longleftrightarrow> x = Some y"
  by (cases x) simp_all

lemma map_err_Inr_iff [result]: "map_err g m = Inr y \<longleftrightarrow> m = Inr y"
  by (cases m) simp_all

lemma require_Inr_iff [result]: "require b e = Inr u \<longleftrightarrow> b"
  by (cases b) simp_all

lemma and_then_Inl_iff:
  "and_then m f = Inl e \<longleftrightarrow> m = Inl e \<or> (\<exists>x. m = Inr x \<and> f x = Inl e)"
  by (cases m) simp_all

lemma ok_or_Inl_iff: "ok_or x e = Inl e' \<longleftrightarrow> x = None \<and> e = e'"
  by (cases x) auto

lemma require_Inl_iff: "require b e = Inl e' \<longleftrightarrow> \<not> b \<and> e = e'"
  by (cases b) auto

lemma map_err_Inl_iff: "map_err g m = Inl e \<longleftrightarrow> (\<exists>e'. m = Inl e' \<and> e = g e')"
  by (cases m) auto

lemmas result_errors = and_then_Inl_iff ok_or_Inl_iff require_Inl_iff map_err_Inl_iff

section \<open>Unsigned integers at their width\<close>

definition checked_add :: "'a::len word \<Rightarrow> 'a word \<Rightarrow> 'a word option" where
  "checked_add a b = (if unat a + unat b < 2 ^ LENGTH('a) then Some (a + b) else None)"

definition checked_sub :: "'a::len word \<Rightarrow> 'a word \<Rightarrow> 'a word option" where
  "checked_sub a b = (if unat b \<le> unat a then Some (a - b) else None)"

definition checked_mul :: "'a::len word \<Rightarrow> 'a word \<Rightarrow> 'a word option" where
  "checked_mul a b = (if unat a * unat b < 2 ^ LENGTH('a) then Some (a * b) else None)"

definition checked_div :: "'a::len word \<Rightarrow> 'a word \<Rightarrow> 'a word option" where
  "checked_div a b = (if b = 0 then None else Some (a div b))"

definition saturating_sub :: "'a::len word \<Rightarrow> 'a word \<Rightarrow> 'a word" where
  "saturating_sub a b = (if unat b \<le> unat a then a - b else 0)"

definition saturating_mul :: "'a::len word \<Rightarrow> 'a word \<Rightarrow> 'a word" where
  "saturating_mul a b = (if unat a * unat b < 2 ^ LENGTH('a) then a * b else - 1)"

text \<open>\<open>u64::try_from\<close> on a \<open>u128\<close>, and the widening \<open>as u128\<close> and \<open>as u64\<close> casts.\<close>

definition u64_try_from :: "u128 \<Rightarrow> u64 option" where
  "u64_try_from x = (if unat x < 2 ^ 64 then Some (ucast x) else None)"

definition as_u128 :: "'a::len word \<Rightarrow> u128" where
  "as_u128 x = ucast x"

definition as_u64 :: "'a::len word \<Rightarrow> u64" where
  "as_u64 x = ucast x"

lemma checked_add_Some [checked]: "checked_add a b = Some c \<longleftrightarrow> unat c = unat a + unat b"
proof
  assume "checked_add a b = Some c"
  then show "unat c = unat a + unat b"
    by (auto simp: checked_add_def unat_word_ariths split: if_splits)
next
  assume eq: "unat c = unat a + unat b"
  have "unat c < 2 ^ LENGTH('a)" by (rule unsigned_less)
  with eq have lt: "unat a + unat b < 2 ^ LENGTH('a)" by simp
  with eq have "unat c = unat (a + b)" by (simp add: unat_word_ariths)
  then have "c = a + b" by (rule unsigned_word_eqI)
  with lt show "checked_add a b = Some c" by (simp add: checked_add_def)
qed

lemma checked_sub_Some [checked]: "checked_sub a b = Some c \<longleftrightarrow> unat a = unat c + unat b"
proof
  assume "checked_sub a b = Some c"
  then show "unat a = unat c + unat b"
    by (auto simp: checked_sub_def unat_sub word_le_nat_alt split: if_splits)
next
  assume eq: "unat a = unat c + unat b"
  then have le: "unat b \<le> unat a" by simp
  then have "unat (a - b) = unat c"
    using eq by (simp add: unat_sub word_le_nat_alt)
  then have "a - b = c" by (rule unsigned_word_eqI)
  with le show "checked_sub a b = Some c" by (simp add: checked_sub_def)
qed

lemma checked_mul_Some [checked]: "checked_mul a b = Some c \<longleftrightarrow> unat c = unat a * unat b"
proof
  assume "checked_mul a b = Some c"
  then show "unat c = unat a * unat b"
    by (auto simp: checked_mul_def unat_word_ariths split: if_splits)
next
  assume eq: "unat c = unat a * unat b"
  have "unat c < 2 ^ LENGTH('a)" by (rule unsigned_less)
  with eq have lt: "unat a * unat b < 2 ^ LENGTH('a)" by simp
  with eq have "unat c = unat (a * b)" by (simp add: unat_word_ariths)
  then have "c = a * b" by (rule unsigned_word_eqI)
  with lt show "checked_mul a b = Some c" by (simp add: checked_mul_def)
qed

lemma checked_div_Some [checked]:
  "checked_div a b = Some c \<longleftrightarrow> b \<noteq> 0 \<and> unat c = unat a div unat b"
proof -
  have "a div b = c \<longleftrightarrow> unat c = unat a div unat b"
    by (metis unat_div_distrib unsigned_word_eqI)
  then show ?thesis by (auto simp: checked_div_def)
qed

lemma u64_try_from_Some [checked]: "u64_try_from x = Some y \<longleftrightarrow> unat y = unat x"
proof
  assume "u64_try_from x = Some y"
  then show "unat y = unat x"
    by (auto simp: u64_try_from_def unsigned_ucast_eq take_bit_nat_eq_self split: if_splits)
next
  assume eq: "unat y = unat x"
  have "unat y < 2 ^ LENGTH(64)" by (rule unsigned_less)
  with eq have lt: "unat x < 2 ^ 64" by simp
  then have "unat (ucast x :: u64) = unat y" using eq by (simp add: unsigned_ucast_eq take_bit_nat_eq_self)
  then have "ucast x = y" by (rule unsigned_word_eqI)
  with lt show "u64_try_from x = Some y" by (simp add: u64_try_from_def)
qed

text \<open>Introduction forms: an operation that stays in range returns its mathematical value.\<close>

lemma ex_unat: "n < 2 ^ LENGTH('a) \<Longrightarrow> \<exists>x :: 'a::len word. unat x = n"
  by (rule exI [of _ "word_of_nat n"]) (simp add: unsigned_of_nat take_bit_nat_eq_self)

lemma checked_addE:
  assumes "unat a + unat b < 2 ^ LENGTH('a)"
  obtains c where "checked_add a (b :: 'a::len word) = Some c" "unat c = unat a + unat b"
  using ex_unat [OF assms] by (auto simp: checked_add_Some intro: that)

lemma checked_subE:
  assumes "unat b \<le> unat a"
  obtains c where "checked_sub a (b :: 'a::len word) = Some c" "unat a = unat c + unat b"
proof
  show "checked_sub a b = Some (a - b)" using assms by (simp add: checked_sub_def)
  then show "unat a = unat (a - b) + unat b" by (simp add: checked_sub_Some)
qed

lemma checked_mulE:
  assumes "unat a * unat b < 2 ^ LENGTH('a)"
  obtains c where "checked_mul a (b :: 'a::len word) = Some c" "unat c = unat a * unat b"
  using ex_unat [OF assms] by (auto simp: checked_mul_Some intro: that)

lemma checked_divE:
  assumes "b \<noteq> 0"
  obtains c where "checked_div a (b :: 'a::len word) = Some c" "unat c = unat a div unat b"
proof
  show "checked_div a b = Some (a div b)" using assms by (simp add: checked_div_def)
  then show "unat (a div b) = unat a div unat b" by (simp add: checked_div_Some)
qed

lemma u64_try_fromE:
  assumes "unat x < 2 ^ 64"
  obtains y where "u64_try_from x = Some y" "unat y = unat x"
  using ex_unat [where 'a = 64, of "unat x"] assms by (auto simp: u64_try_from_Some intro: that)

lemma checked_None:
  "checked_add a b = None \<longleftrightarrow> 2 ^ LENGTH('a) \<le> unat a + unat b"
  "checked_sub a b = None \<longleftrightarrow> unat a < unat b"
  "checked_mul a b = None \<longleftrightarrow> 2 ^ LENGTH('a) \<le> unat a * unat b"
  "checked_div a b = None \<longleftrightarrow> b = 0"
  for a b :: "'a::len word"
  by (auto simp: checked_add_def checked_sub_def checked_mul_def checked_div_def)

lemma u64_try_from_None: "u64_try_from x = None \<longleftrightarrow> 2 ^ 64 \<le> unat x"
  by (auto simp: u64_try_from_def)

lemma unat_saturating_sub [simp]: "unat (saturating_sub a b) = unat a - unat b"
  by (auto simp: saturating_sub_def unat_sub word_le_nat_alt)

lemma unat_saturating_mul: "unat (saturating_mul a b) = min (unat a * unat b) (2 ^ LENGTH('a) - 1)"
  for a b :: "'a::len word"
proof (cases "unat a * unat b < 2 ^ LENGTH('a)")
  case True
  then show ?thesis by (simp add: saturating_mul_def unat_word_ariths)
next
  case False
  then show ?thesis by (simp add: saturating_mul_def unsigned_minus_1_eq_mask mask_eq_exp_minus_1)
qed

text \<open>Bounds that every machine word carries.\<close>

lemma unat_u64_less: "unat (x :: u64) < 18446744073709551616"
  using unsigned_less [of x] by simp

lemma unat_u32_less: "unat (x :: u32) < 4294967296"
  using unsigned_less [of x] by simp

lemma unat_u16_less: "unat (x :: u16) < 65536"
  using unsigned_less [of x] by simp

lemma unat_u8_less: "unat (x :: u8) < 256"
  using unsigned_less [of x] by simp

lemma unat_as_u128 [simp]:
  "unat (as_u128 (x :: u64)) = unat x"
  "unat (as_u128 (y :: u16)) = unat y"
  by (simp_all add: as_u128_def unsigned_ucast_eq take_bit_nat_eq_self less_trans [OF unat_u64_less] less_trans [OF unat_u16_less])

lemma unat_as_u64 [simp]:
  "unat (as_u64 (y :: u16)) = unat y"
  "unat (as_u64 (z :: u32)) = unat z"
  by (simp_all add: as_u64_def unsigned_ucast_eq take_bit_nat_eq_self less_trans [OF unat_u32_less] less_trans [OF unat_u16_less])

section \<open>Signed 64-bit integers\<close>

definition i64_fits :: "int \<Rightarrow> bool" where
  "i64_fits x \<longleftrightarrow> - (2 ^ 63) \<le> x \<and> x < 2 ^ 63"

definition i64_checked_add :: "i64 \<Rightarrow> i64 \<Rightarrow> i64 option" where
  "i64_checked_add a b = (if i64_fits (sint a + sint b) then Some (a + b) else None)"

text \<open>The bare \<open>-\<close> operator under \<open>overflow-checks = true\<close>: \<open>None\<close> is the panic.\<close>

definition i64_sub :: "i64 \<Rightarrow> i64 \<Rightarrow> i64 option" where
  "i64_sub a b = (if i64_fits (sint a - sint b) then Some (a - b) else None)"

definition i64_saturating_sub :: "i64 \<Rightarrow> i64 \<Rightarrow> i64" where
  "i64_saturating_sub a b =
     (let d = sint a - sint b
      in if i64_fits d then a - b
         else if d < 0 then word_of_int (- (2 ^ 63)) else word_of_int (2 ^ 63 - 1))"

definition i64_max :: "i64 \<Rightarrow> i64 \<Rightarrow> i64" where
  "i64_max a b = (if sint a \<le> sint b then b else a)"

text \<open>Rust's \<open>/\<close> on signed integers truncates towards zero.\<close>

definition i64_div :: "i64 \<Rightarrow> i64 \<Rightarrow> i64" where
  "i64_div a b = word_of_int (sgn (sint a) * sgn (sint b) * (\<bar>sint a\<bar> div \<bar>sint b\<bar>))"

lemma sint_word_of_int_fits: "i64_fits x \<Longrightarrow> sint (word_of_int x :: i64) = x"
  by (simp add: i64_fits_def signed_of_int signed_take_bit_int_eq_self)

lemma i64_fits_sint [simp]: "i64_fits (sint (x :: i64))"
  using sint_ge [of x] sint_lt [of x] by (simp add: i64_fits_def)

lemma sint_i64_bounds: "- 9223372036854775808 \<le> sint (x :: i64)" "sint (x :: i64) < 9223372036854775808"
  using i64_fits_sint [of x] by (simp_all add: i64_fits_def)

lemma word_of_int_sint_add: "(a :: i64) + b = word_of_int (sint a + sint b)"
  by (simp add: of_int_add)

lemma word_of_int_sint_sub: "(a :: i64) - b = word_of_int (sint a - sint b)"
  by (simp add: of_int_diff)

lemma i64_checked_add_Some [checked]:
  "i64_checked_add a b = Some c \<longleftrightarrow> sint c = sint a + sint b"
proof
  assume "i64_checked_add a b = Some c"
  then have "i64_fits (sint a + sint b)" and "c = a + b"
    by (auto simp: i64_checked_add_def split: if_splits)
  then show "sint c = sint a + sint b"
    by (simp only: word_of_int_sint_add sint_word_of_int_fits)
next
  assume eq: "sint c = sint a + sint b"
  then have fits: "i64_fits (sint a + sint b)" by (metis i64_fits_sint)
  then have "sint (a + b) = sint c"
    using eq by (simp only: word_of_int_sint_add sint_word_of_int_fits)
  then have "a + b = c" by (rule signed_word_eqI)
  with fits show "i64_checked_add a b = Some c" by (simp add: i64_checked_add_def)
qed

lemma i64_sub_Some [checked]: "i64_sub a b = Some c \<longleftrightarrow> sint c = sint a - sint b"
proof
  assume "i64_sub a b = Some c"
  then have "i64_fits (sint a - sint b)" and "c = a - b"
    by (auto simp: i64_sub_def split: if_splits)
  then show "sint c = sint a - sint b"
    by (simp only: word_of_int_sint_sub sint_word_of_int_fits)
next
  assume eq: "sint c = sint a - sint b"
  then have fits: "i64_fits (sint a - sint b)" by (metis i64_fits_sint)
  then have "sint (a - b) = sint c"
    using eq by (simp only: word_of_int_sint_sub sint_word_of_int_fits)
  then have "a - b = c" by (rule signed_word_eqI)
  with fits show "i64_sub a b = Some c" by (simp add: i64_sub_def)
qed

lemma i64_checked_add_None: "i64_checked_add a b = None \<longleftrightarrow> \<not> i64_fits (sint a + sint b)"
  by (simp add: i64_checked_add_def)

lemma i64_sub_None: "i64_sub a b = None \<longleftrightarrow> \<not> i64_fits (sint a - sint b)"
  by (simp add: i64_sub_def)

lemma sint_i64_saturating_sub:
  "sint (i64_saturating_sub a b) = max (- (2 ^ 63)) (min (2 ^ 63 - 1) (sint a - sint b))"
proof -
  consider "i64_fits (sint a - sint b)" | "sint a - sint b < - (2 ^ 63)" | "2 ^ 63 \<le> sint a - sint b"
    unfolding i64_fits_def by linarith
  then show ?thesis
  proof cases
    case 1
    then have "sint (i64_saturating_sub a b) = sint (a - b)"
      by (simp add: i64_saturating_sub_def)
    also have "\<dots> = sint a - sint b"
      using 1 by (simp only: word_of_int_sint_sub sint_word_of_int_fits)
    finally show ?thesis using 1 by (auto simp: i64_fits_def)
  qed (auto simp: i64_saturating_sub_def i64_fits_def Let_def)
qed

lemma sint_i64_max: "sint (i64_max a b) = max (sint a) (sint b)"
  by (simp add: i64_max_def)

lemma sint_i64_div_nonneg:
  assumes "0 \<le> sint a" and "0 < sint b"
  shows "sint (i64_div a b) = sint a div sint b"
proof -
  have le: "sint a div sint b \<le> sint a"
    using assms by (metis div_by_1 zdiv_mono2 int_one_le_iff_zero_less zero_less_one)
  have "0 \<le> sint a div sint b"
    using assms by (simp add: pos_imp_zdiv_nonneg_iff)
  with le have "i64_fits (sint a div sint b)"
    using i64_fits_sint [of a] by (auto simp: i64_fits_def)
  moreover have "i64_div a b = word_of_int (sint a div sint b)"
    using assms by (cases "sint a = 0") (simp_all add: i64_div_def)
  ultimately show ?thesis by (simp only: sint_word_of_int_fits)
qed

text \<open>The cast of a non-negative \<open>i64\<close> to \<open>u64\<close> keeps its value.\<close>

lemma unat_nonneg_i64: "0 \<le> sint (x :: i64) \<Longrightarrow> int (unat x) = sint x"
proof -
  assume nn: "0 \<le> sint x"
  have "sint x = (sint x) mod 2 ^ 64"
    using nn i64_fits_sint [of x] by (simp add: i64_fits_def)
  also have "\<dots> = uint x" by (simp add: uint_sint take_bit_eq_mod)
  finally show ?thesis by simp
qed

section \<open>Slices and little-endian integers\<close>

text \<open>\<open>&data[off..off + n]\<close>: \<open>None\<close> is the out-of-range panic.\<close>

definition slice :: "bytes \<Rightarrow> nat \<Rightarrow> nat \<Rightarrow> bytes option" where
  "slice data off n = (if off + n \<le> length data then Some (take n (drop off data)) else None)"

fun le_nat :: "bytes \<Rightarrow> nat" where
  "le_nat [] = 0"
| "le_nat (b # bs) = unat b + 256 * le_nat bs"

definition from_le_bytes :: "bytes \<Rightarrow> 'a::len word" where
  "from_le_bytes bs = word_of_nat (le_nat bs)"

text \<open>The \<open>n\<close>-byte little-endian encoding, the inverse used by the signer of a message.\<close>

fun to_le_bytes :: "nat \<Rightarrow> nat \<Rightarrow> bytes" where
  "to_le_bytes 0 x = []"
| "to_le_bytes (Suc n) x = word_of_nat (x mod 256) # to_le_bytes n (x div 256)"

lemma slice_Some [result]:
  "slice data off n = Some xs \<longleftrightarrow> off + n \<le> length data \<and> xs = take n (drop off data)"
  by (auto simp: slice_def)

lemma length_to_le_bytes [simp]: "length (to_le_bytes n x) = n"
  by (induction n arbitrary: x) simp_all

lemma le_nat_to_le_bytes: "x < 256 ^ n \<Longrightarrow> le_nat (to_le_bytes n x) = x"
proof (induction n arbitrary: x)
  case 0
  then show ?case by simp
next
  case (Suc n)
  from Suc.prems have "x div 256 < 256 ^ n" by (simp add: less_mult_imp_div_less mult.commute)
  then have "le_nat (to_le_bytes n (x div 256)) = x div 256" by (rule Suc.IH)
  moreover have "unat (word_of_nat (x mod 256) :: u8) = x mod 256"
    by (simp add: unat_of_nat)
  ultimately show ?case by simp
qed

lemma le_nat_less: "le_nat bs < 256 ^ length bs"
proof (induction bs)
  case Nil
  then show ?case by simp
next
  case (Cons b bs)
  have "unat b + 256 * le_nat bs < 256 + 256 * le_nat bs" by (simp add: unat_u8_less)
  also have "\<dots> = 256 * Suc (le_nat bs)" by simp
  also have "\<dots> \<le> 256 * 256 ^ length bs"
    using Cons.IH by (intro mult_le_mono2) simp
  finally show ?case by simp
qed

lemma from_le_bytes_to_le_bytes: "from_le_bytes (to_le_bytes 8 (unat x)) = (x :: u64)"
  by (simp add: from_le_bytes_def le_nat_to_le_bytes unat_u64_less)

section \<open>Lists and floor division\<close>

lemma take_drop_append3:
  "length xs = i \<Longrightarrow> length ys = n \<Longrightarrow> take n (drop i (xs @ ys @ zs)) = ys"
  by simp

lemma div_mult_le_nat: "(n :: nat) div d * d \<le> n"
  by simp

lemma less_Suc_div_mult: "0 < d \<Longrightarrow> (n :: nat) < (n div d + 1) * d"
  by (metis add.commute dividend_less_times_div mult.commute mult_Suc_right plus_1_eq_Suc)

lemma floor_ratio_mono:
  fixes a b c d :: nat
  assumes "0 < b" and "0 < d" and "a * d \<le> c * b"
  shows "a div b \<le> c div d"
proof -
  have "(a div b) * b * d \<le> a * d" by simp
  also have "\<dots> \<le> c * b" by (rule assms(3))
  finally have "(a div b) * d * b \<le> c * b" by (simp add: ac_simps)
  with assms(1) have "(a div b) * d \<le> c" by simp
  with assms(2) show ?thesis by (simp add: less_eq_div_iff_mult_less_eq)
qed

end
