(* ===== verification/Shared.thy ===== *)
theory Shared
  imports Prelude
begin

text \<open>
  The constants and small types of \<^verbatim>\<open>crates/credmesh-shared/src/lib.rs\<close>: PDA seeds, program
  ids (the 32 bytes that the base58 literals denote), the layout of the 128-byte credit
  attestation, and the attestor kinds.
\<close>

section \<open>Seeds\<close>

definition POOL_SEED :: bytes where
  "POOL_SEED = map of_char ''pool''"

definition ADVANCE_SEED :: bytes where
  "ADVANCE_SEED = map of_char ''advance''"

definition CONSUMED_SEED :: bytes where
  "CONSUMED_SEED = map of_char ''consumed''"

definition ALLOWED_SIGNER_SEED :: bytes where
  "ALLOWED_SIGNER_SEED = map of_char ''allowed_signer''"

definition ATTESTOR_CONFIG_SEED :: bytes where
  "ATTESTOR_CONFIG_SEED = map of_char ''attestor_config''"

definition ISSUANCE_LEDGER_SEED :: bytes where
  "ISSUANCE_LEDGER_SEED = map of_char ''issuance_ledger''"

definition LIQUIDATION_TOMBSTONE_SEED :: bytes where
  "LIQUIDATION_TOMBSTONE_SEED = map of_char ''liq_tombstone''"

section \<open>Program ids\<close>

definition ESCROW :: pubkey where
  "ESCROW = [183, 105, 188, 26, 240, 166, 120, 46, 169, 115, 148, 45, 44, 250, 102, 12,
             188, 96, 197, 121, 29, 201, 229, 202, 132, 94, 166, 25, 185, 138, 45, 166]"

definition ATTESTOR_REGISTRY :: pubkey where
  "ATTESTOR_REGISTRY = [138, 183, 158, 193, 129, 53, 193, 205, 171, 157, 60, 11, 206, 34, 41, 134,
             205, 54, 231, 124, 19, 94, 250, 57, 76, 136, 183, 37, 147, 237, 136, 81]"

definition SQUADS_V4 :: pubkey where
  "SQUADS_V4 = [6, 129, 196, 206, 71, 226, 35, 104, 184, 177, 85, 94, 200, 135, 175, 9,
             46, 252, 126, 251, 182, 108, 163, 245, 47, 191, 104, 212, 172, 156, 183, 168]"

definition MEMO :: pubkey where
  "MEMO = [5, 74, 83, 90, 153, 41, 33, 6, 77, 36, 232, 113, 96, 218, 56, 124,
             124, 53, 181, 221, 188, 146, 187, 129, 228, 31, 168, 64, 65, 5, 68, 141]"

definition ED25519 :: pubkey where
  "ED25519 = [3, 125, 70, 214, 124, 147, 251, 190, 18, 249, 66, 143, 131, 141, 64, 255,
             5, 112, 116, 73, 39, 244, 138, 100, 252, 202, 112, 68, 128, 0, 0, 0]"

text \<open>\<open>Pubkey::default()\<close>: 32 zero bytes.\<close>

definition default_pubkey :: pubkey where
  "default_pubkey = replicate 32 0"

section \<open>Layout of the signed credit message\<close>

definition VERSION :: u64 where [simp]: "VERSION = 1"
definition TOTAL_LEN :: nat where [simp]: "TOTAL_LEN = 128"
definition AGENT_OFFSET :: nat where [simp]: "AGENT_OFFSET = 0"
definition AGENT_LEN :: nat where [simp]: "AGENT_LEN = 32"
definition POOL_OFFSET :: nat where [simp]: "POOL_OFFSET = 32"
definition POOL_LEN :: nat where [simp]: "POOL_LEN = 32"
definition CREDIT_LIMIT_OFFSET :: nat where [simp]: "CREDIT_LIMIT_OFFSET = 64"
definition CREDIT_LIMIT_LEN :: nat where [simp]: "CREDIT_LIMIT_LEN = 8"
definition OUTSTANDING_OFFSET :: nat where [simp]: "OUTSTANDING_OFFSET = 72"
definition OUTSTANDING_LEN :: nat where [simp]: "OUTSTANDING_LEN = 8"
definition EXPIRES_AT_OFFSET :: nat where [simp]: "EXPIRES_AT_OFFSET = 80"
definition EXPIRES_AT_LEN :: nat where [simp]: "EXPIRES_AT_LEN = 8"
definition ATTESTED_AT_OFFSET :: nat where [simp]: "ATTESTED_AT_OFFSET = 88"
definition ATTESTED_AT_LEN :: nat where [simp]: "ATTESTED_AT_LEN = 8"
definition NONCE_OFFSET :: nat where [simp]: "NONCE_OFFSET = 96"
definition NONCE_LEN :: nat where [simp]: "NONCE_LEN = 16"
definition CHAIN_ID_OFFSET :: nat where [simp]: "CHAIN_ID_OFFSET = 112"
definition CHAIN_ID_LEN :: nat where [simp]: "CHAIN_ID_LEN = 8"
definition VERSION_OFFSET :: nat where [simp]: "VERSION_OFFSET = 120"
definition VERSION_LEN :: nat where [simp]: "VERSION_LEN = 8"

definition MAX_ATTESTATION_AGE_SECONDS :: i64 where
  [simp]: "MAX_ATTESTATION_AGE_SECONDS = 900"

definition CHAIN_ID_MAINNET :: u64 where [simp]: "CHAIN_ID_MAINNET = 1"
definition CHAIN_ID_DEVNET :: u64 where [simp]: "CHAIN_ID_DEVNET = 2"

section \<open>Attestor kinds\<close>

datatype AttestorKind = CreditBridge

fun AttestorKind_as_u8 :: "AttestorKind \<Rightarrow> u8" where
  "AttestorKind_as_u8 CreditBridge = 0"

definition AttestorKind_from_u8 :: "u8 \<Rightarrow> AttestorKind option" where
  "AttestorKind_from_u8 b = (if b = 0 then Some CreditBridge else None)"

lemma AttestorKind_from_u8_Some [simp]:
  "AttestorKind_from_u8 b = Some k \<longleftrightarrow> b = AttestorKind_as_u8 k"
  by (cases k) (simp add: AttestorKind_from_u8_def)

lemma AttestorKind_known_iff: "AttestorKind_from_u8 b \<noteq> None \<longleftrightarrow> b = AttestorKind_as_u8 CreditBridge"
  by (simp add: AttestorKind_from_u8_def)

section \<open>Facts on the constants\<close>

lemma program_ids_distinct: "distinct [ESCROW, ATTESTOR_REGISTRY, SQUADS_V4, MEMO, ED25519, default_pubkey]"
  by code_simp

lemma program_ids_length:
  "length ESCROW = 32" "length ATTESTOR_REGISTRY = 32" "length SQUADS_V4 = 32"
  "length MEMO = 32" "length ED25519 = 32" "length default_pubkey = 32"
  by (simp_all add: ESCROW_def ATTESTOR_REGISTRY_def SQUADS_V4_def MEMO_def ED25519_def default_pubkey_def)

end
