(* ===== verification/Escrow_State.thy ===== *)
theory Escrow_State
  imports Shared
begin

text \<open>
  The data of \<^verbatim>\<open>credmesh-escrow\<close>: the constants, account structs and \<open>FeeCurve::validate\<close> of
  \<^verbatim>\<open>state.rs\<close>, the error codes of \<^verbatim>\<open>errors.rs\<close> and the events of \<^verbatim>\<open>events.rs\<close>.  Struct fields
  keep their names, with a short prefix where several structs share one.
\<close>

section \<open>Errors\<close>

datatype CredmeshError =
    InsufficientIdleLiquidity
  | ReceivableExpired
  | ReceivableStale
  | AdvanceExceedsCap
  | AdvanceExceedsCredit
  | Ed25519Missing
  | Ed25519SignerUnknown
  | Ed25519OffsetMismatch
  | Ed25519MessageMismatch
  | MemoNonceMismatch
  | MemoMissing
  | InvalidPayer
  | NotSettleable
  | NotLiquidatable
  | MathOverflow
  | GovernanceRequired
  | PendingParamsNotReady
  | NoPendingParams
  | ReplayDetected
  | InvalidAdvanceState
  | WaterfallSumMismatch
  | LateDaysExceeded
  | InvalidFeeCurve
  | InvalidChainId
  | AgentWindowCapExceeded

text \<open>
  How an instruction fails: with a code of its program, with an account constraint of the
  framework, in a call to another program, or by a panic (arithmetic overflow under
  \<open>overflow-checks\<close>, a slice out of range).
\<close>

datatype anchor_error =
    AccountNotInitialized
  | AccountAlreadyInUse
  | AccountNotSigner
  | ConstraintSeeds
  | ConstraintAddress
  | ConstraintTokenMint
  | ConstraintTokenOwner
  | ConstraintAssociated

datatype 'c program_error =
    Custom 'c
  | Anchor anchor_error
  | CpiFailed
  | Panicked

type_synonym escrow_error = "CredmeshError program_error"

abbreviation checked_or_overflow :: "'a option \<Rightarrow> escrow_error + 'a" where
  "checked_or_overflow x \<equiv> ok_or x (Custom MathOverflow)"

section \<open>Constants\<close>

definition PROTOCOL_FEE_BPS :: u16 where [simp]: "PROTOCOL_FEE_BPS = 1500"
definition BPS_DENOMINATOR :: u64 where [simp]: "BPS_DENOMINATOR = 10000"
definition LIQUIDATION_GRACE_SECONDS :: i64 where [simp]: "LIQUIDATION_GRACE_SECONDS = 1209600"
definition VIRTUAL_ASSETS_OFFSET :: u64 where [simp]: "VIRTUAL_ASSETS_OFFSET = 1000000"
definition VIRTUAL_SHARES_OFFSET :: u64 where [simp]: "VIRTUAL_SHARES_OFFSET = 1000000000"
definition MAX_LATE_DAYS :: u32 where [simp]: "MAX_LATE_DAYS = 365"
definition MIN_ADVANCE_ATOMS :: u64 where [simp]: "MIN_ADVANCE_ATOMS = 1000000"
definition AGENT_WINDOW_SECONDS :: i64 where [simp]: "AGENT_WINDOW_SECONDS = 86400"

section \<open>Account structs\<close>

record FeeCurve =
  utilization_kink_bps :: u16
  base_rate_bps :: u16
  kink_rate_bps :: u16
  max_rate_bps :: u16
  duration_per_day_bps :: u16
  risk_premium_bps :: u16
  pool_loss_surcharge_bps :: u16

record PendingParams =
  pp_fee_curve :: FeeCurve
  pp_max_advance_pct_bps :: u16
  pp_max_advance_abs :: u64
  pp_agent_window_cap :: u64
  pp_execute_after :: i64

record Pool =
  pool_bump :: u8
  pool_asset_mint :: pubkey
  pool_usdc_vault :: pubkey
  pool_share_mint :: pubkey
  pool_treasury_ata :: pubkey
  pool_governance :: pubkey
  total_assets :: u64
  total_shares :: u64
  deployed_amount :: u64
  accrued_protocol_fees :: u64
  fee_curve :: FeeCurve
  max_advance_pct_bps :: u16
  max_advance_abs :: u64
  agent_window_cap :: u64
  timelock_seconds :: i64
  pool_chain_id :: u64
  pending_params :: "PendingParams option"

text \<open>\<open>Pool::signer_seeds\<close>.\<close>

definition signer_seeds :: "Pool \<Rightarrow> u8 \<Rightarrow> bytes list" where
  "signer_seeds pool bump = [POOL_SEED, pool_asset_mint pool, [bump]]"

datatype AdvanceState = Issued | Settled | Liquidated

definition default_AdvanceState :: AdvanceState where
  "default_AdvanceState = Issued"

record Advance =
  adv_bump :: u8
  adv_agent :: pubkey
  adv_receivable_id :: bytes
  principal :: u64
  fee_owed :: u64
  late_penalty_per_day :: u64
  issued_at :: i64
  adv_expires_at :: i64
  adv_attestor :: pubkey
  adv_state :: AdvanceState

record ConsumedPayment =
  cp_bump :: u8
  cp_nonce :: bytes
  cp_agent :: pubkey
  cp_created_at :: i64

record LiquidationTombstone =
  tomb_bump :: u8
  tomb_agent :: pubkey
  tomb_principal :: u64
  tomb_expires_at :: i64
  tomb_liquidated_at :: i64

record AgentIssuanceLedger =
  led_bump :: u8
  led_agent :: pubkey
  led_pool :: pubkey
  window_start :: i64
  issued_in_window :: u64
  live_principal :: u64

section \<open>Validation of a fee curve\<close>

definition FeeCurve_validate :: "FeeCurve \<Rightarrow> escrow_error + unit" where
  "FeeCurve_validate c =
     and_then (require (as_u64 (utilization_kink_bps c) \<le> BPS_DENOMINATOR) (Custom InvalidFeeCurve)) (\<lambda>_.
     and_then (require (base_rate_bps c \<le> kink_rate_bps c) (Custom InvalidFeeCurve)) (\<lambda>_.
     and_then (require (kink_rate_bps c \<le> max_rate_bps c) (Custom InvalidFeeCurve)) (\<lambda>_.
     and_then (require (as_u64 (max_rate_bps c) \<le> BPS_DENOMINATOR) (Custom InvalidFeeCurve)) (\<lambda>_.
     Inr ()))))"

section \<open>Events\<close>

datatype escrow_event =
    PoolInitialized pubkey pubkey pubkey pubkey
      \<comment> \<open>pool, asset mint, share mint, governance\<close>
  | Deposited pubkey pubkey u64 u64
      \<comment> \<open>pool, lp, amount, shares minted\<close>
  | Withdrew pubkey pubkey u64 u64
      \<comment> \<open>pool, lp, shares burned, assets returned\<close>
  | AdvanceIssued pubkey pubkey pubkey u64 u64 i64 pubkey
      \<comment> \<open>pool, agent, advance, principal, fee owed, expiry, attestor\<close>
  | AdvanceSettled pubkey pubkey pubkey u64 u64 u64 u64 u32
      \<comment> \<open>pool, agent, advance, principal, lp cut, protocol cut, agent net, late days\<close>
  | AdvanceLiquidated pubkey pubkey pubkey u64
      \<comment> \<open>pool, agent, advance, loss\<close>
  | ParamsProposed pubkey i64
  | ParamsExecuted pubkey u16 u64 u64
  | ProtocolFeesSkimmed pubkey u64 pubkey

section \<open>Lemmas\<close>

definition valid_curve :: "FeeCurve \<Rightarrow> bool" where
  "valid_curve c \<longleftrightarrow>
     unat (utilization_kink_bps c) \<le> 10000
     \<and> unat (base_rate_bps c) \<le> unat (kink_rate_bps c)
     \<and> unat (kink_rate_bps c) \<le> unat (max_rate_bps c)
     \<and> unat (max_rate_bps c) \<le> 10000"

lemma FeeCurve_validate_ok_iff: "FeeCurve_validate c = Inr () \<longleftrightarrow> valid_curve c"
  by (simp add: FeeCurve_validate_def valid_curve_def result word_le_nat_alt)

lemma FeeCurve_validate_error:
  "FeeCurve_validate c \<noteq> Inr () \<Longrightarrow> FeeCurve_validate c = Inl (Custom InvalidFeeCurve)"
  by (auto simp: FeeCurve_validate_def require_def)

end
