(* ===== verification/Pricing.thy ===== *)
theory Pricing
  imports Escrow_State
begin

text \<open>
  \<^verbatim>\<open>programs/credmesh-escrow/src/pricing.rs\<close>: the virtual-shares conversions, the fee of an
  advance, the late penalty and the utilisation of a pool, on words of the source's widths.
  The locale \<open>share_quotes\<close> states what the two conversions promise (both round in the pool's
  favour) and derives what deposit and withdrawal rely on; it is interpreted on
  \<open>preview_deposit\<close> and \<open>preview_redeem\<close>.
\<close>

section \<open>The functions of the source\<close>

definition preview_deposit :: "u64 \<Rightarrow> u64 \<Rightarrow> u64 \<Rightarrow> escrow_error + u64" where
  "preview_deposit amount assets shares =
     (let amount_u = as_u128 amount in
      and_then (checked_or_overflow (checked_add (as_u128 shares) (as_u128 VIRTUAL_SHARES_OFFSET))) (\<lambda>shares_off.
      and_then (checked_or_overflow (checked_add (as_u128 assets) (as_u128 VIRTUAL_ASSETS_OFFSET))) (\<lambda>assets_off.
      and_then (checked_or_overflow (checked_mul amount_u shares_off)) (\<lambda>numerator.
      and_then (checked_or_overflow (checked_div numerator assets_off)) (\<lambda>minted.
      checked_or_overflow (u64_try_from minted))))))"

definition preview_redeem :: "u64 \<Rightarrow> u64 \<Rightarrow> u64 \<Rightarrow> escrow_error + u64" where
  "preview_redeem burned assets shares =
     (let shares_u = as_u128 burned in
      and_then (checked_or_overflow (checked_add (as_u128 assets) (as_u128 VIRTUAL_ASSETS_OFFSET))) (\<lambda>assets_off.
      and_then (checked_or_overflow (checked_add (as_u128 shares) (as_u128 VIRTUAL_SHARES_OFFSET))) (\<lambda>shares_off.
      and_then (checked_or_overflow (checked_mul shares_u assets_off)) (\<lambda>numerator.
      and_then (checked_or_overflow (checked_div numerator shares_off)) (\<lambda>returned.
      checked_or_overflow (u64_try_from returned))))))"

text \<open>The first half of \<open>compute_fee_amount\<close>: the rate on the utilisation curve.\<close>

definition utilization_rate_bps :: "u64 \<Rightarrow> FeeCurve \<Rightarrow> escrow_error + u64" where
  "utilization_rate_bps utilization_bps curve =
     (let rate_bps = as_u64 (base_rate_bps curve);
          kink = as_u64 (utilization_kink_bps curve) in
      if utilization_bps > kink \<and> saturating_sub BPS_DENOMINATOR kink > 0 then
        let extra = utilization_bps - kink;
            span = BPS_DENOMINATOR - kink;
            kink_to_max = saturating_sub (as_u64 (max_rate_bps curve)) (as_u64 (kink_rate_bps curve)) in
        and_then (checked_or_overflow (checked_mul extra kink_to_max)) (\<lambda>scaled.
        ok_or (checked_add (as_u64 (kink_rate_bps curve)) (scaled div span)) Panicked)
      else
        let kink_minus_base = saturating_sub (as_u64 (kink_rate_bps curve)) (as_u64 (base_rate_bps curve)) in
        and_then (checked_or_overflow (checked_mul utilization_bps kink_minus_base)) (\<lambda>scaled.
        ok_or (checked_add rate_bps (if kink > 0 then scaled div kink else 0)) Panicked))"

definition compute_fee_amount :: "u64 \<Rightarrow> u64 \<Rightarrow> u64 \<Rightarrow> u32 \<Rightarrow> FeeCurve \<Rightarrow> escrow_error + u64" where
  "compute_fee_amount amount duration_seconds utilization_bps default_count curve =
     and_then (utilization_rate_bps utilization_bps curve) (\<lambda>rate0.
     let duration_days = duration_seconds div 86400 in
     and_then (checked_or_overflow (checked_add rate0
       (saturating_mul duration_days (as_u64 (duration_per_day_bps curve))))) (\<lambda>rate1.
     let risk_factor = min (as_u64 default_count) 5 in
     and_then (checked_or_overflow (checked_add rate1
       (saturating_mul risk_factor (as_u64 (risk_premium_bps curve))))) (\<lambda>rate2.
     let rate_bps = min rate2 (as_u64 (max_rate_bps curve)) in
     and_then (checked_or_overflow (checked_mul (as_u128 amount) (as_u128 rate_bps))) (\<lambda>scaled.
     and_then (checked_or_overflow (checked_div scaled (as_u128 BPS_DENOMINATOR))) (\<lambda>fee_u128.
     checked_or_overflow (u64_try_from fee_u128))))))"

definition compute_late_penalty_per_day :: "u64 \<Rightarrow> FeeCurve \<Rightarrow> escrow_error + u64" where
  "compute_late_penalty_per_day amount curve =
     and_then (checked_or_overflow (checked_mul (as_u128 amount) 10)) (\<lambda>ten.
     and_then (checked_or_overflow (checked_div ten (as_u128 BPS_DENOMINATOR))) (\<lambda>base.
     let surcharge = as_u128 (pool_loss_surcharge_bps curve) in
     and_then
       (if surcharge > 0 then
          and_then (ok_or (checked_add (as_u128 BPS_DENOMINATOR) surcharge) Panicked) (\<lambda>factor.
          and_then (checked_or_overflow (checked_mul base factor)) (\<lambda>scaled.
          checked_or_overflow (checked_div scaled (as_u128 BPS_DENOMINATOR))))
        else Inr base) (\<lambda>total.
     checked_or_overflow (u64_try_from total))))"

definition compute_utilization_bps :: "Pool \<Rightarrow> escrow_error + u64" where
  "compute_utilization_bps pool =
     (if total_assets pool = 0 then Inr BPS_DENOMINATOR
      else
        and_then (checked_or_overflow (checked_mul (as_u128 (deployed_amount pool)) (as_u128 BPS_DENOMINATOR))) (\<lambda>scaled.
        and_then (checked_or_overflow (checked_div scaled (as_u128 (total_assets pool)))) (\<lambda>utilization_u128.
        Inr (case u64_try_from utilization_u128 of Some u \<Rightarrow> u | None \<Rightarrow> BPS_DENOMINATOR))))"

section \<open>Reference definitions on natural numbers\<close>

definition shares_for :: "nat \<Rightarrow> nat \<Rightarrow> nat \<Rightarrow> nat" where
  "shares_for a A S = a * (S + 1000000000) div (A + 1000000)"

definition assets_for :: "nat \<Rightarrow> nat \<Rightarrow> nat \<Rightarrow> nat" where
  "assets_for s A S = s * (A + 1000000) div (S + 1000000000)"

definition curve_rate :: "nat \<Rightarrow> FeeCurve \<Rightarrow> nat" where
  "curve_rate u c =
     (let k = unat (utilization_kink_bps c); b = unat (base_rate_bps c);
          kr = unat (kink_rate_bps c); m = unat (max_rate_bps c) in
      if k < u \<and> k < 10000 then kr + (u - k) * (m - kr) div (10000 - k)
      else b + u * (kr - b) div k)"

definition fee_rate :: "nat \<Rightarrow> nat \<Rightarrow> nat \<Rightarrow> FeeCurve \<Rightarrow> nat" where
  "fee_rate duration u defaults c =
     min (curve_rate u c + duration div 86400 * unat (duration_per_day_bps c)
            + min defaults 5 * unat (risk_premium_bps c))
         (unat (max_rate_bps c))"

section \<open>Share quotes\<close>

text \<open>
  Both quotes return the reference value or fail with \<open>MathOverflow\<close>: the 128-bit product can
  overflow only when both factors are close to \<open>2 ^ 64\<close>, the result when it exceeds \<open>u64\<close>.
\<close>

lemma add_offset_u128:
  "\<exists>c. checked_add (as_u128 (x :: u64)) (as_u128 (k :: u64)) = Some c \<and> unat c = unat x + unat k"
proof -
  have "unat x < 18446744073709551616" "unat k < 18446744073709551616"
    by (rule unat_u64_less)+
  then have "unat (as_u128 x) + unat (as_u128 k) < 2 ^ LENGTH(128)" by simp
  then show ?thesis by (rule checked_addE) auto
qed

lemma quote_ratio:
  fixes x n d :: u64 and kn kd :: u64
  assumes "kd \<noteq> 0"
  shows "and_then (checked_or_overflow (checked_add (as_u128 n) (as_u128 kn))) (\<lambda>n'.
         and_then (checked_or_overflow (checked_add (as_u128 d) (as_u128 kd))) (\<lambda>d'.
         and_then (checked_or_overflow (checked_mul (as_u128 x) n')) (\<lambda>p.
         and_then (checked_or_overflow (checked_div p d')) (\<lambda>q.
         checked_or_overflow (u64_try_from q))))) =
       (if unat x * (unat n + unat kn) < 2 ^ 128
           \<and> unat x * (unat n + unat kn) div (unat d + unat kd) < 2 ^ 64
        then Inr (word_of_nat (unat x * (unat n + unat kn) div (unat d + unat kd)))
        else Inl (Custom MathOverflow))" (is "?lhs = ?rhs")
proof -
  obtain n' where n': "checked_add (as_u128 n) (as_u128 kn) = Some n'" "unat n' = unat n + unat kn"
    using add_offset_u128 by blast
  obtain d' where d': "checked_add (as_u128 d) (as_u128 kd) = Some d'" "unat d' = unat d + unat kd"
    using add_offset_u128 by blast
  have "0 < unat kd" using assms by (simp add: unat_gt_0)
  then have nz: "d' \<noteq> 0" using d'(2) by (metis add_gr_0 less_numeral_extra(3) unat_0)
  show ?thesis
  proof (cases "unat x * (unat n + unat kn) < 2 ^ 128")
    case False
    then have "checked_mul (as_u128 x) n' = None" by (simp add: checked_None n')
    with False show ?thesis by (simp add: n' d')
  next
    case True
    then have "unat (as_u128 x) * unat n' < 2 ^ LENGTH(128)" by (simp add: n')
    then obtain p where p: "checked_mul (as_u128 x) n' = Some p" "unat p = unat x * (unat n + unat kn)"
      by (rule checked_mulE) (simp add: n')
    from nz obtain q where q: "checked_div p d' = Some q"
        "unat q = unat x * (unat n + unat kn) div (unat d + unat kd)"
      by (rule checked_divE [of d' p]) (simp add: p d')
    have "u64_try_from q = (if unat q < 2 ^ 64 then Some (word_of_nat (unat q)) else None)"
      by (simp add: u64_try_from_def)
    then show ?thesis using True by (simp add: n' d' p q)
  qed
qed

lemma preview_deposit_eq:
  "preview_deposit a A S =
     (if unat a * (unat S + 1000000000) < 2 ^ 128 \<and> shares_for (unat a) (unat A) (unat S) < 2 ^ 64
      then Inr (word_of_nat (shares_for (unat a) (unat A) (unat S)))
      else Inl (Custom MathOverflow))"
  unfolding preview_deposit_def Let_def
  by (subst quote_ratio) (simp_all add: shares_for_def)

lemma preview_redeem_eq:
  "preview_redeem s A S =
     (if unat s * (unat A + 1000000) < 2 ^ 128 \<and> assets_for (unat s) (unat A) (unat S) < 2 ^ 64
      then Inr (word_of_nat (assets_for (unat s) (unat A) (unat S)))
      else Inl (Custom MathOverflow))"
  unfolding preview_redeem_def Let_def
  by (subst quote_ratio) (simp_all add: assets_for_def)

lemma preview_deposit_Inr:
  "preview_deposit a A S = Inr s \<Longrightarrow> unat s = shares_for (unat a) (unat A) (unat S)"
  by (auto simp: preview_deposit_eq unsigned_of_nat take_bit_nat_eq_self split: if_splits)

lemma preview_redeem_Inr:
  "preview_redeem s A S = Inr r \<Longrightarrow> unat r = assets_for (unat s) (unat A) (unat S)"
  by (auto simp: preview_redeem_eq unsigned_of_nat take_bit_nat_eq_self split: if_splits)

text \<open>
  The contract that deposits and withdrawals rely on: quotes round in the pool's favour.  The
  price of a share is \<open>(A + va) / (S + vs)\<close>; comparisons of prices are cross-multiplied.
\<close>

locale share_quotes =
  fixes quote_deposit :: "u64 \<Rightarrow> u64 \<Rightarrow> u64 \<Rightarrow> 'e + u64"
    and quote_redeem :: "u64 \<Rightarrow> u64 \<Rightarrow> u64 \<Rightarrow> 'e + u64"
    and va :: nat
    and vs :: nat
  assumes va_pos: "0 < va"
    and vs_pos: "0 < vs"
    and deposit_floor: "quote_deposit a A S = Inr s \<Longrightarrow>
          unat s * (unat A + va) \<le> unat a * (unat S + vs)"
    and redeem_floor: "quote_redeem s A S = Inr r \<Longrightarrow>
          unat r * (unat S + vs) \<le> unat s * (unat A + va)"
begin

lemma deposit_then_redeem:
  assumes dep: "quote_deposit a A S = Inr s"
    and A': "unat A' = unat A + unat a" and S': "unat S' = unat S + unat s"
    and red: "quote_redeem s A' S' = Inr r"
  shows "unat r \<le> unat a"
proof -
  have "unat r * (unat S + unat s + vs) \<le> unat s * (unat A + va) + unat s * unat a"
    using redeem_floor [OF red] by (simp add: A' S' algebra_simps)
  also have "\<dots> \<le> unat a * (unat S + vs) + unat s * unat a"
    using deposit_floor [OF dep] by simp
  also have "\<dots> = unat a * (unat S + unat s + vs)" by (simp add: algebra_simps)
  finally show ?thesis using vs_pos by simp
qed

lemma redeem_then_deposit:
  assumes red: "quote_redeem s A S = Inr r"
    and A': "unat A = unat A' + unat r" and S': "unat S = unat S' + unat s"
    and dep: "quote_deposit r A' S' = Inr s'"
  shows "unat s' \<le> unat s"
proof -
  have "unat s' * (unat A' + va) + unat r * unat s \<le> unat r * (unat S' + vs) + unat r * unat s"
    using deposit_floor [OF dep] by simp
  also have "\<dots> = unat r * (unat S + vs)" by (simp add: S' algebra_simps)
  also have "\<dots> \<le> unat s * (unat A + va)" by (rule redeem_floor [OF red])
  also have "\<dots> = unat s * (unat A' + va) + unat r * unat s" by (simp add: A' algebra_simps)
  finally show ?thesis using va_pos by simp
qed

lemma deposit_price:
  assumes "quote_deposit a A S = Inr s"
  shows "(unat A + va) * (unat S + unat s + vs) \<le> (unat A + unat a + va) * (unat S + vs)"
  using deposit_floor [OF assms] by (simp add: algebra_simps)

lemma redeem_price:
  assumes red: "quote_redeem s A S = Inr r"
    and A': "unat A = unat A' + unat r" and S': "unat S = unat S' + unat s"
  shows "(unat A + va) * (unat S' + vs) \<le> (unat A' + va) * (unat S + vs)"
  using redeem_floor [OF red] by (simp add: A' S' algebra_simps)

end

interpretation quotes: share_quotes preview_deposit preview_redeem 1000000 1000000000
proof
  show "(0::nat) < 1000000" "(0::nat) < 1000000000" by simp_all
next
  fix a A S s
  assume "preview_deposit a A S = Inr s"
  then show "unat s * (unat A + 1000000) \<le> unat a * (unat S + 1000000000)"
    by (simp add: preview_deposit_Inr shares_for_def div_mult_le_nat)
next
  fix s A S r
  assume "preview_redeem s A S = Inr r"
  then show "unat r * (unat S + 1000000000) \<le> unat s * (unat A + 1000000)"
    by (simp add: preview_redeem_Inr assets_for_def div_mult_le_nat)
qed

section \<open>Fees\<close>

lemma valid_curveD:
  assumes "valid_curve c"
  shows "unat (utilization_kink_bps c) \<le> 10000"
    and "unat (base_rate_bps c) \<le> unat (kink_rate_bps c)"
    and "unat (kink_rate_bps c) \<le> unat (max_rate_bps c)"
    and "unat (max_rate_bps c) \<le> 10000"
  using assms by (simp_all add: valid_curve_def)

lemma mult_div_le_self:
  assumes "u \<le> k" shows "u * x div k \<le> (x :: nat)"
proof (cases "k = 0")
  case False
  have "u * x div k \<le> k * x div k" using assms by (intro div_le_mono mult_le_mono1)
  with False show ?thesis by simp
qed simp

lemma curve_rate_le_max:
  assumes "valid_curve c" and "u \<le> 10000"
  shows "curve_rate u c \<le> unat (max_rate_bps c)"
proof (cases "unat (utilization_kink_bps c) < u \<and> unat (utilization_kink_bps c) < 10000")
  case True
  then have "(u - unat (utilization_kink_bps c)) * (unat (max_rate_bps c) - unat (kink_rate_bps c))
      div (10000 - unat (utilization_kink_bps c)) \<le> unat (max_rate_bps c) - unat (kink_rate_bps c)"
    using assms(2) by (intro mult_div_le_self) simp
  then show ?thesis using True valid_curveD [OF assms(1)] by (simp add: curve_rate_def Let_def)
next
  case False
  then have "u \<le> unat (utilization_kink_bps c)" using assms by (auto simp: valid_curve_def)
  then have "u * (unat (kink_rate_bps c) - unat (base_rate_bps c)) div unat (utilization_kink_bps c)
      \<le> unat (kink_rate_bps c) - unat (base_rate_bps c)"
    by (rule mult_div_le_self)
  then show ?thesis using False valid_curveD [OF assms(1)] by (auto simp: curve_rate_def Let_def)
qed

lemma curve_rate_mono:
  assumes v: "valid_curve c" and uv: "u \<le> v" and "v \<le> 10000"
  shows "curve_rate u c \<le> curve_rate v c"
proof -
  let ?k = "unat (utilization_kink_bps c)" and ?b = "unat (base_rate_bps c)"
    and ?kr = "unat (kink_rate_bps c)" and ?m = "unat (max_rate_bps c)"
  consider (above) "?k < u" | (across) "u \<le> ?k" "?k < v" | (below) "v \<le> ?k"
    by linarith
  then show ?thesis
  proof cases
    case above
    then have "(u - ?k) * (?m - ?kr) div (10000 - ?k) \<le> (v - ?k) * (?m - ?kr) div (10000 - ?k)"
      using uv by (intro div_le_mono mult_le_mono1 diff_le_mono)
    then show ?thesis using above uv assms(3) by (simp add: curve_rate_def Let_def)
  next
    case across
    then have "u * (?kr - ?b) div ?k \<le> ?kr - ?b" by (intro mult_div_le_self)
    then show ?thesis using across assms(3) valid_curveD [OF v] by (simp add: curve_rate_def Let_def)
  next
    case below
    then have "u * (?kr - ?b) div ?k \<le> v * (?kr - ?b) div ?k"
      using uv by (intro div_le_mono mult_le_mono1)
    then show ?thesis using below uv by (simp add: curve_rate_def Let_def)
  qed
qed

lemma utilization_rate_ok:
  assumes v: "valid_curve c" and u: "unat u \<le> 10000"
  shows "\<exists>r. utilization_rate_bps u c = Inr r \<and> unat r = curve_rate (unat u) c"
proof -
  let ?k = "as_u64 (utilization_kink_bps c)" and ?kr = "as_u64 (kink_rate_bps c)"
    and ?b = "as_u64 (base_rate_bps c)" and ?m = "as_u64 (max_rate_bps c)"
  note V = valid_curveD [OF v]
  show ?thesis
  proof (cases "unat ?k < unat u \<and> unat ?k < 10000")
    case True
    have "(unat u - unat ?k) * (unat ?m - unat ?kr) \<le> 10000 * 10000"
      using u V by (intro mult_le_mono) simp_all
    moreover have ext: "unat (u - ?k) = unat u - unat ?k" "unat (10000 - ?k) = 10000 - unat ?k"
      using True by (simp_all add: unat_sub word_le_nat_alt)
    ultimately obtain p where p: "checked_mul (u - ?k) (saturating_sub ?m ?kr) = Some p"
        "unat p = (unat u - unat ?k) * (unat ?m - unat ?kr)"
      by (auto intro: checked_mulE [of "u - ?k" "saturating_sub ?m ?kr"])
    have "unat (p div (10000 - ?k)) = unat p div (10000 - unat ?k)"
      by (simp add: unat_div_distrib ext)
    moreover have "unat ?kr + unat p div (10000 - unat ?k) = curve_rate (unat u) c"
      using True by (simp add: curve_rate_def Let_def p)
    moreover have "curve_rate (unat u) c \<le> 10000"
      using curve_rate_le_max [OF v u] V by simp
    ultimately obtain r where "checked_add ?kr (p div (10000 - ?k)) = Some r"
        "unat r = curve_rate (unat u) c"
      by (auto intro: checked_addE [of ?kr "p div (10000 - ?k)"])
    with True p show ?thesis
      by (simp add: utilization_rate_bps_def Let_def word_less_nat_alt)
  next
    case False
    then have le: "unat u \<le> unat ?k" using u V by auto
    have "unat u * (unat ?kr - unat ?b) \<le> 10000 * 10000"
      using u V by (intro mult_le_mono) simp_all
    then obtain p where p: "checked_mul u (saturating_sub ?kr ?b) = Some p"
        "unat p = unat u * (unat ?kr - unat ?b)"
      by (auto intro: checked_mulE [of u "saturating_sub ?kr ?b"])
    let ?q = "if 0 < ?k then p div ?k else 0"
    have "unat ?q = unat p div unat ?k"
      by (auto simp: unat_div_distrib word_less_nat_alt)
    moreover have "unat ?b + unat p div unat ?k = curve_rate (unat u) c"
      using False by (auto simp: curve_rate_def Let_def p)
    moreover have "curve_rate (unat u) c \<le> 10000"
      using curve_rate_le_max [OF v u] V by simp
    ultimately obtain r where "checked_add ?b ?q = Some r" "unat r = curve_rate (unat u) c"
      by (auto intro: checked_addE [of ?b ?q])
    with le p show ?thesis
      by (simp add: utilization_rate_bps_def Let_def word_less_nat_alt)
  qed
qed

text \<open>
  For a validated curve and a utilisation of at most 100 per cent the fee is always computed:
  no overflow error and no panic, for every principal, duration and default count.
\<close>

lemma days_premium_bound:
  fixes d :: u64 and x :: u16
  shows "unat d div 86400 * unat x \<le> 213503982334601 * 65535"
proof (rule mult_le_mono)
  have "unat d \<le> 18446744073709551615" using unat_u64_less [of d] by simp
  then have "unat d div 86400 \<le> 18446744073709551615 div 86400" by (rule div_le_mono)
  then show "unat d div 86400 \<le> 213503982334601" by simp
  show "unat x \<le> 65535" using unat_u16_less [of x] by simp
qed

lemma risk_premium_bound:
  fixes n :: u32 and x :: u16
  shows "min (unat n) 5 * unat x \<le> 5 * 65535"
  using unat_u16_less [of x] by (intro mult_le_mono) simp_all

lemma unat_min: "unat (min a b) = min (unat a) (unat b)"
  by (simp add: min_def word_le_nat_alt)

lemma compute_fee_ok:
  assumes v: "valid_curve c" and u: "unat u \<le> 10000"
  shows "\<exists>f. compute_fee_amount p d u n c = Inr f
           \<and> unat f = unat p * fee_rate (unat d) (unat u) (unat n) c div 10000"
proof -
  let ?days = "saturating_mul (d div 86400) (as_u64 (duration_per_day_bps c))"
  let ?risk = "saturating_mul (min (as_u64 n) 5) (as_u64 (risk_premium_bps c))"
  let ?m = "as_u64 (max_rate_bps c)"
  note D = days_premium_bound [of d "duration_per_day_bps c"]
    and R = risk_premium_bound [of n "risk_premium_bps c"]
  obtain r0 where r0: "utilization_rate_bps u c = Inr r0" "unat r0 = curve_rate (unat u) c"
    using utilization_rate_ok [OF v u] by blast
  have r0_le: "unat r0 \<le> 10000"
    using r0(2) curve_rate_le_max [OF v u] valid_curveD [OF v] by simp
  have days: "unat ?days = unat d div 86400 * unat (duration_per_day_bps c)"
    using D by (simp add: unat_saturating_mul unat_div_distrib)
  have risk: "unat ?risk = min (unat n) 5 * unat (risk_premium_bps c)"
    using R by (simp add: unat_saturating_mul unat_min)
  obtain r1 where r1: "checked_add r0 ?days = Some r1" "unat r1 = unat r0 + unat ?days"
    using r0_le D days by (auto intro: checked_addE [of r0 ?days])
  obtain r2 where r2: "checked_add r1 ?risk = Some r2" "unat r2 = unat r1 + unat ?risk"
    using r0_le D days R risk r1 by (auto intro: checked_addE [of r1 ?risk])
  let ?rate = "min r2 ?m"
  have rate: "unat ?rate = fee_rate (unat d) (unat u) (unat n) c"
    by (simp add: fee_rate_def unat_min r2 r1 r0 days risk)
  have rate_le: "unat ?rate \<le> 10000"
    using valid_curveD [OF v] by (simp add: unat_min)
  have "unat p * unat ?rate \<le> 18446744073709551616 * 10000"
    using rate_le unat_u64_less [of p] by (intro mult_le_mono) simp_all
  then obtain x where x: "checked_mul (as_u128 p) (as_u128 ?rate) = Some x"
      "unat x = unat p * unat ?rate"
    by (auto intro: checked_mulE [of "as_u128 p" "as_u128 ?rate"])
  obtain y where y: "checked_div x (as_u128 (10000 :: u64)) = Some y" "unat y = unat x div 10000"
    by (rule checked_divE [of "as_u128 (10000 :: u64)" x]) (simp_all add: as_u128_def)
  have "unat x \<le> unat p * 10000" using rate_le x by simp
  then have "unat y \<le> unat p" using y by simp
  then have "unat y < 2 ^ 64" using unat_u64_less [of p] by simp
  then obtain f where f: "u64_try_from y = Some f" "unat f = unat y"
    by (rule u64_try_fromE)
  show ?thesis
    using f y x rate r2 r1 r0 by (simp add: compute_fee_amount_def Let_def)
qed

lemma fee_rate_le_max: "fee_rate d u n c \<le> unat (max_rate_bps c)"
  by (simp add: fee_rate_def)

lemma fee_rate_mono:
  assumes "valid_curve c" and "d \<le> d'" and "u \<le> u'" and "u' \<le> 10000" and "n \<le> n'"
  shows "fee_rate d u n c \<le> fee_rate d' u' n' c"
  unfolding fee_rate_def using assms
  by (intro min.mono add_mono mult_le_mono div_le_mono curve_rate_mono) simp_all

section \<open>Late penalty and utilisation\<close>

text \<open>The daily penalty: a tenth of a per cent of the principal, scaled by the loss surcharge.\<close>

definition late_penalty_ref :: "nat \<Rightarrow> FeeCurve \<Rightarrow> nat" where
  "late_penalty_ref p c = p div 1000 * (10000 + unat (pool_loss_surcharge_bps c)) div 10000"

lemma late_penalty_ok:
  "\<exists>x. compute_late_penalty_per_day p c = Inr x \<and> unat x = late_penalty_ref (unat p) c"
proof -
  let ?s = "as_u128 (pool_loss_surcharge_bps c)"
  have p_le: "unat p < 18446744073709551616" by (rule unat_u64_less)
  have s_le: "unat ?s < 65536" using unat_u16_less [of "pool_loss_surcharge_bps c"] by simp
  obtain t where t: "checked_mul (as_u128 p) 10 = Some t" "unat t = unat p * 10"
    using p_le by (auto intro: checked_mulE [of "as_u128 p" 10])
  obtain b where b: "checked_div t (as_u128 (10000 :: u64)) = Some b" "unat b = unat t div 10000"
    by (rule checked_divE [of "as_u128 (10000 :: u64)" t]) (simp_all add: as_u128_def)
  have b_eq: "unat b = unat p div 1000" using b t by (simp add: div_mult2_eq [symmetric])
  obtain f where f: "checked_add (as_u128 (10000 :: u64)) ?s = Some f" "unat f = 10000 + unat ?s"
    using s_le by (auto intro: checked_addE [of "as_u128 (10000 :: u64)" ?s])
  have "unat b * unat f \<le> 18446744073709552 * 75536"
    using p_le s_le b_eq f by (intro mult_le_mono) simp_all
  then obtain x where x: "checked_mul b f = Some x" "unat x = unat b * unat f"
    by (auto intro: checked_mulE [of b f])
  obtain y where y: "checked_div x (as_u128 (10000 :: u64)) = Some y" "unat y = unat x div 10000"
    by (rule checked_divE [of "as_u128 (10000 :: u64)" x]) (simp_all add: as_u128_def)
  have "unat x \<le> 18446744073709552 * 75536"
    using \<open>unat b * unat f \<le> 18446744073709552 * 75536\<close> x by simp
  then have "unat y < 2 ^ 64" using y by simp
  then obtain z where z: "u64_try_from y = Some z" "unat z = unat y" by (rule u64_try_fromE)
  have "unat b < 2 ^ 64" using b_eq p_le by simp
  then obtain w where w: "u64_try_from b = Some w" "unat w = unat b" by (rule u64_try_fromE)
  show ?thesis
  proof (cases "0 < ?s")
    case True
    then show ?thesis
      using t b f x y z b_eq
      by (simp add: compute_late_penalty_per_day_def late_penalty_ref_def)
  next
    case False
    then have "unat (pool_loss_surcharge_bps c) = 0"
      by (metis unat_as_u128(2) unat_eq_0 word_gt_0)
    then show ?thesis
      using False t b w b_eq
      by (simp add: compute_late_penalty_per_day_def late_penalty_ref_def)
  qed
qed

lemma utilization_ok:
  assumes "unat (deployed_amount pl) \<le> unat (total_assets pl)"
  shows "\<exists>u. compute_utilization_bps pl = Inr u \<and> unat u \<le> 10000
           \<and> unat u = (if total_assets pl = 0 then 10000
                       else unat (deployed_amount pl) * 10000 div unat (total_assets pl))"
proof (cases "total_assets pl = 0")
  case True
  then show ?thesis by (simp add: compute_utilization_bps_def)
next
  case False
  let ?d = "deployed_amount pl" and ?a = "total_assets pl"
  have d_le: "unat ?d < 18446744073709551616" by (rule unat_u64_less)
  then obtain x where x: "checked_mul (as_u128 ?d) (as_u128 (10000 :: u64)) = Some x" "unat x = unat ?d * 10000"
    by (auto intro: checked_mulE [of "as_u128 ?d" "as_u128 (10000 :: u64)"])
  have "as_u128 ?a \<noteq> 0" using False by (metis unat_as_u128(1) unat_0 unat_eq_0)
  then obtain y where y: "checked_div x (as_u128 ?a) = Some y" "unat y = unat x div unat ?a"
    by (rule checked_divE [of "as_u128 ?a" x]) simp
  have "unat ?d * 10000 div unat ?a \<le> 10000" using assms by (rule mult_div_le_self)
  then have y_le: "unat y \<le> 10000" using x y by simp
  then have "unat y < 2 ^ 64" by simp
  then obtain u where "u64_try_from y = Some u" "unat u = unat y" by (rule u64_try_fromE)
  then show ?thesis using False x y y_le by (simp add: compute_utilization_bps_def)
qed

section \<open>Properties\<close>

text \<open>
  C26: both share conversions compute the virtual-offset formula exactly: the quotient rounded
  down, on every input whose 128-bit product and 64-bit result fit, and \<open>MathOverflow\<close> on every
  other input.
\<close>

theorem share_quotes_exact:
  "preview_deposit a A S =
     (if unat a * (unat S + 1000000000) < 2 ^ 128
         \<and> unat a * (unat S + 1000000000) div (unat A + 1000000) < 2 ^ 64
      then Inr (word_of_nat (unat a * (unat S + 1000000000) div (unat A + 1000000)))
      else Inl (Custom MathOverflow))
   \<and> preview_redeem s A S =
     (if unat s * (unat A + 1000000) < 2 ^ 128
         \<and> unat s * (unat A + 1000000) div (unat S + 1000000000) < 2 ^ 64
      then Inr (word_of_nat (unat s * (unat A + 1000000) div (unat S + 1000000000)))
      else Inl (Custom MathOverflow))"
  by (simp only: preview_deposit_eq preview_redeem_eq shares_for_def assets_for_def simp_thms)

text \<open>
  Depositing and redeeming the minted shares at once never pays out more than was deposited.
\<close>

theorem deposit_then_redeem_no_profit:
  assumes "preview_deposit a A S = Inr s"
    and "unat A' = unat A + unat a" and "unat S' = unat S + unat s"
    and "preview_redeem s A' S' = Inr r"
  shows "unat r \<le> unat a"
  using assms by (rule quotes.deposit_then_redeem)

lemma deposit_then_redeem_witness:
  "preview_deposit 7 3 0 = Inr 6999 \<and> preview_redeem 6999 10 6999 = Inr 6 \<and> unat (6 :: u64) \<le> unat (7 :: u64)"
proof -
  have d: "preview_deposit 7 3 0 = Inr 6999" and r: "preview_redeem 6999 10 6999 = Inr 6"
    by (simp_all add: preview_deposit_eq preview_redeem_eq shares_for_def assets_for_def)
  with deposit_then_redeem_no_profit [of 7 3 0 6999 10 6999 6] show ?thesis by simp
qed

text \<open>
  Redeeming shares and depositing the proceeds at once never returns more shares than were
  burned.
\<close>

theorem redeem_then_deposit_no_profit:
  assumes "preview_redeem s A S = Inr r"
    and "unat A = unat A' + unat r" and "unat S = unat S' + unat s"
    and "preview_deposit r A' S' = Inr s'"
  shows "unat s' \<le> unat s"
  using assms by (rule quotes.redeem_then_deposit)

lemma redeem_then_deposit_witness:
  "preview_redeem 5000 10 6999 = Inr 5 \<and> preview_deposit 5 5 1999 = Inr 4999
     \<and> unat (4999 :: u64) \<le> unat (5000 :: u64)"
proof -
  have r: "preview_redeem 5000 10 6999 = Inr 5" and d: "preview_deposit 5 5 1999 = Inr 4999"
    by (simp_all add: preview_deposit_eq preview_redeem_eq shares_for_def assets_for_def)
  with redeem_then_deposit_no_profit [of 5000 10 6999 5 5 1999 4999] show ?thesis by simp
qed

text \<open>
  C27: on a validated curve and at a utilisation of at most 100 per cent (10000 basis points) the
  fee never fails, whatever principal, duration and number of defaults; it is the principal times
  the rate (utilisation curve, duration and risk premia, clamped to the maximal rate), rounded down,
  and never exceeds the principal.  (Above 100 per cent a product can exceed 64 bits; the quote of
  an advance comes before the check that keeps the deployed amount below the assets.)
\<close>

theorem fee_exact_and_bounded:
  assumes "FeeCurve_validate c = Inr ()" and "unat u \<le> 10000"
  shows "\<exists>f. compute_fee_amount p d u n c = Inr f
           \<and> unat f = unat p * fee_rate (unat d) (unat u) (unat n) c div 10000
           \<and> unat f \<le> unat p * unat (max_rate_bps c) div 10000 \<and> unat f \<le> unat p"
proof -
  have v: "valid_curve c" using assms(1) by (simp add: FeeCurve_validate_ok_iff)
  obtain f where f: "compute_fee_amount p d u n c = Inr f"
      "unat f = unat p * fee_rate (unat d) (unat u) (unat n) c div 10000"
    using compute_fee_ok [OF v assms(2)] by blast
  have "unat f \<le> unat p * unat (max_rate_bps c) div 10000"
    unfolding f(2) by (intro div_le_mono mult_le_mono2 fee_rate_le_max)
  moreover have "unat p * unat (max_rate_bps c) div 10000 \<le> unat p"
    using mult_div_le_self [OF valid_curveD(4) [OF v]] by (simp add: mult.commute)
  ultimately show ?thesis using f by (meson order_trans)
qed

definition sample_curve :: FeeCurve where
  "sample_curve = \<lparr>utilization_kink_bps = 8000, base_rate_bps = 200, kink_rate_bps = 800,
     max_rate_bps = 5000, duration_per_day_bps = 10, risk_premium_bps = 100,
     pool_loss_surcharge_bps = 500\<rparr>"

lemma fee_exact_and_bounded_witness:
  "FeeCurve_validate sample_curve = Inr () \<and>
   (\<exists>f. compute_fee_amount 1000000000 864000 9000 2 sample_curve = Inr f
      \<and> unat f = unat (1000000000 :: u64) * fee_rate (unat (864000 :: u64)) (unat (9000 :: u64)) (unat (2 :: u32)) sample_curve div 10000
      \<and> unat f \<le> unat (1000000000 :: u64) * unat (max_rate_bps sample_curve) div 10000 \<and> unat f \<le> unat (1000000000 :: u64))"
proof
  show v: "FeeCurve_validate sample_curve = Inr ()" by code_simp
  show "\<exists>f. compute_fee_amount 1000000000 864000 9000 2 sample_curve = Inr f
      \<and> unat f = unat (1000000000 :: u64) * fee_rate (unat (864000 :: u64)) (unat (9000 :: u64)) (unat (2 :: u32)) sample_curve div 10000
      \<and> unat f \<le> unat (1000000000 :: u64) * unat (max_rate_bps sample_curve) div 10000 \<and> unat f \<le> unat (1000000000 :: u64)"
    by (rule fee_exact_and_bounded [OF v]) simp
qed

text \<open>
  On a validated curve the fee grows with the principal, the duration, the utilisation and
  the default count.
\<close>

theorem fee_monotone:
  assumes "FeeCurve_validate c = Inr ()" and "unat u' \<le> 10000"
    and "unat p \<le> unat p'" and "unat d \<le> unat d'" and "unat u \<le> unat u'" and "unat n \<le> unat n'"
    and "compute_fee_amount p d u n c = Inr f" and "compute_fee_amount p' d' u' n' c = Inr f'"
  shows "unat f \<le> unat f'"
proof -
  have v: "valid_curve c" using assms(1) by (simp add: FeeCurve_validate_ok_iff)
  have "unat f = unat p * fee_rate (unat d) (unat u) (unat n) c div 10000"
    "unat f' = unat p' * fee_rate (unat d') (unat u') (unat n') c div 10000"
    using compute_fee_ok [OF v, of u p d n] compute_fee_ok [OF v assms(2), of p' d' n'] assms(2,5,7,8) by auto
  then show ?thesis
    using assms(2-6) by (simp add: div_le_mono mult_le_mono fee_rate_mono [OF v])
qed

lemma fee_monotone_witness:
  "\<exists>f f'. compute_fee_amount 1000000 86400 1000 0 sample_curve = Inr f
     \<and> compute_fee_amount 2000000 86400 9000 3 sample_curve = Inr f' \<and> unat f \<le> unat f'"
proof -
  have v: "FeeCurve_validate sample_curve = Inr ()" by code_simp
  then have vc: "valid_curve sample_curve" by (simp add: FeeCurve_validate_ok_iff)
  obtain f where a: "compute_fee_amount 1000000 86400 1000 0 sample_curve = Inr f"
    using compute_fee_ok [OF vc, of 1000 1000000 86400 0] by auto
  obtain f' where b: "compute_fee_amount 2000000 86400 9000 3 sample_curve = Inr f'"
    using compute_fee_ok [OF vc, of 9000 2000000 86400 3] by auto
  show ?thesis using a b fee_monotone [OF v _ _ _ _ _ a b] by simp
qed

text \<open>
  The daily late penalty never fails and is a tenth of a per cent of the principal, rounded
  down, scaled by the pool-loss surcharge and rounded down again.
\<close>

lemma late_penalty_exact:
  "\<exists>x. compute_late_penalty_per_day p c = Inr x
     \<and> unat x = unat p div 1000 * (10000 + unat (pool_loss_surcharge_bps c)) div 10000"
  using late_penalty_ok [of p c] by (simp add: late_penalty_ref_def)

text \<open>
  The quotes count the virtual assets.  After a loss that brings a share below its first price,
  the quote for all shares is more than the pool has, by less than the virtual assets.
\<close>

lemma redeem_quote_above_assets: "preview_redeem 2000000000000 500000 2000000000000 = Inr 1499250"
  by (simp add: preview_redeem_eq assets_for_def)

lemma redeem_quote_bound:
  assumes "preview_redeem s A S = Inr r" and "unat s \<le> unat S"
  shows "unat r < unat A + 1000000"
proof -
  have "unat s * (unat A + 1000000) < (unat A + 1000000) * (unat S + 1000000000)"
    using assms(2) by (subst mult.commute) simp
  then have "assets_for (unat s) (unat A) (unat S) < unat A + 1000000"
    by (simp add: assets_for_def less_mult_imp_div_less)
  then show ?thesis using preview_redeem_Inr [OF assms(1)] by simp
qed

end
