(* ===== verification/Introspection.thy ===== *)
theory Introspection
  imports Shared
begin

text \<open>
  \<^verbatim>\<open>crates/credmesh-shared/src/ix_introspection.rs\<close> and \<^verbatim>\<open>cross_program.rs\<close>.

  The instructions sysvar is read through two functions of the Solana SDK,
  \<^verbatim>\<open>load_current_index_checked\<close> and \<^verbatim>\<open>load_instruction_at_checked\<close>.  They are outside the
  repository, so the sysvar is modelled by what these two calls answer: the fields of the record
  \<open>instructions_sysvar\<close>, an argument of every operation below.  The ed25519 precompile is
  outside too; what the code relies on is the predicate \<open>ed25519_precompile_ok\<close>, a hypothesis
  of the theorems that speak of signatures.

  The two scans of the transaction (memo, Squads) share the contract \<open>ix_scan\<close>, a locale
  interpreted on both.
\<close>

section \<open>Instructions and the sysvar\<close>

record AccountMeta =
  meta_pubkey :: pubkey
  meta_is_signer :: bool
  meta_is_writable :: bool

record Instruction =
  ix_program_id :: pubkey
  ix_accounts :: "AccountMeta list"
  ix_data :: bytes

record instructions_sysvar =
  sv_current_index :: "u16 option"
  sv_load_at :: "nat \<Rightarrow> Instruction option"

datatype IxIntrospectionError =
    SysvarLoadFailed
  | PrevIxNotFound
  | Ed25519NotFound
  | Ed25519MalformedData
  | IxEd25519OffsetMismatch
  | Ed25519PubkeyMismatch
  | IxEd25519MessageMismatch
  | MemoNotFound
  | MemoMismatch

section \<open>The ed25519 verify instruction\<close>

definition ED25519_OFFSETS_HEADER :: nat where [simp]: "ED25519_OFFSETS_HEADER = 2"
definition ED25519_OFFSETS_LEN :: nat where [simp]: "ED25519_OFFSETS_LEN = 14"

record Ed25519Offsets =
  signature_offset :: u16
  signature_instruction_index :: u16
  public_key_offset :: u16
  public_key_instruction_index :: u16
  message_data_offset :: u16
  message_data_size :: u16
  message_instruction_index :: u16

definition parse_offsets :: "bytes \<Rightarrow> Ed25519Offsets option" where
  "parse_offsets data =
     (if length data < ED25519_OFFSETS_HEADER + ED25519_OFFSETS_LEN then None
      else let body = take ED25519_OFFSETS_LEN (drop ED25519_OFFSETS_HEADER data)
      in Some \<lparr>
        signature_offset = from_le_bytes [body ! 0, body ! 1],
        signature_instruction_index = from_le_bytes [body ! 2, body ! 3],
        public_key_offset = from_le_bytes [body ! 4, body ! 5],
        public_key_instruction_index = from_le_bytes [body ! 6, body ! 7],
        message_data_offset = from_le_bytes [body ! 8, body ! 9],
        message_data_size = from_le_bytes [body ! 10, body ! 11],
        message_instruction_index = from_le_bytes [body ! 12, body ! 13] \<rparr>)"

definition verify_prev_ed25519 :: "instructions_sysvar \<Rightarrow> IxIntrospectionError + pubkey \<times> bytes" where
  "verify_prev_ed25519 sv =
     and_then (ok_or (sv_current_index sv) SysvarLoadFailed) (\<lambda>cur_idx.
     if cur_idx = 0 then Inl PrevIxNotFound
     else let prev_idx = cur_idx - 1 in
     and_then (ok_or (sv_load_at sv (unat prev_idx)) PrevIxNotFound) (\<lambda>prev_ix.
     if ix_program_id prev_ix \<noteq> ED25519 then Inl Ed25519NotFound
     else if ix_data prev_ix = [] \<or> ix_data prev_ix ! 0 \<noteq> 1 then Inl Ed25519MalformedData
     else and_then (ok_or (parse_offsets (ix_data prev_ix)) Ed25519MalformedData) (\<lambda>offsets.
     if signature_instruction_index offsets \<noteq> prev_idx
        \<or> public_key_instruction_index offsets \<noteq> prev_idx
        \<or> message_instruction_index offsets \<noteq> prev_idx
     then Inl IxEd25519OffsetMismatch
     else let pk_off = unat (public_key_offset offsets);
              msg_off = unat (message_data_offset offsets);
              msg_len = unat (message_data_size offsets) in
     if length (ix_data prev_ix) < pk_off + 32 then Inl Ed25519MalformedData
     else if length (ix_data prev_ix) < msg_off + msg_len then Inl Ed25519MalformedData
     else Inr (take 32 (drop pk_off (ix_data prev_ix)),
               take msg_len (drop msg_off (ix_data prev_ix))))))"

section \<open>Scans of the transaction\<close>

definition MAX_IX_SCAN :: nat where [simp]: "MAX_IX_SCAN = 64"

text \<open>The two \<open>for\<close> loops; the first argument counts the iterations left.\<close>

fun memo_scan :: "instructions_sysvar \<Rightarrow> bytes \<Rightarrow> nat \<Rightarrow> nat \<Rightarrow> IxIntrospectionError + unit" where
  "memo_scan sv nonce 0 idx = Inl MemoNotFound"
| "memo_scan sv nonce (Suc n) idx =
     (case sv_load_at sv idx of
        Some ix \<Rightarrow>
          if ix_program_id ix = MEMO \<and> ix_data ix = nonce then Inr ()
          else memo_scan sv nonce n (Suc idx)
      | None \<Rightarrow> Inl MemoNotFound)"

definition require_memo_nonce :: "instructions_sysvar \<Rightarrow> bytes \<Rightarrow> IxIntrospectionError + unit" where
  "require_memo_nonce sv expected_nonce = memo_scan sv expected_nonce MAX_IX_SCAN 0"

definition writable_match :: "pubkey \<Rightarrow> Instruction \<Rightarrow> bool" where
  "writable_match vault ix \<longleftrightarrow>
     list_ex (\<lambda>a. meta_pubkey a = vault \<and> meta_is_writable a) (ix_accounts ix)"

fun squads_scan :: "instructions_sysvar \<Rightarrow> pubkey \<Rightarrow> nat \<Rightarrow> nat \<Rightarrow> IxIntrospectionError + unit" where
  "squads_scan sv vault 0 idx = Inl PrevIxNotFound"
| "squads_scan sv vault (Suc n) idx =
     (case sv_load_at sv idx of
        Some ix \<Rightarrow>
          if ix_program_id ix \<noteq> SQUADS_V4 then squads_scan sv vault n (Suc idx)
          else if writable_match vault ix then Inr ()
          else squads_scan sv vault n (Suc idx)
      | None \<Rightarrow> Inl PrevIxNotFound)"

definition require_squads_governance_cpi ::
  "instructions_sysvar \<Rightarrow> pubkey \<Rightarrow> IxIntrospectionError + unit" where
  "require_squads_governance_cpi sv expected_vault = squads_scan sv expected_vault MAX_IX_SCAN 0"

section \<open>Cross-program reads\<close>

text \<open>
  \<open>AccountInfo\<close> as the helper sees it; \<open>ai_data\<close> is the answer of \<open>try_borrow_data\<close>.  The
  type parameter \<open>T\<close> of the source is its discriminator and its \<open>try_deserialize\<close>, both
  generated by Anchor and therefore arguments here.
\<close>

record AccountInfo =
  ai_key :: pubkey
  ai_owner :: pubkey
  ai_data :: "bytes option"

datatype CrossProgramReadError = OwnerMismatch | AddressMismatch | DiscriminatorMismatch | Deserialize

definition read_cross_program_account ::
  "bytes \<Rightarrow> (bytes \<Rightarrow> 't option) \<Rightarrow> AccountInfo \<Rightarrow> pubkey \<Rightarrow> pubkey \<Rightarrow> CrossProgramReadError + 't" where
  "read_cross_program_account discriminator try_deserialize info expected_owner expected_address =
     (if ai_owner info \<noteq> expected_owner then Inl OwnerMismatch
      else if ai_key info \<noteq> expected_address then Inl AddressMismatch
      else and_then (ok_or (ai_data info) Deserialize) (\<lambda>data.
        if length data < 8 then Inl DiscriminatorMismatch
        else if take 8 data \<noteq> discriminator then Inl DiscriminatorMismatch
        else ok_or (try_deserialize data) Deserialize))"

definition derive_pda :: "(bytes list \<Rightarrow> pubkey \<Rightarrow> pubkey \<times> u8) \<Rightarrow> bytes list \<Rightarrow> pubkey \<Rightarrow> pubkey" where
  "derive_pda find_program_address seeds program_id = fst (find_program_address seeds program_id)"

section \<open>What the ed25519 precompile guarantees\<close>

text \<open>
  The runtime executes the precompile before any program: for every entry of an ed25519
  instruction it loads the signature, the key and the message from the instructions that the
  entry's indices name (the index 65535 names the instruction itself) and aborts the transaction
  unless the signature verifies.  \<open>verify\<close> stands for ed25519 itself.
\<close>

definition referenced_bytes ::
  "instructions_sysvar \<Rightarrow> Instruction \<Rightarrow> u16 \<Rightarrow> u16 \<Rightarrow> nat \<Rightarrow> bytes option" where
  "referenced_bytes sv self idx off n =
     (if unat idx = 65535 then slice (ix_data self) (unat off) n
      else case sv_load_at sv (unat idx) of
          None \<Rightarrow> None
        | Some ix \<Rightarrow> slice (ix_data ix) (unat off) n)"

definition precompile_entry :: "bytes \<Rightarrow> nat \<Rightarrow> Ed25519Offsets option" where
  "precompile_entry data k =
     parse_offsets (take ED25519_OFFSETS_HEADER data
       @ drop (ED25519_OFFSETS_HEADER + k * ED25519_OFFSETS_LEN) data)"

definition ed25519_precompile_ok :: "(pubkey \<Rightarrow> bytes \<Rightarrow> bytes \<Rightarrow> bool) \<Rightarrow> instructions_sysvar \<Rightarrow> bool" where
  "ed25519_precompile_ok verify sv \<longleftrightarrow>
     (\<forall>i ix k. sv_load_at sv i = Some ix \<and> ix_program_id ix = ED25519
        \<and> ix_data ix \<noteq> [] \<and> k < unat (ix_data ix ! 0) \<longrightarrow>
        (\<exists>offs sig pk msg. precompile_entry (ix_data ix) k = Some offs
           \<and> referenced_bytes sv ix (signature_instruction_index offs) (signature_offset offs) 64 = Some sig
           \<and> referenced_bytes sv ix (public_key_instruction_index offs) (public_key_offset offs) 32 = Some pk
           \<and> referenced_bytes sv ix (message_instruction_index offs) (message_data_offset offs)
               (unat (message_data_size offs)) = Some msg
           \<and> verify pk msg sig))"

section \<open>The contract of a bounded scan\<close>

locale ix_scan =
  fixes scan :: "nat \<Rightarrow> nat \<Rightarrow> 'e + unit"
    and load :: "nat \<Rightarrow> Instruction option"
    and hit :: "Instruction \<Rightarrow> bool"
    and miss :: 'e
  assumes scan_0: "scan 0 idx = Inl miss"
    and scan_Suc: "scan (Suc n) idx =
          (case load idx of
             Some ix \<Rightarrow> if hit ix then Inr () else scan n (Suc idx)
           | None \<Rightarrow> Inl miss)"
begin

lemma scan_miss: "scan n idx \<noteq> Inr () \<Longrightarrow> scan n idx = Inl miss"
  by (induction n arbitrary: idx) (auto simp: scan_0 scan_Suc split: option.splits if_splits)

text \<open>A scan succeeds exactly when an instruction in range hits and no load before it fails.\<close>

lemma scan_Inr_iff:
  "scan n idx = Inr () \<longleftrightarrow>
     (\<exists>j<n. (\<exists>ix. load (idx + j) = Some ix \<and> hit ix) \<and> (\<forall>k<j. load (idx + k) \<noteq> None))"
proof (induction n arbitrary: idx)
  case 0
  then show ?case by (simp add: scan_0)
next
  case (Suc n)
  have split_first: "(\<exists>j<Suc n. P j \<and> (\<forall>k<j. Q k)) \<longleftrightarrow>
      P 0 \<or> Q 0 \<and> (\<exists>j<n. P (Suc j) \<and> (\<forall>k<j. Q (Suc k)))" for P Q
    by (auto simp: Ex_less_Suc2 All_less_Suc2)
  show ?case
    by (subst split_first, subst scan_Suc)
       (auto simp: Suc.IH split: option.splits)
qed

lemma scan_no_hit: "(\<And>j ix. load j = Some ix \<Longrightarrow> \<not> hit ix) \<Longrightarrow> scan n idx = Inl miss"
  using scan_Inr_iff scan_miss by blast

end

interpretation memo: ix_scan "memo_scan sv nonce" "sv_load_at sv"
  "\<lambda>ix. ix_program_id ix = MEMO \<and> ix_data ix = nonce" MemoNotFound
  for sv nonce
  by unfold_locales simp_all

interpretation squads: ix_scan "squads_scan sv vault" "sv_load_at sv"
  "\<lambda>ix. ix_program_id ix = SQUADS_V4 \<and> writable_match vault ix" PrevIxNotFound
  for sv vault
  by unfold_locales (auto split: option.splits)

section \<open>Lemmas\<close>

lemma parse_offsets_Some_length: "parse_offsets data = Some offs \<Longrightarrow> 16 \<le> length data"
  by (simp add: parse_offsets_def split: if_splits)

lemma precompile_entry_0: "precompile_entry data 0 = parse_offsets data"
  by (simp add: precompile_entry_def)

lemma verify_prev_ed25519_Inr:
  assumes "verify_prev_ed25519 sv = Inr (pk, msg)"
  obtains cur ix offs where
    "sv_current_index sv = Some cur" "cur \<noteq> 0"
    "sv_load_at sv (unat (cur - 1)) = Some ix"
    "ix_program_id ix = ED25519" "ix_data ix \<noteq> []" "ix_data ix ! 0 = 1"
    "parse_offsets (ix_data ix) = Some offs"
    "signature_instruction_index offs = cur - 1"
    "public_key_instruction_index offs = cur - 1"
    "message_instruction_index offs = cur - 1"
    "slice (ix_data ix) (unat (public_key_offset offs)) 32 = Some pk"
    "slice (ix_data ix) (unat (message_data_offset offs)) (unat (message_data_size offs)) = Some msg"
  using assms that
  by (auto simp: verify_prev_ed25519_def Let_def result split: if_splits)

lemma unat_pred_u16: "(c :: u16) \<noteq> 0 \<Longrightarrow> unat (c - 1) = unat c - 1"
  by (rule unat_minus_one)

lemma pred_u16_not_max: "(c :: u16) \<noteq> 0 \<Longrightarrow> unat (c - 1) \<noteq> 65535"
proof -
  assume "c \<noteq> 0"
  then have "unat (c - 1) = unat c - 1" by (rule unat_pred_u16)
  moreover have "unat c < 65536" by (rule unat_u16_less)
  ultimately show ?thesis by linarith
qed

lemma require_memo_nonce_ok_iff:
  "require_memo_nonce sv nonce = Inr () \<longleftrightarrow>
     (\<exists>j<64. (\<exists>ix. sv_load_at sv j = Some ix \<and> ix_program_id ix = MEMO \<and> ix_data ix = nonce)
        \<and> (\<forall>k<j. sv_load_at sv k \<noteq> None))"
  using memo.scan_Inr_iff [of sv nonce 64 0] by (simp add: require_memo_nonce_def)

lemma require_squads_ok_iff:
  "require_squads_governance_cpi sv vault = Inr () \<longleftrightarrow>
     (\<exists>j<64. (\<exists>ix. sv_load_at sv j = Some ix \<and> ix_program_id ix = SQUADS_V4 \<and> writable_match vault ix)
        \<and> (\<forall>k<j. sv_load_at sv k \<noteq> None))"
  using squads.scan_Inr_iff [of sv vault 64 0] by (simp add: require_squads_governance_cpi_def)

text \<open>The bytes returned are the bytes the precompile verified.\<close>

lemma signed_message:
  assumes "ed25519_precompile_ok verify sv" and "verify_prev_ed25519 sv = Inr (pk, msg)"
  shows "length pk = 32 \<and> (\<exists>sig. verify pk msg sig)"
  using assms(2)
proof (rule verify_prev_ed25519_Inr)
  fix cur ix offs
  assume cur: "cur \<noteq> 0" and ld: "sv_load_at sv (unat (cur - 1)) = Some ix"
    and ix: "ix_program_id ix = ED25519" "ix_data ix \<noteq> []" "ix_data ix ! 0 = 1"
    and offs: "parse_offsets (ix_data ix) = Some offs"
      "public_key_instruction_index offs = cur - 1" "message_instruction_index offs = cur - 1"
    and pk: "slice (ix_data ix) (unat (public_key_offset offs)) 32 = Some pk"
    and msg: "slice (ix_data ix) (unat (message_data_offset offs)) (unat (message_data_size offs)) = Some msg"
  have "\<exists>offs' sig pk' msg'. precompile_entry (ix_data ix) 0 = Some offs'
      \<and> referenced_bytes sv ix (signature_instruction_index offs') (signature_offset offs') 64 = Some sig
      \<and> referenced_bytes sv ix (public_key_instruction_index offs') (public_key_offset offs') 32 = Some pk'
      \<and> referenced_bytes sv ix (message_instruction_index offs') (message_data_offset offs')
          (unat (message_data_size offs')) = Some msg' \<and> verify pk' msg' sig"
    by (rule assms(1) [unfolded ed25519_precompile_ok_def, rule_format, of "unat (cur - 1)"])
       (use ld ix in simp)
  then obtain sig pk' msg' where
    "referenced_bytes sv ix (public_key_instruction_index offs) (public_key_offset offs) 32 = Some pk'"
    "referenced_bytes sv ix (message_instruction_index offs) (message_data_offset offs)
       (unat (message_data_size offs)) = Some msg'" "verify pk' msg' sig"
    by (auto simp: precompile_entry_0 offs(1))
  with pk msg offs(2,3) ld pred_u16_not_max [OF cur] have "verify pk msg sig"
    by (simp add: referenced_bytes_def)
  moreover have "length pk = 32" using pk by (auto simp: result)
  ultimately show ?thesis by blast
qed

section \<open>Properties\<close>

text \<open>
  The key and message that \<open>verify_prev_ed25519\<close> returns carry a valid signature: whenever
  the precompile let the transaction through, the bytes handed to the caller are the very bytes
  the precompile verified.
\<close>

theorem verified_message_is_signed:
  assumes "ed25519_precompile_ok verify sv" and "verify_prev_ed25519 sv = Inr (pk, msg)"
  shows "length pk = 32 \<and> (\<exists>sig. verify pk msg sig)"
  using assms by (rule signed_message)

definition sample_ed25519_sysvar :: instructions_sysvar where
  "sample_ed25519_sysvar = \<lparr>sv_current_index = Some 1,
     sv_load_at = (\<lambda>i. if i = 0 then Some \<lparr>ix_program_id = ED25519, ix_accounts = [],
        ix_data = [1, 0, 16, 0, 0, 0, 80, 0, 0, 0, 112, 0, 3, 0, 0, 0] @ replicate 64 5 @ replicate 32 6 @ [7, 8, 9]\<rparr>
      else None)\<rparr>"

lemma sample_precompile_ok: "ed25519_precompile_ok (\<lambda>pk msg sig. msg = [7, 8, 9]) sample_ed25519_sysvar"
proof -
  let ?d = "[1, 0, 16, 0, 0, 0, 80, 0, 0, 0, 112, 0, 3, 0, 0, 0] @ replicate 64 5 @ replicate 32 6 @ [7, 8, 9] :: bytes"
  let ?ix = "\<lparr>ix_program_id = ED25519, ix_accounts = [], ix_data = ?d\<rparr>"
  let ?o = "\<lparr>signature_offset = 16, signature_instruction_index = 0, public_key_offset = 80,
      public_key_instruction_index = 0, message_data_offset = 112, message_data_size = 3,
      message_instruction_index = 0\<rparr> :: Ed25519Offsets"
  have "precompile_entry ?d 0 = Some ?o"
    "referenced_bytes sample_ed25519_sysvar ?ix 0 16 64 = Some (replicate 64 5)"
    "referenced_bytes sample_ed25519_sysvar ?ix 0 80 32 = Some (replicate 32 6)"
    "referenced_bytes sample_ed25519_sysvar ?ix 0 112 3 = Some [7, 8, 9]"
    by code_simp+
  then have "\<exists>offs sig pk msg. precompile_entry ?d 0 = Some offs
      \<and> referenced_bytes sample_ed25519_sysvar ?ix (signature_instruction_index offs) (signature_offset offs) 64 = Some sig
      \<and> referenced_bytes sample_ed25519_sysvar ?ix (public_key_instruction_index offs) (public_key_offset offs) 32 = Some pk
      \<and> referenced_bytes sample_ed25519_sysvar ?ix (message_instruction_index offs) (message_data_offset offs)
            (unat (message_data_size offs)) = Some msg \<and> msg = [7, 8, 9]"
    by (intro exI [of _ ?o]) simp
  then show ?thesis
    unfolding ed25519_precompile_ok_def
    by (auto simp: sample_ed25519_sysvar_def simp del: One_nat_def)
qed

lemma verified_message_is_signed_witness:
  "verify_prev_ed25519 sample_ed25519_sysvar = Inr (replicate 32 6, [7, 8, 9])
   \<and> length (replicate 32 (6 :: u8)) = 32 \<and> (\<exists>sig :: bytes. ([7, 8, 9] :: bytes) = [7, 8, 9])"
proof -
  have v: "verify_prev_ed25519 sample_ed25519_sysvar = Inr (replicate 32 6, [7, 8, 9])" by code_simp
  from verified_message_is_signed [OF sample_precompile_ok v] v show ?thesis by blast
qed

text \<open>
  The governance gate opens exactly when one of the first 64 top-level instructions is a
  Squads instruction that lists the vault as writable and every instruction before it loads; in
  every other case the answer is \<open>PrevIxNotFound\<close>.
\<close>

theorem squads_gate_exact:
  "require_squads_governance_cpi sv vault =
     (if \<exists>j<64. (\<exists>ix. sv_load_at sv j = Some ix \<and> ix_program_id ix = SQUADS_V4
               \<and> (\<exists>m\<in>set (ix_accounts ix). meta_pubkey m = vault \<and> meta_is_writable m))
            \<and> (\<forall>k<j. sv_load_at sv k \<noteq> None)
      then Inr () else Inl PrevIxNotFound)"
  using require_squads_ok_iff [of sv vault] squads.scan_miss [of sv vault 64 0]
  by (auto simp: require_squads_governance_cpi_def writable_match_def list_ex_iff)

lemma squads_gate_witness:
  "require_squads_governance_cpi \<lparr>sv_current_index = Some 0, sv_load_at = (\<lambda>i. if i = 0
       then Some \<lparr>ix_program_id = SQUADS_V4,
         ix_accounts = [\<lparr>meta_pubkey = MEMO, meta_is_signer = False, meta_is_writable = True\<rparr>], ix_data = []\<rparr>
       else None)\<rparr> MEMO = Inr ()"
  unfolding squads_gate_exact by (auto intro!: exI [of _ 0])

text \<open>
  The memo check passes exactly when one of the first 64 top-level instructions is a Memo
  instruction whose data are the expected nonce and every instruction before it loads; in every
  other case the answer is \<open>MemoNotFound\<close>.
\<close>

theorem memo_check_exact:
  "require_memo_nonce sv nonce =
     (if \<exists>j<64. (\<exists>ix. sv_load_at sv j = Some ix \<and> ix_program_id ix = MEMO \<and> ix_data ix = nonce)
            \<and> (\<forall>k<j. sv_load_at sv k \<noteq> None)
      then Inr () else Inl MemoNotFound)"
  using require_memo_nonce_ok_iff [of sv nonce] memo.scan_miss [of sv nonce 64 0]
  by (auto simp: require_memo_nonce_def)

lemma memo_check_witness:
  "require_memo_nonce \<lparr>sv_current_index = Some 0, sv_load_at = (\<lambda>i. if i = 0
       then Some \<lparr>ix_program_id = MEMO, ix_accounts = [], ix_data = [1, 2]\<rparr> else None)\<rparr> [1, 2] = Inr ()"
  unfolding memo_check_exact by (auto intro!: exI [of _ 0])

text \<open>
  A cross-program read returns a value exactly when the account has the expected owner and
  address, its data can be borrowed, start with the type's discriminator and deserialise to that
  value.
\<close>

theorem cross_program_read_exact:
  "read_cross_program_account disc deser info owner addr = Inr x \<longleftrightarrow>
     ai_owner info = owner \<and> ai_key info = addr
     \<and> (\<exists>data. ai_data info = Some data \<and> 8 \<le> length data \<and> take 8 data = disc \<and> deser data = Some x)"
  by (auto simp: read_cross_program_account_def result not_less split: if_splits)

end
