(* ===== verification/Registry_State.thy ===== *)
theory Registry_State
  imports Shared
begin

text \<open>
  The accounts, errors and events of \<^verbatim>\<open>credmesh-attestor-registry\<close>
  (\<^verbatim>\<open>state.rs\<close>, \<^verbatim>\<open>errors.rs\<close>, \<^verbatim>\<open>events.rs\<close>).
\<close>

record AttestorConfig =
  cfg_bump :: u8
  cfg_governance :: pubkey

record AllowedSigner =
  as_bump :: u8
  as_signer :: pubkey
  as_kind :: u8
  as_added_at :: i64

datatype AttestorRegistryError = RegistryGovernanceRequired | InvalidKind

datatype registry_event =
    AttestorRegistryInitialized pubkey
  | AllowedSignerAdded pubkey u8
  | AllowedSignerRemoved pubkey
  | GovernanceUpdated pubkey pubkey
      \<comment> \<open>old governance, new governance\<close>

end
