(* ===== verification/Runtime.thy ===== *)
theory Runtime
  imports Introspection Escrow_State Registry_State
begin

text \<open>
  The world the two programs run in.

  On chain, state is a map from addresses to accounts.  \<open>accounts\<close> holds the accounts that the
  two programs own; the constructor of \<open>account_data\<close> stands for the owner and the 8-byte
  discriminator that Anchor's \<open>Account<T>\<close> checks.  \<open>tokens\<close> holds the token accounts and mints
  of the SPL Token program.

  The Solana runtime, the SPL Token program and the PDA derivation are outside the repository.
  They enter as the record \<open>runtime\<close>, an argument of every instruction; what the programs rely
  on is stated by the predicates \<open>spl_token_laws\<close>, \<open>pda_find_law\<close> and \<open>pda_collision_free\<close>,
  which theorems take as hypotheses where they need them.  A transaction contributes its
  signers, the clock and the instructions sysvar.

  Rent (lamports paid for \<open>init\<close> and refunded by \<open>close\<close>) is not part of the model.
\<close>

section \<open>Tokens\<close>

record TokenAccount =
  ta_mint :: pubkey
  ta_owner :: pubkey
  ta_amount :: u64
  ta_frozen :: bool

record Mint =
  mint_decimals :: u8
  mint_supply :: u64
  mint_authority :: "pubkey option"

record token_state =
  tok_accounts :: "pubkey \<rightharpoonup> TokenAccount"
  tok_mints :: "pubkey \<rightharpoonup> Mint"

section \<open>Accounts\<close>

datatype account_data =
    PoolAccount Pool
  | AdvanceAccount Advance
  | ConsumedAccount ConsumedPayment
  | TombstoneAccount LiquidationTombstone
  | LedgerAccount AgentIssuanceLedger
  | ConfigAccount AttestorConfig
  | AllowedSignerAccount AllowedSigner

record world =
  accounts :: "pubkey \<rightharpoonup> account_data"
  tokens :: token_state

fun as_Pool :: "account_data \<Rightarrow> Pool option" where
  "as_Pool (PoolAccount p) = Some p"
| "as_Pool _ = None"

fun as_Advance :: "account_data \<Rightarrow> Advance option" where
  "as_Advance (AdvanceAccount a) = Some a"
| "as_Advance _ = None"

fun as_Consumed :: "account_data \<Rightarrow> ConsumedPayment option" where
  "as_Consumed (ConsumedAccount c) = Some c"
| "as_Consumed _ = None"

fun as_Ledger :: "account_data \<Rightarrow> AgentIssuanceLedger option" where
  "as_Ledger (LedgerAccount l) = Some l"
| "as_Ledger _ = None"

fun as_Config :: "account_data \<Rightarrow> AttestorConfig option" where
  "as_Config (ConfigAccount c) = Some c"
| "as_Config _ = None"

fun as_AllowedSigner :: "account_data \<Rightarrow> AllowedSigner option" where
  "as_AllowedSigner (AllowedSignerAccount s) = Some s"
| "as_AllowedSigner _ = None"

section \<open>The environment of an instruction\<close>

record runtime =
  find_program_address :: "bytes list \<Rightarrow> pubkey \<Rightarrow> pubkey \<times> u8"
  create_program_address :: "bytes list \<Rightarrow> pubkey \<Rightarrow> pubkey option"
  get_associated_token_address :: "pubkey \<Rightarrow> pubkey \<Rightarrow> pubkey"
  spl_transfer_checked ::
    "token_state \<Rightarrow> pubkey \<Rightarrow> pubkey \<Rightarrow> pubkey \<Rightarrow> pubkey \<Rightarrow> u64 \<Rightarrow> u8 \<Rightarrow> token_state option"
    \<comment> \<open>from, mint, to, authority, amount, decimals\<close>
  spl_mint_to :: "token_state \<Rightarrow> pubkey \<Rightarrow> pubkey \<Rightarrow> pubkey \<Rightarrow> u64 \<Rightarrow> token_state option"
    \<comment> \<open>mint, to, authority, amount\<close>
  spl_burn :: "token_state \<Rightarrow> pubkey \<Rightarrow> pubkey \<Rightarrow> pubkey \<Rightarrow> u64 \<Rightarrow> token_state option"
    \<comment> \<open>mint, from, authority, amount\<close>
  spl_init_mint :: "token_state \<Rightarrow> pubkey \<Rightarrow> u8 \<Rightarrow> pubkey \<Rightarrow> token_state option"
    \<comment> \<open>new mint, decimals, authority\<close>
  spl_init_account :: "token_state \<Rightarrow> pubkey \<Rightarrow> pubkey \<Rightarrow> pubkey \<Rightarrow> token_state option"
    \<comment> \<open>new account, mint, owner\<close>

record transaction =
  tx_signers :: "pubkey list"
  tx_now :: i64
  tx_sysvar :: instructions_sysvar

section \<open>Account constraints\<close>

text \<open>What the attributes of an Anchor \<open>Accounts\<close> struct demand of the accounts passed in.\<close>

definition load_account ::
  "(account_data \<Rightarrow> 'a option) \<Rightarrow> world \<Rightarrow> pubkey \<Rightarrow> 'c program_error + 'a" where
  "load_account sel w k = ok_or (Option.bind (accounts w k) sel) (Anchor AccountNotInitialized)"

definition load_token :: "token_state \<Rightarrow> pubkey \<Rightarrow> 'c program_error + TokenAccount" where
  "load_token ts k = ok_or (tok_accounts ts k) (Anchor AccountNotInitialized)"

definition load_mint :: "token_state \<Rightarrow> pubkey \<Rightarrow> 'c program_error + Mint" where
  "load_mint ts k = ok_or (tok_mints ts k) (Anchor AccountNotInitialized)"

definition check_signer :: "transaction \<Rightarrow> pubkey \<Rightarrow> 'c program_error + unit" where
  "check_signer tx k = require (k \<in> set (tx_signers tx)) (Anchor AccountNotSigner)"

definition check_address :: "pubkey \<Rightarrow> pubkey \<Rightarrow> 'c program_error + unit" where
  "check_address k expected = require (k = expected) (Anchor ConstraintAddress)"

text \<open>\<open>seeds = [...], bump = b\<close>: the address is the one these seeds and this bump create.\<close>

definition check_seeds ::
  "runtime \<Rightarrow> pubkey \<Rightarrow> bytes list \<Rightarrow> u8 \<Rightarrow> pubkey \<Rightarrow> 'c program_error + unit" where
  "check_seeds rt prog seeds bump k =
     require (create_program_address rt (seeds @ [[bump]]) prog = Some k) (Anchor ConstraintSeeds)"

text \<open>\<open>token::mint = m, token::authority = o\<close>.\<close>

definition check_token :: "TokenAccount \<Rightarrow> pubkey \<Rightarrow> pubkey \<Rightarrow> 'c program_error + unit" where
  "check_token ta m o' =
     and_then (require (ta_mint ta = m) (Anchor ConstraintTokenMint)) (\<lambda>_.
     require (ta_owner ta = o') (Anchor ConstraintTokenOwner))"

definition address_free :: "world \<Rightarrow> pubkey \<Rightarrow> bool" where
  "address_free w k \<longleftrightarrow>
     accounts w k = None \<and> tok_accounts (tokens w) k = None \<and> tok_mints (tokens w) k = None"

text \<open>\<open>init, seeds = [...], bump\<close>: the canonical address, not yet in use; the result is its bump.\<close>

definition init_pda ::
  "runtime \<Rightarrow> pubkey \<Rightarrow> bytes list \<Rightarrow> world \<Rightarrow> pubkey \<Rightarrow> 'c program_error + u8" where
  "init_pda rt prog seeds w k =
     and_then (require (fst (find_program_address rt seeds prog) = k) (Anchor ConstraintSeeds)) (\<lambda>_.
     and_then (require (address_free w k) (Anchor AccountAlreadyInUse)) (\<lambda>_.
     Inr (snd (find_program_address rt seeds prog))))"

section \<open>Calls to the token program\<close>

text \<open>
  The authority of a token instruction must have signed: as a signer of the transaction, or as a
  PDA of the escrow whose seeds the call passes.
\<close>

definition cpi_signed :: "runtime \<Rightarrow> transaction \<Rightarrow> bytes list list \<Rightarrow> pubkey \<Rightarrow> bool" where
  "cpi_signed rt tx seeds auth \<longleftrightarrow>
     auth \<in> set (tx_signers tx)
     \<or> list_ex (\<lambda>s. create_program_address rt s ESCROW = Some auth) seeds"

definition transfer_checked ::
  "runtime \<Rightarrow> transaction \<Rightarrow> bytes list list \<Rightarrow> token_state \<Rightarrow> pubkey \<Rightarrow> pubkey \<Rightarrow> pubkey \<Rightarrow> pubkey
     \<Rightarrow> u64 \<Rightarrow> u8 \<Rightarrow> 'c program_error + token_state" where
  "transfer_checked rt tx seeds ts from_key mint_key to_key auth amount decs =
     (if cpi_signed rt tx seeds auth
      then ok_or (spl_transfer_checked rt ts from_key mint_key to_key auth amount decs) CpiFailed
      else Inl CpiFailed)"

definition mint_to ::
  "runtime \<Rightarrow> transaction \<Rightarrow> bytes list list \<Rightarrow> token_state \<Rightarrow> pubkey \<Rightarrow> pubkey \<Rightarrow> pubkey
     \<Rightarrow> u64 \<Rightarrow> 'c program_error + token_state" where
  "mint_to rt tx seeds ts mint_key to_key auth amount =
     (if cpi_signed rt tx seeds auth
      then ok_or (spl_mint_to rt ts mint_key to_key auth amount) CpiFailed
      else Inl CpiFailed)"

definition burn ::
  "runtime \<Rightarrow> transaction \<Rightarrow> bytes list list \<Rightarrow> token_state \<Rightarrow> pubkey \<Rightarrow> pubkey \<Rightarrow> pubkey
     \<Rightarrow> u64 \<Rightarrow> 'c program_error + token_state" where
  "burn rt tx seeds ts mint_key from_key auth amount =
     (if cpi_signed rt tx seeds auth
      then ok_or (spl_burn rt ts mint_key from_key auth amount) CpiFailed
      else Inl CpiFailed)"

section \<open>What the programs rely on\<close>

text \<open>
  The documented effect of a successful token instruction.  \<open>moved\<close> is the token map after a
  transfer; a transfer of an account to itself changes nothing.
\<close>

definition moved ::
  "(pubkey \<rightharpoonup> TokenAccount) \<Rightarrow> pubkey \<Rightarrow> TokenAccount \<Rightarrow> pubkey \<Rightarrow> TokenAccount \<Rightarrow> u64
     \<Rightarrow> (pubkey \<rightharpoonup> TokenAccount)" where
  "moved m from_key fa to_key ta amount =
     (if from_key = to_key then m
      else m(from_key \<mapsto> fa\<lparr>ta_amount := ta_amount fa - amount\<rparr>,
             to_key \<mapsto> ta\<lparr>ta_amount := ta_amount ta + amount\<rparr>))"

definition spl_transfer_law :: "runtime \<Rightarrow> bool" where
  "spl_transfer_law rt \<longleftrightarrow>
     (\<forall>ts from_key mint_key to_key auth amount decs ts'.
        spl_transfer_checked rt ts from_key mint_key to_key auth amount decs = Some ts' \<longrightarrow>
        (\<exists>fa ta. tok_accounts ts from_key = Some fa \<and> tok_accounts ts to_key = Some ta
           \<and> ta_mint fa = mint_key \<and> ta_mint ta = mint_key
           \<and> unat amount \<le> unat (ta_amount fa)
           \<and> (from_key \<noteq> to_key \<longrightarrow> unat (ta_amount ta) + unat amount < 2 ^ 64)
           \<and> ts' = ts\<lparr>tok_accounts := moved (tok_accounts ts) from_key fa to_key ta amount\<rparr>))"

definition spl_mint_law :: "runtime \<Rightarrow> bool" where
  "spl_mint_law rt \<longleftrightarrow>
     (\<forall>ts mint_key to_key auth amount ts'.
        spl_mint_to rt ts mint_key to_key auth amount = Some ts' \<longrightarrow>
        (\<exists>m ta. tok_mints ts mint_key = Some m \<and> tok_accounts ts to_key = Some ta
           \<and> ta_mint ta = mint_key \<and> mint_authority m = Some auth
           \<and> unat (mint_supply m) + unat amount < 2 ^ 64
           \<and> unat (ta_amount ta) + unat amount < 2 ^ 64
           \<and> ts' = ts\<lparr>tok_accounts := (tok_accounts ts)(to_key \<mapsto> ta\<lparr>ta_amount := ta_amount ta + amount\<rparr>),
                      tok_mints := (tok_mints ts)(mint_key \<mapsto> m\<lparr>mint_supply := mint_supply m + amount\<rparr>)\<rparr>))"

definition spl_burn_law :: "runtime \<Rightarrow> bool" where
  "spl_burn_law rt \<longleftrightarrow>
     (\<forall>ts mint_key from_key auth amount ts'.
        spl_burn rt ts mint_key from_key auth amount = Some ts' \<longrightarrow>
        (\<exists>m fa. tok_mints ts mint_key = Some m \<and> tok_accounts ts from_key = Some fa
           \<and> ta_mint fa = mint_key
           \<and> unat amount \<le> unat (ta_amount fa) \<and> unat amount \<le> unat (mint_supply m)
           \<and> ts' = ts\<lparr>tok_accounts := (tok_accounts ts)(from_key \<mapsto> fa\<lparr>ta_amount := ta_amount fa - amount\<rparr>),
                      tok_mints := (tok_mints ts)(mint_key \<mapsto> m\<lparr>mint_supply := mint_supply m - amount\<rparr>)\<rparr>))"

definition spl_init_law :: "runtime \<Rightarrow> bool" where
  "spl_init_law rt \<longleftrightarrow>
     (\<forall>ts k decs auth ts'. spl_init_mint rt ts k decs auth = Some ts' \<longrightarrow>
        tok_mints ts k = None \<and> tok_accounts ts k = None
        \<and> ts' = ts\<lparr>tok_mints := (tok_mints ts)(k \<mapsto> \<lparr>mint_decimals = decs, mint_supply = 0, mint_authority = Some auth\<rparr>)\<rparr>)
     \<and> (\<forall>ts k m auth ts'. spl_init_account rt ts k m auth = Some ts' \<longrightarrow>
        tok_mints ts k = None \<and> tok_accounts ts k = None
        \<and> ts' = ts\<lparr>tok_accounts := (tok_accounts ts)(k \<mapsto>
            \<lparr>ta_mint = m, ta_owner = auth, ta_amount = 0, ta_frozen = False\<rparr>)\<rparr>)"

definition spl_token_laws :: "runtime \<Rightarrow> bool" where
  "spl_token_laws rt \<longleftrightarrow>
     spl_transfer_law rt \<and> spl_mint_law rt \<and> spl_burn_law rt \<and> spl_init_law rt"

text \<open>
  \<open>find_program_address\<close> returns an address together with the bump that creates it.  An address
  is a hash of the concatenated seeds and the program id, so two derivations of the same address
  have the same program and the same concatenation (collision resistance of the hash); nothing
  is said about how the concatenation splits into seeds.
\<close>

definition pda_find_law :: "runtime \<Rightarrow> bool" where
  "pda_find_law rt \<longleftrightarrow>
     (\<forall>seeds prog. create_program_address rt (seeds @ [[snd (find_program_address rt seeds prog)]]) prog
        = Some (fst (find_program_address rt seeds prog)))"

definition pda_collision_free :: "runtime \<Rightarrow> bool" where
  "pda_collision_free rt \<longleftrightarrow>
     (\<forall>seeds seeds' prog prog' k.
        create_program_address rt seeds prog = Some k \<and> create_program_address rt seeds' prog' = Some k
        \<longrightarrow> prog = prog' \<and> concat seeds = concat seeds')"

section \<open>Lemmas\<close>

lemma load_account_Inr [result]:
  "load_account sel w k = Inr x \<longleftrightarrow> (\<exists>d. accounts w k = Some d \<and> sel d = Some x)"
  by (auto simp: load_account_def result Option.bind_eq_Some_conv)

lemma as_account_Some [simp]:
  "as_Pool d = Some p \<longleftrightarrow> d = PoolAccount p"
  "as_Advance d = Some a \<longleftrightarrow> d = AdvanceAccount a"
  "as_Consumed d = Some c \<longleftrightarrow> d = ConsumedAccount c"
  "as_Ledger d = Some l \<longleftrightarrow> d = LedgerAccount l"
  "as_Config d = Some cf \<longleftrightarrow> d = ConfigAccount cf"
  "as_AllowedSigner d = Some s \<longleftrightarrow> d = AllowedSignerAccount s"
  by (cases d; simp)+

lemma load_token_Inr [result]: "load_token ts k = Inr x \<longleftrightarrow> tok_accounts ts k = Some x"
  by (simp add: load_token_def result)

lemma load_mint_Inr [result]: "load_mint ts k = Inr x \<longleftrightarrow> tok_mints ts k = Some x"
  by (simp add: load_mint_def result)

lemma check_Inr [result]:
  "check_signer tx k = Inr u \<longleftrightarrow> k \<in> set (tx_signers tx)"
  "check_address k k' = Inr u \<longleftrightarrow> k = k'"
  "check_seeds rt prog seeds bump k = Inr u \<longleftrightarrow>
     create_program_address rt (seeds @ [[bump]]) prog = Some k"
  "check_token ta m o' = Inr u \<longleftrightarrow> ta_mint ta = m \<and> ta_owner ta = o'"
  by (simp_all add: check_signer_def check_address_def check_seeds_def check_token_def result)

lemma init_pda_Inr [result]:
  "init_pda rt prog seeds w k = Inr b \<longleftrightarrow>
     find_program_address rt seeds prog = (k, b) \<and> address_free w k"
  by (cases "find_program_address rt seeds prog") (auto simp: init_pda_def result)

lemma transfer_checked_Inr:
  assumes law: "spl_token_laws rt"
    and ok: "transfer_checked rt tx seeds ts from_key mint_key to_key auth amount decs = Inr ts'"
  obtains fa ta where
    "cpi_signed rt tx seeds auth"
    "tok_accounts ts from_key = Some fa" "tok_accounts ts to_key = Some ta"
    "ta_mint fa = mint_key" "ta_mint ta = mint_key"
    "unat amount \<le> unat (ta_amount fa)"
    "from_key \<noteq> to_key \<longrightarrow> unat (ta_amount ta) + unat amount < 2 ^ 64"
    "ts' = ts\<lparr>tok_accounts := moved (tok_accounts ts) from_key fa to_key ta amount\<rparr>"
  using assms that
  by (fastforce simp: transfer_checked_def spl_token_laws_def spl_transfer_law_def result
      split: if_splits)

lemma mint_to_Inr:
  assumes law: "spl_token_laws rt"
    and ok: "mint_to rt tx seeds ts mint_key to_key auth amount = Inr ts'"
  obtains m ta where
    "cpi_signed rt tx seeds auth"
    "tok_mints ts mint_key = Some m" "tok_accounts ts to_key = Some ta"
    "ta_mint ta = mint_key" "mint_authority m = Some auth"
    "unat (mint_supply m) + unat amount < 2 ^ 64"
    "unat (ta_amount ta) + unat amount < 2 ^ 64"
    "ts' = ts\<lparr>tok_accounts := (tok_accounts ts)(to_key \<mapsto> ta\<lparr>ta_amount := ta_amount ta + amount\<rparr>),
              tok_mints := (tok_mints ts)(mint_key \<mapsto> m\<lparr>mint_supply := mint_supply m + amount\<rparr>)\<rparr>"
  using assms that
  by (fastforce simp: mint_to_def spl_token_laws_def spl_mint_law_def result split: if_splits)

lemma burn_Inr:
  assumes law: "spl_token_laws rt"
    and ok: "burn rt tx seeds ts mint_key from_key auth amount = Inr ts'"
  obtains m fa where
    "cpi_signed rt tx seeds auth"
    "tok_mints ts mint_key = Some m" "tok_accounts ts from_key = Some fa"
    "ta_mint fa = mint_key"
    "unat amount \<le> unat (ta_amount fa)" "unat amount \<le> unat (mint_supply m)"
    "ts' = ts\<lparr>tok_accounts := (tok_accounts ts)(from_key \<mapsto> fa\<lparr>ta_amount := ta_amount fa - amount\<rparr>),
              tok_mints := (tok_mints ts)(mint_key \<mapsto> m\<lparr>mint_supply := mint_supply m - amount\<rparr>)\<rparr>"
  using assms that
  by (fastforce simp: burn_def spl_token_laws_def spl_burn_law_def result split: if_splits)

lemma spl_init_mint_Some:
  assumes "spl_token_laws rt" and "spl_init_mint rt ts k decs auth = Some ts'"
  shows "tok_mints ts k = None" and "tok_accounts ts k = None"
    and "ts' = ts\<lparr>tok_mints := (tok_mints ts)(k \<mapsto> \<lparr>mint_decimals = decs, mint_supply = 0, mint_authority = Some auth\<rparr>)\<rparr>"
  using assms unfolding spl_token_laws_def spl_init_law_def by blast+

lemma spl_init_account_Some:
  assumes "spl_token_laws rt" and "spl_init_account rt ts k m auth = Some ts'"
  shows "tok_mints ts k = None" and "tok_accounts ts k = None"
    and "ts' = ts\<lparr>tok_accounts := (tok_accounts ts)(k \<mapsto>
            \<lparr>ta_mint = m, ta_owner = auth, ta_amount = 0, ta_frozen = False\<rparr>)\<rparr>"
  using assms unfolding spl_token_laws_def spl_init_law_def by blast+

section \<open>Effects on balances\<close>

text \<open>
  Client proofs see a token instruction only through balances and through \<open>keeps_tokens\<close>: no
  account disappears or changes its mint or owner, no mint changes its authority.
\<close>

definition balance :: "token_state \<Rightarrow> pubkey \<Rightarrow> nat" where
  "balance ts k = (case tok_accounts ts k of None \<Rightarrow> 0 | Some ta \<Rightarrow> unat (ta_amount ta))"

definition supply_of :: "token_state \<Rightarrow> pubkey \<Rightarrow> nat" where
  "supply_of ts k = (case tok_mints ts k of None \<Rightarrow> 0 | Some m \<Rightarrow> unat (mint_supply m))"

definition keeps_tokens :: "token_state \<Rightarrow> token_state \<Rightarrow> bool" where
  "keeps_tokens ts ts' \<longleftrightarrow>
     (\<forall>k ta. tok_accounts ts k = Some ta \<longrightarrow>
        (\<exists>ta'. tok_accounts ts' k = Some ta' \<and> ta_mint ta' = ta_mint ta \<and> ta_owner ta' = ta_owner ta))
     \<and> (\<forall>k m. tok_mints ts k = Some m \<longrightarrow>
        (\<exists>m'. tok_mints ts' k = Some m' \<and> mint_authority m' = mint_authority m))"

lemma keeps_tokens_refl [simp]: "keeps_tokens ts ts"
  by (simp add: keeps_tokens_def)

lemma keeps_tokens_trans: "keeps_tokens a b \<Longrightarrow> keeps_tokens b c \<Longrightarrow> keeps_tokens a c"
  unfolding keeps_tokens_def by (metis (no_types, lifting))

lemma balance_Some: "tok_accounts ts k = Some ta \<Longrightarrow> balance ts k = unat (ta_amount ta)"
  by (simp add: balance_def)

lemma keeps_tokens_accountE:
  assumes "keeps_tokens ts ts'" and "tok_accounts ts k = Some ta"
  obtains ta' where "tok_accounts ts' k = Some ta'" "ta_mint ta' = ta_mint ta" "ta_owner ta' = ta_owner ta"
  using assms that unfolding keeps_tokens_def by blast

lemma transfer_effect:
  assumes law: "spl_token_laws rt"
    and ok: "transfer_checked rt tx seeds ts from_key mint_key to_key auth amount decs = Inr ts'"
  shows "keeps_tokens ts ts'"
    and "tok_mints ts' = tok_mints ts"
    and "unat amount \<le> balance ts from_key"
    and "balance ts' v + (if v = from_key then unat amount else 0)
           = balance ts v + (if v = to_key then unat amount else 0)"
proof -
  from law ok obtain fa ta where
    fa: "tok_accounts ts from_key = Some fa" and ta: "tok_accounts ts to_key = Some ta"
    and le: "unat amount \<le> unat (ta_amount fa)"
    and lt: "from_key \<noteq> to_key \<longrightarrow> unat (ta_amount ta) + unat amount < 2 ^ 64"
    and ts': "ts' = ts\<lparr>tok_accounts := moved (tok_accounts ts) from_key fa to_key ta amount\<rparr>"
    by (rule transfer_checked_Inr)
  have sub: "unat (ta_amount fa - amount) = unat (ta_amount fa) - unat amount"
    using le by (simp add: unat_sub word_le_nat_alt)
  have add: "from_key \<noteq> to_key \<Longrightarrow> unat (ta_amount ta + amount) = unat (ta_amount ta) + unat amount"
    using lt by (simp add: unat_word_ariths)
  show "keeps_tokens ts ts'" using fa ta by (auto simp: keeps_tokens_def ts' moved_def)
  show "tok_mints ts' = tok_mints ts" by (simp add: ts')
  show "unat amount \<le> balance ts from_key" using fa le by (simp add: balance_Some)
  show "balance ts' v + (if v = from_key then unat amount else 0)
      = balance ts v + (if v = to_key then unat amount else 0)"
    using fa ta le sub add by (auto simp: balance_def ts' moved_def)
qed

lemma mint_effect:
  assumes law: "spl_token_laws rt"
    and ok: "mint_to rt tx seeds ts mint_key to_key auth amount = Inr ts'"
  shows "keeps_tokens ts ts'"
    and "balance ts' v = balance ts v + (if v = to_key then unat amount else 0)"
    and "supply_of ts' m = supply_of ts m + (if m = mint_key then unat amount else 0)"
proof -
  from law ok obtain m0 ta where
    m0: "tok_mints ts mint_key = Some m0" and ta: "tok_accounts ts to_key = Some ta"
    and lt: "unat (mint_supply m0) + unat amount < 2 ^ 64" "unat (ta_amount ta) + unat amount < 2 ^ 64"
    and ts': "ts' = ts\<lparr>tok_accounts := (tok_accounts ts)(to_key \<mapsto> ta\<lparr>ta_amount := ta_amount ta + amount\<rparr>),
      tok_mints := (tok_mints ts)(mint_key \<mapsto> m0\<lparr>mint_supply := mint_supply m0 + amount\<rparr>)\<rparr>"
    by (rule mint_to_Inr)
  have add: "unat (ta_amount ta + amount) = unat (ta_amount ta) + unat amount"
    "unat (mint_supply m0 + amount) = unat (mint_supply m0) + unat amount"
    using lt by (simp_all add: unat_word_ariths)
  show "keeps_tokens ts ts'" using m0 ta by (auto simp: keeps_tokens_def ts')
  show "balance ts' v = balance ts v + (if v = to_key then unat amount else 0)"
    using ta add by (auto simp: balance_def ts')
  show "supply_of ts' m = supply_of ts m + (if m = mint_key then unat amount else 0)"
    using m0 add by (auto simp: supply_of_def ts')
qed

lemma burn_effect:
  assumes law: "spl_token_laws rt"
    and ok: "burn rt tx seeds ts mint_key from_key auth amount = Inr ts'"
  shows "keeps_tokens ts ts'"
    and "balance ts' v + (if v = from_key then unat amount else 0) = balance ts v"
    and "supply_of ts' m + (if m = mint_key then unat amount else 0) = supply_of ts m"
proof -
  from law ok obtain m0 fa where
    m0: "tok_mints ts mint_key = Some m0" and fa: "tok_accounts ts from_key = Some fa"
    and le: "unat amount \<le> unat (ta_amount fa)" "unat amount \<le> unat (mint_supply m0)"
    and ts': "ts' = ts\<lparr>tok_accounts := (tok_accounts ts)(from_key \<mapsto> fa\<lparr>ta_amount := ta_amount fa - amount\<rparr>),
      tok_mints := (tok_mints ts)(mint_key \<mapsto> m0\<lparr>mint_supply := mint_supply m0 - amount\<rparr>)\<rparr>"
    by (rule burn_Inr)
  have sub: "unat (ta_amount fa - amount) = unat (ta_amount fa) - unat amount"
    "unat (mint_supply m0 - amount) = unat (mint_supply m0) - unat amount"
    using le by (simp_all add: unat_sub word_le_nat_alt)
  show "keeps_tokens ts ts'" using m0 fa by (auto simp: keeps_tokens_def ts')
  show "balance ts' v + (if v = from_key then unat amount else 0) = balance ts v"
    using fa le sub by (auto simp: balance_def ts')
  show "supply_of ts' m + (if m = mint_key then unat amount else 0) = supply_of ts m"
    using m0 le sub by (auto simp: supply_of_def ts')
qed

lemma init_account_effect:
  assumes "spl_token_laws rt" and "spl_init_account rt ts k m auth = Some ts'"
  shows "keeps_tokens ts ts'" and "balance ts' v = balance ts v"
    and "tok_mints ts' = tok_mints ts"
    and "tok_accounts ts' k = Some \<lparr>ta_mint = m, ta_owner = auth, ta_amount = 0, ta_frozen = False\<rparr>"
  using spl_init_account_Some [OF assms] by (auto simp: keeps_tokens_def balance_def)

lemma init_mint_effect:
  assumes "spl_token_laws rt" and "spl_init_mint rt ts k decs auth = Some ts'"
  shows "keeps_tokens ts ts'" and "tok_accounts ts' = tok_accounts ts"
    and "tok_mints ts' k = Some \<lparr>mint_decimals = decs, mint_supply = 0, mint_authority = Some auth\<rparr>"
  using spl_init_mint_Some [OF assms] by (auto simp: keeps_tokens_def)

end
