(* ===== verification/Liquidity.thy ===== *)
theory Liquidity
  imports Pricing Runtime
begin

text \<open>
  The liquidity side of the escrow: \<^verbatim>\<open>init_pool\<close>, \<^verbatim>\<open>deposit\<close>, \<^verbatim>\<open>withdraw\<close> and
  \<^verbatim>\<open>skim_protocol_fees\<close>.  Each instruction is its account validation (\<open>..._accounts\<close>, from the
  \<open>Accounts\<close> struct) followed by its handler; an error leaves the world as it was, since a
  failed transaction is rolled back.
\<close>

section \<open>\<open>init_pool\<close>\<close>

record InitPoolParams =
  ipp_fee_curve :: FeeCurve
  ipp_max_advance_pct_bps :: u16
  ipp_max_advance_abs :: u64
  ipp_timelock_seconds :: i64
  ipp_governance :: pubkey
  ipp_treasury_ata :: pubkey
  ipp_chain_id :: u64
  ipp_agent_window_cap :: u64

record InitPool =
  ip_deployer :: pubkey
  ip_pool :: pubkey
  ip_asset_mint :: pubkey
  ip_share_mint :: pubkey
  ip_usdc_vault :: pubkey

definition InitPool_accounts :: "runtime \<Rightarrow> transaction \<Rightarrow> InitPool \<Rightarrow> world \<Rightarrow> escrow_error + u8 \<times> token_state" where
  "InitPool_accounts rt tx a w =
     and_then (check_signer tx (ip_deployer a)) (\<lambda>_.
     and_then (init_pda rt ESCROW [POOL_SEED, ip_asset_mint a] w (ip_pool a)) (\<lambda>bump.
     and_then (load_mint (tokens w) (ip_asset_mint a)) (\<lambda>_.
     and_then (check_signer tx (ip_share_mint a)) (\<lambda>_.
     and_then (require (address_free w (ip_share_mint a) \<and> ip_share_mint a \<noteq> ip_pool a)
       (Anchor AccountAlreadyInUse)) (\<lambda>_.
     and_then (ok_or (spl_init_mint rt (tokens w) (ip_share_mint a) 6 (ip_pool a)) CpiFailed) (\<lambda>ts1.
     and_then (check_signer tx (ip_usdc_vault a)) (\<lambda>_.
     and_then (require (address_free w (ip_usdc_vault a) \<and> ip_usdc_vault a \<noteq> ip_pool a)
       (Anchor AccountAlreadyInUse)) (\<lambda>_.
     and_then (ok_or (spl_init_account rt ts1 (ip_usdc_vault a) (ip_asset_mint a) (ip_pool a)) CpiFailed) (\<lambda>ts2.
     Inr (bump, ts2))))))))))"

definition init_pool_handler ::
  "InitPool \<Rightarrow> u8 \<Rightarrow> InitPoolParams \<Rightarrow> world \<Rightarrow> escrow_error + world \<times> escrow_event" where
  "init_pool_handler a bump params w =
     and_then (require (as_u64 (ipp_max_advance_pct_bps params) \<le> BPS_DENOMINATOR) (Custom AdvanceExceedsCap)) (\<lambda>_.
     and_then (require (0 \<le> sint (ipp_timelock_seconds params)) (Custom MathOverflow)) (\<lambda>_.
     and_then (require (ipp_chain_id params = CHAIN_ID_MAINNET \<or> ipp_chain_id params = CHAIN_ID_DEVNET)
       (Custom InvalidChainId)) (\<lambda>_.
     and_then (FeeCurve_validate (ipp_fee_curve params)) (\<lambda>_.
     let pool = \<lparr>
           pool_bump = bump,
           pool_asset_mint = ip_asset_mint a,
           pool_usdc_vault = ip_usdc_vault a,
           pool_share_mint = ip_share_mint a,
           pool_treasury_ata = ipp_treasury_ata params,
           pool_governance = ipp_governance params,
           total_assets = 0,
           total_shares = 0,
           deployed_amount = 0,
           accrued_protocol_fees = 0,
           fee_curve = ipp_fee_curve params,
           max_advance_pct_bps = ipp_max_advance_pct_bps params,
           max_advance_abs = ipp_max_advance_abs params,
           agent_window_cap = ipp_agent_window_cap params,
           timelock_seconds = ipp_timelock_seconds params,
           pool_chain_id = ipp_chain_id params,
           pending_params = None \<rparr>
     in Inr (w\<lparr>accounts := (accounts w)(ip_pool a \<mapsto> PoolAccount pool)\<rparr>,
             PoolInitialized (ip_pool a) (ip_asset_mint a) (ip_share_mint a) (ipp_governance params))))))"

definition init_pool ::
  "runtime \<Rightarrow> transaction \<Rightarrow> InitPool \<Rightarrow> InitPoolParams \<Rightarrow> world \<Rightarrow> escrow_error + world \<times> escrow_event" where
  "init_pool rt tx a params w =
     and_then (InitPool_accounts rt tx a w) (\<lambda>(bump, ts).
     init_pool_handler a bump params (w\<lparr>tokens := ts\<rparr>))"

section \<open>\<open>deposit\<close>\<close>

text \<open>The pool constraint shared by every other instruction: a pool at its own PDA.\<close>

definition load_pool :: "runtime \<Rightarrow> world \<Rightarrow> pubkey \<Rightarrow> escrow_error + Pool" where
  "load_pool rt w k =
     and_then (load_account as_Pool w k) (\<lambda>pool.
     and_then (check_seeds rt ESCROW [POOL_SEED, pool_asset_mint pool] (pool_bump pool) k) (\<lambda>_.
     Inr pool))"

text \<open>\<open>Deposit\<close> and \<open>Withdraw\<close> declare the same accounts with the same constraints.\<close>

record Deposit =
  lp :: pubkey
  lp_pool :: pubkey
  lp_usdc_vault :: pubkey
  lp_usdc_ata :: pubkey
  lp_share_mint :: pubkey
  lp_share_ata :: pubkey
  lp_usdc_mint :: pubkey

type_synonym Withdraw = Deposit

definition Deposit_accounts ::
  "runtime \<Rightarrow> transaction \<Rightarrow> Deposit \<Rightarrow> world \<Rightarrow> escrow_error + Pool \<times> TokenAccount \<times> Mint" where
  "Deposit_accounts rt tx a w =
     and_then (check_signer tx (lp a)) (\<lambda>_.
     and_then (load_pool rt w (lp_pool a)) (\<lambda>pool.
     and_then (check_address (lp_usdc_vault a) (pool_usdc_vault pool)) (\<lambda>_.
     and_then (load_token (tokens w) (lp_usdc_vault a)) (\<lambda>vault.
     and_then (load_token (tokens w) (lp_usdc_ata a)) (\<lambda>usdc_ata.
     and_then (check_token usdc_ata (pool_asset_mint pool) (lp a)) (\<lambda>_.
     and_then (check_address (lp_share_mint a) (pool_share_mint pool)) (\<lambda>_.
     and_then (load_mint (tokens w) (lp_share_mint a)) (\<lambda>_.
     and_then (load_token (tokens w) (lp_share_ata a)) (\<lambda>share_ata.
     and_then (check_token share_ata (pool_share_mint pool) (lp a)) (\<lambda>_.
     and_then (check_address (lp_usdc_mint a) (pool_asset_mint pool)) (\<lambda>_.
     and_then (load_mint (tokens w) (lp_usdc_mint a)) (\<lambda>usdc_mint.
     Inr (pool, vault, usdc_mint)))))))))))))"

definition Withdraw_accounts ::
  "runtime \<Rightarrow> transaction \<Rightarrow> Withdraw \<Rightarrow> world \<Rightarrow> escrow_error + Pool \<times> TokenAccount \<times> Mint" where
  "Withdraw_accounts rt tx a w = Deposit_accounts rt tx a w"

definition deposit_handler ::
  "runtime \<Rightarrow> transaction \<Rightarrow> Deposit \<Rightarrow> Pool \<Rightarrow> Mint \<Rightarrow> u64 \<Rightarrow> world \<Rightarrow> escrow_error + world \<times> escrow_event" where
  "deposit_handler rt tx a pool usdc_mint amount w =
     and_then (require (0 < amount) (Custom MathOverflow)) (\<lambda>_.
     and_then (preview_deposit amount (total_assets pool) (total_shares pool)) (\<lambda>shares_to_mint.
     and_then (require (0 < shares_to_mint) (Custom MathOverflow)) (\<lambda>_.
     and_then (transfer_checked rt tx [] (tokens w) (lp_usdc_ata a) (lp_usdc_mint a) (lp_usdc_vault a)
       (lp a) amount (mint_decimals usdc_mint)) (\<lambda>ts1.
     and_then (mint_to rt tx [signer_seeds pool (pool_bump pool)] ts1 (lp_share_mint a) (lp_share_ata a)
       (lp_pool a) shares_to_mint) (\<lambda>ts2.
     and_then (checked_or_overflow (checked_add (total_assets pool) amount)) (\<lambda>assets'.
     and_then (checked_or_overflow (checked_add (total_shares pool) shares_to_mint)) (\<lambda>shares'.
     Inr (\<lparr>accounts = (accounts w)(lp_pool a \<mapsto>
              PoolAccount (pool\<lparr>total_assets := assets', total_shares := shares'\<rparr>)),
            tokens = ts2\<rparr>,
          Deposited (lp_pool a) (lp a) amount shares_to_mint))))))))"

definition deposit ::
  "runtime \<Rightarrow> transaction \<Rightarrow> Deposit \<Rightarrow> u64 \<Rightarrow> world \<Rightarrow> escrow_error + world \<times> escrow_event" where
  "deposit rt tx a amount w =
     and_then (Deposit_accounts rt tx a w) (\<lambda>(pool, vault, usdc_mint).
     deposit_handler rt tx a pool usdc_mint amount w)"

section \<open>\<open>withdraw\<close>\<close>

definition withdraw_handler ::
  "runtime \<Rightarrow> transaction \<Rightarrow> Withdraw \<Rightarrow> Pool \<Rightarrow> TokenAccount \<Rightarrow> Mint \<Rightarrow> u64 \<Rightarrow> world
     \<Rightarrow> escrow_error + world \<times> escrow_event" where
  "withdraw_handler rt tx a pool vault usdc_mint shares w =
     and_then (require (0 < shares) (Custom MathOverflow)) (\<lambda>_.
     and_then (preview_redeem shares (total_assets pool) (total_shares pool)) (\<lambda>assets_to_return.
     and_then (require (0 < assets_to_return) (Custom MathOverflow)) (\<lambda>_.
     and_then (require (assets_to_return \<le> ta_amount vault) (Custom InsufficientIdleLiquidity)) (\<lambda>_.
     and_then (burn rt tx [] (tokens w) (lp_share_mint a) (lp_share_ata a) (lp a) shares) (\<lambda>ts1.
     and_then (transfer_checked rt tx [signer_seeds pool (pool_bump pool)] ts1 (lp_usdc_vault a)
       (lp_usdc_mint a) (lp_usdc_ata a) (lp_pool a) assets_to_return (mint_decimals usdc_mint)) (\<lambda>ts2.
     and_then (checked_or_overflow (checked_sub (total_assets pool) assets_to_return)) (\<lambda>assets'.
     and_then (checked_or_overflow (checked_sub (total_shares pool) shares)) (\<lambda>shares'.
     Inr (\<lparr>accounts = (accounts w)(lp_pool a \<mapsto>
              PoolAccount (pool\<lparr>total_assets := assets', total_shares := shares'\<rparr>)),
            tokens = ts2\<rparr>,
          Withdrew (lp_pool a) (lp a) shares assets_to_return)))))))))"

definition withdraw ::
  "runtime \<Rightarrow> transaction \<Rightarrow> Withdraw \<Rightarrow> u64 \<Rightarrow> world \<Rightarrow> escrow_error + world \<times> escrow_event" where
  "withdraw rt tx a shares w =
     and_then (Withdraw_accounts rt tx a w) (\<lambda>(pool, vault, usdc_mint).
     withdraw_handler rt tx a pool vault usdc_mint shares w)"

section \<open>\<open>skim_protocol_fees\<close>\<close>

record SkimProtocolFees =
  sk_cranker :: pubkey
  sk_governance :: pubkey
  sk_pool :: pubkey
  sk_pool_usdc_vault :: pubkey
  sk_recipient_ata :: pubkey
  sk_usdc_mint :: pubkey

definition SkimProtocolFees_accounts ::
  "runtime \<Rightarrow> transaction \<Rightarrow> SkimProtocolFees \<Rightarrow> world \<Rightarrow> escrow_error + Pool \<times> Mint" where
  "SkimProtocolFees_accounts rt tx a w =
     and_then (check_signer tx (sk_cranker a)) (\<lambda>_.
     and_then (load_pool rt w (sk_pool a)) (\<lambda>pool.
     and_then (require (sk_governance a = pool_governance pool) (Custom GovernanceRequired)) (\<lambda>_.
     and_then (check_address (sk_pool_usdc_vault a) (pool_usdc_vault pool)) (\<lambda>_.
     and_then (load_token (tokens w) (sk_pool_usdc_vault a)) (\<lambda>_.
     and_then (check_address (sk_recipient_ata a) (pool_treasury_ata pool)) (\<lambda>_.
     and_then (load_token (tokens w) (sk_recipient_ata a)) (\<lambda>_.
     and_then (check_address (sk_usdc_mint a) (pool_asset_mint pool)) (\<lambda>_.
     and_then (load_mint (tokens w) (sk_usdc_mint a)) (\<lambda>usdc_mint.
     Inr (pool, usdc_mint))))))))))"

definition skim_protocol_fees_handler ::
  "runtime \<Rightarrow> transaction \<Rightarrow> SkimProtocolFees \<Rightarrow> Pool \<Rightarrow> Mint \<Rightarrow> u64 \<Rightarrow> world
     \<Rightarrow> escrow_error + world \<times> escrow_event" where
  "skim_protocol_fees_handler rt tx a pool usdc_mint amount w =
     and_then (map_err (\<lambda>_. Custom GovernanceRequired)
       (require_squads_governance_cpi (tx_sysvar tx) (pool_governance pool))) (\<lambda>_.
     and_then (require (0 < amount) (Custom MathOverflow)) (\<lambda>_.
     and_then (require (amount \<le> accrued_protocol_fees pool) (Custom MathOverflow)) (\<lambda>_.
     and_then (transfer_checked rt tx [signer_seeds pool (pool_bump pool)] (tokens w) (sk_pool_usdc_vault a)
       (sk_usdc_mint a) (sk_recipient_ata a) (sk_pool a) amount (mint_decimals usdc_mint)) (\<lambda>ts1.
     and_then (checked_or_overflow (checked_sub (accrued_protocol_fees pool) amount)) (\<lambda>fees'.
     Inr (\<lparr>accounts = (accounts w)(sk_pool a \<mapsto> PoolAccount (pool\<lparr>accrued_protocol_fees := fees'\<rparr>)),
            tokens = ts1\<rparr>,
          ProtocolFeesSkimmed (sk_pool a) amount (sk_recipient_ata a)))))))"

definition skim_protocol_fees ::
  "runtime \<Rightarrow> transaction \<Rightarrow> SkimProtocolFees \<Rightarrow> u64 \<Rightarrow> world \<Rightarrow> escrow_error + world \<times> escrow_event" where
  "skim_protocol_fees rt tx a amount w =
     and_then (SkimProtocolFees_accounts rt tx a w) (\<lambda>(pool, usdc_mint).
     skim_protocol_fees_handler rt tx a pool usdc_mint amount w)"

section \<open>What a successful instruction did\<close>

lemma load_pool_Inr [result]:
  "load_pool rt w k = Inr pool \<longleftrightarrow>
     accounts w k = Some (PoolAccount pool)
     \<and> create_program_address rt [POOL_SEED, pool_asset_mint pool, [pool_bump pool]] ESCROW = Some k"
  by (auto simp: load_pool_def result)

lemma init_pool_Inr:
  assumes "init_pool rt tx a params w = Inr (w', ev)"
  obtains bump ts1 ts2 pool where
    "find_program_address rt [POOL_SEED, ip_asset_mint a] ESCROW = (ip_pool a, bump)"
    "address_free w (ip_pool a)" "address_free w (ip_share_mint a)" "address_free w (ip_usdc_vault a)"
    "tok_mints (tokens w) (ip_asset_mint a) \<noteq> None"
    "spl_init_mint rt (tokens w) (ip_share_mint a) 6 (ip_pool a) = Some ts1"
    "spl_init_account rt ts1 (ip_usdc_vault a) (ip_asset_mint a) (ip_pool a) = Some ts2"
    "valid_curve (ipp_fee_curve params)" "0 \<le> sint (ipp_timelock_seconds params)"
    "ipp_chain_id params \<in> {CHAIN_ID_MAINNET, CHAIN_ID_DEVNET}"
    "pool = \<lparr> pool_bump = bump, pool_asset_mint = ip_asset_mint a, pool_usdc_vault = ip_usdc_vault a,
       pool_share_mint = ip_share_mint a, pool_treasury_ata = ipp_treasury_ata params,
       pool_governance = ipp_governance params, total_assets = 0, total_shares = 0,
       deployed_amount = 0, accrued_protocol_fees = 0, fee_curve = ipp_fee_curve params,
       max_advance_pct_bps = ipp_max_advance_pct_bps params,
       max_advance_abs = ipp_max_advance_abs params, agent_window_cap = ipp_agent_window_cap params,
       timelock_seconds = ipp_timelock_seconds params, pool_chain_id = ipp_chain_id params,
       pending_params = None \<rparr>"
    "w' = \<lparr>accounts = (accounts w)(ip_pool a \<mapsto> PoolAccount pool), tokens = ts2\<rparr>"
proof -
  from assms obtain bump ts1 ts2 where
    1: "find_program_address rt [POOL_SEED, ip_asset_mint a] ESCROW = (ip_pool a, bump)"
      "address_free w (ip_pool a)" "address_free w (ip_share_mint a)" "address_free w (ip_usdc_vault a)"
      "tok_mints (tokens w) (ip_asset_mint a) \<noteq> None"
      "spl_init_mint rt (tokens w) (ip_share_mint a) 6 (ip_pool a) = Some ts1"
      "spl_init_account rt ts1 (ip_usdc_vault a) (ip_asset_mint a) (ip_pool a) = Some ts2"
    and h: "init_pool_handler a bump params (w\<lparr>tokens := ts2\<rparr>) = Inr (w', ev)"
    by (auto simp: init_pool_def InitPool_accounts_def result)
  have "valid_curve (ipp_fee_curve params)"
    using h by (auto simp: init_pool_handler_def result FeeCurve_validate_ok_iff)
  with 1 h show ?thesis
    by (intro that) (auto simp: init_pool_handler_def result Let_def)
qed

lemma Deposit_accounts_Inr:
  assumes "Deposit_accounts rt tx a w = Inr (pool, vault, m)"
  shows "lp a \<in> set (tx_signers tx)"
    and "accounts w (lp_pool a) = Some (PoolAccount pool)"
    and "create_program_address rt [POOL_SEED, pool_asset_mint pool, [pool_bump pool]] ESCROW = Some (lp_pool a)"
    and "lp_usdc_vault a = pool_usdc_vault pool"
    and "tok_accounts (tokens w) (pool_usdc_vault pool) = Some vault"
    and "lp_share_mint a = pool_share_mint pool" and "lp_usdc_mint a = pool_asset_mint pool"
    and "\<exists>ta. tok_accounts (tokens w) (lp_usdc_ata a) = Some ta \<and> ta_owner ta = lp a"
    and "\<exists>ta. tok_accounts (tokens w) (lp_share_ata a) = Some ta \<and> ta_owner ta = lp a
           \<and> ta_mint ta = pool_share_mint pool"
  using assms by (auto simp: Deposit_accounts_def result)

lemma deposit_Inr:
  assumes "deposit rt tx a amount w = Inr (w', ev)"
  obtains pool vault m s ts1 A' S' where
    "Deposit_accounts rt tx a w = Inr (pool, vault, m)"
    "0 < amount" "preview_deposit amount (total_assets pool) (total_shares pool) = Inr s" "0 < s"
    "transfer_checked rt tx [] (tokens w) (lp_usdc_ata a) (lp_usdc_mint a) (lp_usdc_vault a)
       (lp a) amount (mint_decimals m) = (Inr ts1 :: escrow_error + token_state)"
    "mint_to rt tx [signer_seeds pool (pool_bump pool)] ts1 (lp_share_mint a) (lp_share_ata a)
       (lp_pool a) s = (Inr (tokens w') :: escrow_error + token_state)"
    "unat A' = unat (total_assets pool) + unat amount"
    "unat S' = unat (total_shares pool) + unat s"
    "accounts w' = (accounts w)(lp_pool a \<mapsto>
       PoolAccount (pool\<lparr>total_assets := A', total_shares := S'\<rparr>))"
    "ev = Deposited (lp_pool a) (lp a) amount s"
  using assms that
  by (auto simp: deposit_def deposit_handler_def result checked)

lemma withdraw_Inr:
  assumes "withdraw rt tx a shares w = Inr (w', ev)"
  obtains pool vault m r ts1 A' S' where
    "Deposit_accounts rt tx a w = Inr (pool, vault, m)"
    "0 < shares" "preview_redeem shares (total_assets pool) (total_shares pool) = Inr r" "0 < r"
    "r \<le> ta_amount vault"
    "burn rt tx [] (tokens w) (lp_share_mint a) (lp_share_ata a) (lp a) shares
       = (Inr ts1 :: escrow_error + token_state)"
    "transfer_checked rt tx [signer_seeds pool (pool_bump pool)] ts1 (lp_usdc_vault a)
       (lp_usdc_mint a) (lp_usdc_ata a) (lp_pool a) r (mint_decimals m)
       = (Inr (tokens w') :: escrow_error + token_state)"
    "unat (total_assets pool) = unat A' + unat r"
    "unat (total_shares pool) = unat S' + unat shares"
    "accounts w' = (accounts w)(lp_pool a \<mapsto>
       PoolAccount (pool\<lparr>total_assets := A', total_shares := S'\<rparr>))"
    "ev = Withdrew (lp_pool a) (lp a) shares r"
  using assms that
  by (auto simp: withdraw_def Withdraw_accounts_def withdraw_handler_def result checked)

lemma SkimProtocolFees_accounts_Inr:
  assumes "SkimProtocolFees_accounts rt tx a w = Inr (pool, m)"
  shows "accounts w (sk_pool a) = Some (PoolAccount pool)"
    and "create_program_address rt [POOL_SEED, pool_asset_mint pool, [pool_bump pool]] ESCROW = Some (sk_pool a)"
    and "sk_pool_usdc_vault a = pool_usdc_vault pool"
    and "sk_recipient_ata a = pool_treasury_ata pool"
    and "sk_usdc_mint a = pool_asset_mint pool"
  using assms by (auto simp: SkimProtocolFees_accounts_def result)

lemma skim_protocol_fees_Inr:
  assumes "skim_protocol_fees rt tx a amount w = Inr (w', ev)"
  obtains pool m F' where
    "SkimProtocolFees_accounts rt tx a w = Inr (pool, m)"
    "require_squads_governance_cpi (tx_sysvar tx) (pool_governance pool) = Inr ()"
    "0 < amount" "amount \<le> accrued_protocol_fees pool"
    "transfer_checked rt tx [signer_seeds pool (pool_bump pool)] (tokens w) (sk_pool_usdc_vault a)
       (sk_usdc_mint a) (sk_recipient_ata a) (sk_pool a) amount (mint_decimals m)
       = (Inr (tokens w') :: escrow_error + token_state)"
    "unat (accrued_protocol_fees pool) = unat F' + unat amount"
    "accounts w' = (accounts w)(sk_pool a \<mapsto> PoolAccount (pool\<lparr>accrued_protocol_fees := F'\<rparr>))"
    "ev = ProtocolFeesSkimmed (sk_pool a) amount (sk_recipient_ata a)"
  using assms that
  by (auto simp: skim_protocol_fees_def skim_protocol_fees_handler_def result checked)

end
