(* ===== verification/Governance.thy ===== *)
theory Governance
  imports Liquidity
begin

text \<open>
  Timelocked parameter changes: \<^verbatim>\<open>propose_params\<close> and \<^verbatim>\<open>execute_params\<close>.
\<close>

section \<open>\<open>propose_params\<close>\<close>

record ProposeParams =
  pr_cranker :: pubkey
  pr_governance :: pubkey
  pr_pool :: pubkey

definition ProposeParams_accounts :: "runtime \<Rightarrow> transaction \<Rightarrow> ProposeParams \<Rightarrow> world \<Rightarrow> escrow_error + Pool" where
  "ProposeParams_accounts rt tx a w =
     and_then (check_signer tx (pr_cranker a)) (\<lambda>_.
     and_then (load_pool rt w (pr_pool a)) (\<lambda>pool.
     and_then (require (pr_governance a = pool_governance pool) (Custom GovernanceRequired)) (\<lambda>_.
     Inr pool)))"

definition propose_params_handler ::
  "transaction \<Rightarrow> ProposeParams \<Rightarrow> Pool \<Rightarrow> PendingParams \<Rightarrow> world \<Rightarrow> escrow_error + world \<times> escrow_event" where
  "propose_params_handler tx a pool params w =
     and_then (map_err (\<lambda>_. Custom GovernanceRequired)
       (require_squads_governance_cpi (tx_sysvar tx) (pool_governance pool))) (\<lambda>_.
     and_then (FeeCurve_validate (pp_fee_curve params)) (\<lambda>_.
     and_then (checked_or_overflow (i64_checked_add (tx_now tx) (timelock_seconds pool))) (\<lambda>execute_after.
     Inr (w\<lparr>accounts := (accounts w)(pr_pool a \<mapsto>
             PoolAccount (pool\<lparr>pending_params := Some (params\<lparr>pp_execute_after := execute_after\<rparr>)\<rparr>))\<rparr>,
          ParamsProposed (pr_pool a) execute_after))))"

definition propose_params ::
  "runtime \<Rightarrow> transaction \<Rightarrow> ProposeParams \<Rightarrow> PendingParams \<Rightarrow> world \<Rightarrow> escrow_error + world \<times> escrow_event" where
  "propose_params rt tx a params w =
     and_then (ProposeParams_accounts rt tx a w) (\<lambda>pool.
     propose_params_handler tx a pool params w)"

section \<open>\<open>execute_params\<close>\<close>

record ExecuteParams =
  ex_cranker :: pubkey
  ex_pool :: pubkey

definition ExecuteParams_accounts :: "runtime \<Rightarrow> transaction \<Rightarrow> ExecuteParams \<Rightarrow> world \<Rightarrow> escrow_error + Pool" where
  "ExecuteParams_accounts rt tx a w =
     and_then (check_signer tx (ex_cranker a)) (\<lambda>_.
     load_pool rt w (ex_pool a))"

definition execute_params_handler ::
  "transaction \<Rightarrow> ExecuteParams \<Rightarrow> Pool \<Rightarrow> world \<Rightarrow> escrow_error + world \<times> escrow_event" where
  "execute_params_handler tx a pool w =
     and_then (ok_or (pending_params pool) (Custom NoPendingParams)) (\<lambda>pending.
     and_then (require (sint (pp_execute_after pending) \<le> sint (tx_now tx)) (Custom PendingParamsNotReady)) (\<lambda>_.
     let pool' = pool\<lparr>
           fee_curve := pp_fee_curve pending,
           max_advance_pct_bps := pp_max_advance_pct_bps pending,
           max_advance_abs := pp_max_advance_abs pending,
           agent_window_cap := pp_agent_window_cap pending,
           pending_params := None \<rparr>
     in Inr (w\<lparr>accounts := (accounts w)(ex_pool a \<mapsto> PoolAccount pool')\<rparr>,
             ParamsExecuted (ex_pool a) (max_advance_pct_bps pool') (max_advance_abs pool')
               (agent_window_cap pool'))))"

definition execute_params ::
  "runtime \<Rightarrow> transaction \<Rightarrow> ExecuteParams \<Rightarrow> world \<Rightarrow> escrow_error + world \<times> escrow_event" where
  "execute_params rt tx a w =
     and_then (ExecuteParams_accounts rt tx a w) (\<lambda>pool.
     execute_params_handler tx a pool w)"

section \<open>What a successful instruction did\<close>

lemma propose_params_Inr:
  assumes "propose_params rt tx a params w = Inr (w', ev)"
  obtains pool t where
    "accounts w (pr_pool a) = Some (PoolAccount pool)"
    "require_squads_governance_cpi (tx_sysvar tx) (pool_governance pool) = Inr ()"
    "valid_curve (pp_fee_curve params)"
    "sint t = sint (tx_now tx) + sint (timelock_seconds pool)"
    "w' = w\<lparr>accounts := (accounts w)(pr_pool a \<mapsto>
       PoolAccount (pool\<lparr>pending_params := Some (params\<lparr>pp_execute_after := t\<rparr>)\<rparr>))\<rparr>"
  using assms that
  by (auto simp: propose_params_def ProposeParams_accounts_def propose_params_handler_def
      result checked FeeCurve_validate_ok_iff)

lemma execute_params_Inr:
  assumes "execute_params rt tx a w = Inr (w', ev)"
  obtains pool pending where
    "accounts w (ex_pool a) = Some (PoolAccount pool)"
    "pending_params pool = Some pending"
    "sint (pp_execute_after pending) \<le> sint (tx_now tx)"
    "w' = w\<lparr>accounts := (accounts w)(ex_pool a \<mapsto> PoolAccount (pool\<lparr>
           fee_curve := pp_fee_curve pending,
           max_advance_pct_bps := pp_max_advance_pct_bps pending,
           max_advance_abs := pp_max_advance_abs pending,
           agent_window_cap := pp_agent_window_cap pending,
           pending_params := None \<rparr>))\<rparr>"
  using assms that
  by (auto simp: execute_params_def ExecuteParams_accounts_def execute_params_handler_def
      result checked Let_def)

end
