(* ===== verification/Attestation.thy ===== *)
theory Attestation
  imports Runtime
begin

text \<open>
  The signed credit attestation: the readers \<open>pubkey_at\<close>, \<open>u64_le\<close>, \<open>i64_le\<close> and steps (1) to
  (3) of \<^verbatim>\<open>instructions/request_advance.rs\<close> (signature, decoding, binding and freshness checks),
  and the bridge's encoder \<^verbatim>\<open>encodeAttestation\<close> of \<^verbatim>\<open>ts/bridge/src/attestation.ts\<close>, whose output
  the decoder must read back.
\<close>

section \<open>Readers\<close>

definition pubkey_at :: "bytes \<Rightarrow> nat \<Rightarrow> escrow_error + pubkey" where
  "pubkey_at msg offset = ok_or (slice msg offset 32) Panicked"

definition u64_le :: "bytes \<Rightarrow> nat \<Rightarrow> escrow_error + u64" where
  "u64_le msg offset = and_then (ok_or (slice msg offset 8) Panicked) (\<lambda>buf. Inr (from_le_bytes buf))"

definition i64_le :: "bytes \<Rightarrow> nat \<Rightarrow> escrow_error + i64" where
  "i64_le msg offset = and_then (ok_or (slice msg offset 8) Panicked) (\<lambda>buf. Inr (from_le_bytes buf))"

section \<open>Verification in \<open>request_advance\<close>\<close>

record Attested =
  att_signer :: pubkey
  att_credit_limit :: u64
  att_outstanding :: u64
  att_expires_at :: i64
  att_attested_at :: i64

definition map_introspection_error :: "IxIntrospectionError \<Rightarrow> escrow_error" where
  "map_introspection_error e =
     (case e of
        IxEd25519OffsetMismatch \<Rightarrow> Custom Ed25519MessageMismatch
      | _ \<Rightarrow> Custom Ed25519Missing)"

text \<open>
  \<open>attested_at <= now && (now - attested_at) <= MAX\<close>: the conjunction is lazy, and the
  subtraction panics when it overflows.
\<close>

definition fresh_enough :: "i64 \<Rightarrow> i64 \<Rightarrow> escrow_error + bool" where
  "fresh_enough now attested_at =
     (if sint attested_at \<le> sint now
      then and_then (ok_or (i64_sub now attested_at) Panicked) (\<lambda>age.
             Inr (sint age \<le> sint MAX_ATTESTATION_AGE_SECONDS))
      else Inr False)"

definition verify_attestation ::
  "instructions_sysvar \<Rightarrow> i64 \<Rightarrow> AllowedSigner \<Rightarrow> pubkey \<Rightarrow> pubkey \<Rightarrow> u64 \<Rightarrow> bytes \<Rightarrow> escrow_error + Attested" where
  "verify_attestation sv now allowed_signer agent_key pool_key chain_id nonce =
     and_then (map_err map_introspection_error (verify_prev_ed25519 sv)) (\<lambda>(signed_pubkey, signed_msg).
     and_then (require (length signed_msg = TOTAL_LEN) (Custom Ed25519MessageMismatch)) (\<lambda>_.
     and_then (require (signed_pubkey = as_signer allowed_signer) (Custom Ed25519SignerUnknown)) (\<lambda>_.
     and_then (require (as_kind allowed_signer = AttestorKind_as_u8 CreditBridge) (Custom Ed25519SignerUnknown)) (\<lambda>_.
     and_then (pubkey_at signed_msg AGENT_OFFSET) (\<lambda>msg_agent.
     and_then (require (msg_agent = agent_key) (Custom Ed25519MessageMismatch)) (\<lambda>_.
     and_then (pubkey_at signed_msg POOL_OFFSET) (\<lambda>msg_pool.
     and_then (require (msg_pool = pool_key) (Custom Ed25519MessageMismatch)) (\<lambda>_.
     and_then (u64_le signed_msg CREDIT_LIMIT_OFFSET) (\<lambda>attested_credit_limit.
     and_then (u64_le signed_msg OUTSTANDING_OFFSET) (\<lambda>attested_outstanding.
     and_then (i64_le signed_msg EXPIRES_AT_OFFSET) (\<lambda>expires_at.
     and_then (i64_le signed_msg ATTESTED_AT_OFFSET) (\<lambda>attested_at.
     and_then (ok_or (slice signed_msg NONCE_OFFSET NONCE_LEN) Panicked) (\<lambda>msg_nonce.
     and_then (u64_le signed_msg CHAIN_ID_OFFSET) (\<lambda>msg_chain_id.
     and_then (u64_le signed_msg VERSION_OFFSET) (\<lambda>version.
     and_then (require (version = VERSION) (Custom Ed25519MessageMismatch)) (\<lambda>_.
     and_then (require (msg_nonce = nonce) (Custom Ed25519MessageMismatch)) (\<lambda>_.
     and_then (require (msg_chain_id = chain_id) (Custom InvalidChainId)) (\<lambda>_.
     and_then (fresh_enough now attested_at) (\<lambda>fresh.
     and_then (require fresh (Custom ReceivableStale)) (\<lambda>_.
     and_then (require (sint now < sint expires_at) (Custom ReceivableExpired)) (\<lambda>_.
     Inr \<lparr> att_signer = signed_pubkey, att_credit_limit = attested_credit_limit,
           att_outstanding = attested_outstanding, att_expires_at = expires_at,
           att_attested_at = attested_at \<rparr>)))))))))))))))))))))"

section \<open>The bridge's encoder\<close>

record CreditAttestationInput =
  agentPubkey :: bytes
  poolPubkey :: bytes
  creditLimitAtoms :: int
  outstandingAtoms :: int
  expiresAt :: int
  attestedAt :: int
  in_nonce :: bytes
  chainId :: int

text \<open>\<open>None\<close> is a thrown error: a field of the wrong length, or a \<open>bigint\<close> out of range.\<close>

definition writeU64LE :: "int \<Rightarrow> bytes option" where
  "writeU64LE v = (if v < 0 \<or> 18446744073709551615 < v then None else Some (to_le_bytes 8 (nat v)))"

definition writeI64LE :: "int \<Rightarrow> bytes option" where
  "writeI64LE v =
     (if v < - (2 ^ 63) \<or> 2 ^ 63 \<le> v then None else Some (to_le_bytes 8 (nat (v mod 2 ^ 64))))"

definition encodeAttestation :: "CreditAttestationInput \<Rightarrow> bytes option" where
  "encodeAttestation inp =
     (if length (agentPubkey inp) \<noteq> 32 then None
      else if length (poolPubkey inp) \<noteq> 32 then None
      else if length (in_nonce inp) \<noteq> 16 then None
      else Option.bind (writeU64LE (creditLimitAtoms inp)) (\<lambda>limit.
           Option.bind (writeU64LE (outstandingAtoms inp)) (\<lambda>outstanding.
           Option.bind (writeI64LE (expiresAt inp)) (\<lambda>expires.
           Option.bind (writeI64LE (attestedAt inp)) (\<lambda>attested.
           Option.bind (writeU64LE (chainId inp)) (\<lambda>chain.
           Option.bind (writeU64LE (uint VERSION)) (\<lambda>version.
           Some (agentPubkey inp @ poolPubkey inp @ limit @ outstanding @ expires @ attested
             @ in_nonce inp @ chain @ version))))))))"

section \<open>Lemmas\<close>

lemma reader_Inr [result]:
  "pubkey_at msg off = Inr k \<longleftrightarrow> slice msg off 32 = Some k"
  "u64_le msg off = Inr x \<longleftrightarrow> (\<exists>buf. slice msg off 8 = Some buf \<and> from_le_bytes buf = x)"
  "i64_le msg off = Inr x \<longleftrightarrow> (\<exists>buf. slice msg off 8 = Some buf \<and> from_le_bytes buf = x)"
  by (auto simp: pubkey_at_def u64_le_def i64_le_def ok_or_Inr_iff and_then_Inr_iff)

lemma fresh_enough_True [result]:
  "fresh_enough now t = Inr True \<longleftrightarrow> sint t \<le> sint now \<and> sint now - sint t \<le> 900"
proof (cases "sint t \<le> sint now \<and> i64_fits (sint now - sint t)")
  case True
  then obtain age where "i64_sub now t = Some age" "sint age = sint now - sint t"
    by (metis i64_sub_None i64_sub_Some not_None_eq)
  with True show ?thesis by (simp add: fresh_enough_def)
next
  case False
  then have "sint now < sint t \<or> 900 < sint now - sint t" by (auto simp: i64_fits_def)
  with False show ?thesis by (auto simp: fresh_enough_def i64_sub_None [THEN iffD2])
qed

lemma verify_attestation_Inr:
  assumes "verify_attestation sv now s agent_key pool_key chain_id nonce = Inr att"
  obtains msg where
    "verify_prev_ed25519 sv = Inr (as_signer s, msg)" "length msg = 128"
    "as_kind s = AttestorKind_as_u8 CreditBridge"
    "take 32 msg = agent_key" "take 32 (drop 32 msg) = pool_key"
    "take 16 (drop 96 msg) = nonce"
    "from_le_bytes (take 8 (drop 112 msg)) = chain_id" "from_le_bytes (take 8 (drop 120 msg)) = VERSION"
    "att = \<lparr> att_signer = as_signer s, att_credit_limit = from_le_bytes (take 8 (drop 64 msg)),
       att_outstanding = from_le_bytes (take 8 (drop 72 msg)),
       att_expires_at = from_le_bytes (take 8 (drop 80 msg)),
       att_attested_at = from_le_bytes (take 8 (drop 88 msg)) \<rparr>"
    "sint (att_attested_at att) \<le> sint now" "sint now - sint (att_attested_at att) \<le> 900"
    "sint now < sint (att_expires_at att)"
  using assms that
  by (auto simp: verify_attestation_def result simp del: VERSION_def)

text \<open>The integer encodings of the bridge, read back at the width of the program.\<close>

lemma writeU64LE_Some:
  assumes "writeU64LE v = Some bs"
  shows "length bs = 8" and "from_le_bytes bs = (word_of_int v :: u64)" and "0 \<le> v" and "v < 2 ^ 64"
proof -
  from assms have v: "0 \<le> v" "v < 2 ^ 64" and bs: "bs = to_le_bytes 8 (nat v)"
    by (auto simp: writeU64LE_def split: if_splits)
  show "length bs = 8" "0 \<le> v" "v < 2 ^ 64" using v bs by simp_all
  have "nat v < 256 ^ 8" using v by (simp add: nat_less_iff)
  then show "from_le_bytes bs = (word_of_int v :: u64)"
    using v(1) by (simp add: bs from_le_bytes_def le_nat_to_le_bytes)
qed

lemma writeI64LE_Some:
  assumes "writeI64LE v = Some bs"
  shows "length bs = 8" and "sint (from_le_bytes bs :: i64) = v"
proof -
  from assms have v: "i64_fits v" and bs: "bs = to_le_bytes 8 (nat (v mod 2 ^ 64))"
    by (auto simp: writeI64LE_def i64_fits_def split: if_splits)
  show "length bs = 8" by (simp add: bs)
  have "nat (v mod 2 ^ 64) < 256 ^ 8" by (simp add: nat_less_iff)
  then have "from_le_bytes bs = (word_of_int (v mod 2 ^ 64) :: i64)"
    by (simp add: bs from_le_bytes_def le_nat_to_le_bytes)
  also have "\<dots> = word_of_int v" by (simp add: word_of_int_eq_iff take_bit_eq_mod)
  finally show "sint (from_le_bytes bs :: i64) = v" using v by (simp add: sint_word_of_int_fits)
qed

lemma encodeAttestation_Some:
  assumes "encodeAttestation inp = Some msg"
  shows "length msg = 128" and "take 32 msg = agentPubkey inp" and "take 32 (drop 32 msg) = poolPubkey inp"
    and "from_le_bytes (take 8 (drop 64 msg)) = (word_of_int (creditLimitAtoms inp) :: u64)"
    and "from_le_bytes (take 8 (drop 72 msg)) = (word_of_int (outstandingAtoms inp) :: u64)"
    and "sint (from_le_bytes (take 8 (drop 80 msg)) :: i64) = expiresAt inp"
    and "sint (from_le_bytes (take 8 (drop 88 msg)) :: i64) = attestedAt inp"
    and "take 16 (drop 96 msg) = in_nonce inp"
    and "from_le_bytes (take 8 (drop 112 msg)) = (word_of_int (chainId inp) :: u64)"
    and "from_le_bytes (take 8 (drop 120 msg)) = VERSION"
proof -
  from assms obtain l out ex at ch ve where
    len: "length (agentPubkey inp) = 32" "length (poolPubkey inp) = 32" "length (in_nonce inp) = 16"
    and wr: "writeU64LE (creditLimitAtoms inp) = Some l" "writeU64LE (outstandingAtoms inp) = Some out"
      "writeI64LE (expiresAt inp) = Some ex" "writeI64LE (attestedAt inp) = Some at"
      "writeU64LE (chainId inp) = Some ch" "writeU64LE (uint VERSION) = Some ve"
    and msg: "msg = agentPubkey inp @ poolPubkey inp @ l @ out @ ex @ at @ in_nonce inp @ ch @ ve"
    by (auto simp: encodeAttestation_def Option.bind_eq_Some_conv split: if_splits)
  note U = writeU64LE_Some and I = writeI64LE_Some
  have lens: "length l = 8" "length out = 8" "length ex = 8" "length at = 8" "length ch = 8" "length ve = 8"
    using wr U(1) I(1) by auto
  show "length msg = 128" "take 32 msg = agentPubkey inp" "take 32 (drop 32 msg) = poolPubkey inp"
    "take 16 (drop 96 msg) = in_nonce inp"
    by (simp_all add: msg len lens)
  show "from_le_bytes (take 8 (drop 64 msg)) = (word_of_int (creditLimitAtoms inp) :: u64)"
    "from_le_bytes (take 8 (drop 72 msg)) = (word_of_int (outstandingAtoms inp) :: u64)"
    "from_le_bytes (take 8 (drop 112 msg)) = (word_of_int (chainId inp) :: u64)"
    "from_le_bytes (take 8 (drop 120 msg)) = VERSION"
    using wr(1,2,5,6) by (simp_all add: msg len lens U(2))
  show "sint (from_le_bytes (take 8 (drop 80 msg)) :: i64) = expiresAt inp"
    "sint (from_le_bytes (take 8 (drop 88 msg)) :: i64) = attestedAt inp"
    using wr(3,4) by (simp_all add: msg len lens I(2))
qed

lemma encodeAttestation_range:
  assumes "encodeAttestation inp = Some msg"
  shows "0 \<le> creditLimitAtoms inp" and "creditLimitAtoms inp < 2 ^ 64"
    and "0 \<le> outstandingAtoms inp" and "outstandingAtoms inp < 2 ^ 64"
  using assms by (auto simp: encodeAttestation_def writeU64LE_def Option.bind_eq_Some_conv split: if_splits)

end
