(* ===== verification/Issuance.thy ===== *)
theory Issuance
  imports Attestation Liquidity
begin

text \<open>
  \<^verbatim>\<open>request_advance\<close>: the account validation, then the handler composed of the attestation
  check (theory Attestation), the per-agent issuance ledger, underwriting, fees and
  disbursement.  The numbered steps of the source are separate definitions, composed in the
  source's order.
\<close>

section \<open>Accounts\<close>

record RequestAdvance =
  ra_agent :: pubkey
  ra_allowed_signer :: pubkey
  ra_pool :: pubkey
  ra_advance :: pubkey
  ra_consumed :: pubkey
  ra_issuance_ledger :: pubkey
  ra_pool_usdc_vault :: pubkey
  ra_agent_usdc_ata :: pubkey
  ra_usdc_mint :: pubkey

text \<open>What validation hands to the handler: loaded accounts, fresh bumps, the token state.\<close>

record RequestAdvance_ctx =
  rc_allowed_signer :: AllowedSigner
  rc_pool :: Pool
  rc_advance_bump :: u8
  rc_consumed_bump :: u8
  rc_ledger :: AgentIssuanceLedger
  rc_ledger_bump :: u8
  rc_usdc_mint :: Mint
  rc_tokens :: token_state

definition zeroed_ledger :: AgentIssuanceLedger where
  "zeroed_ledger = \<lparr> led_bump = 0, led_agent = default_pubkey, led_pool = default_pubkey,
     window_start = 0, issued_in_window = 0, live_principal = 0 \<rparr>"

text \<open>
  \<open>init_if_needed\<close> on the ledger: the canonical address; an existing ledger is loaded, a free
  address gets a zeroed one, anything else at the address is refused.
\<close>

definition ledger_if_needed ::
  "runtime \<Rightarrow> world \<Rightarrow> pubkey \<Rightarrow> pubkey \<Rightarrow> pubkey \<Rightarrow> escrow_error + AgentIssuanceLedger \<times> u8" where
  "ledger_if_needed rt w pool_key agent_key k =
     (let (addr, bump) = find_program_address rt [ISSUANCE_LEDGER_SEED, pool_key, agent_key] ESCROW in
      and_then (require (addr = k) (Anchor ConstraintSeeds)) (\<lambda>_.
      if address_free w k then Inr (zeroed_ledger, bump)
      else and_then (load_account as_Ledger w k) (\<lambda>ledger. Inr (ledger, bump))))"

text \<open>\<open>init_if_needed\<close> on the agent's associated token account.\<close>

definition agent_ata_if_needed ::
  "runtime \<Rightarrow> token_state \<Rightarrow> pubkey \<Rightarrow> pubkey \<Rightarrow> pubkey \<Rightarrow> escrow_error + token_state" where
  "agent_ata_if_needed rt ts agent_key mint_key k =
     and_then (require (k = get_associated_token_address rt agent_key mint_key) (Anchor ConstraintAssociated)) (\<lambda>_.
     case tok_accounts ts k of
       None \<Rightarrow> ok_or (spl_init_account rt ts k mint_key agent_key) CpiFailed
     | Some ta \<Rightarrow> and_then (check_token ta mint_key agent_key) (\<lambda>_. Inr ts))"

definition RequestAdvance_accounts ::
  "runtime \<Rightarrow> transaction \<Rightarrow> RequestAdvance \<Rightarrow> bytes \<Rightarrow> world \<Rightarrow> escrow_error + RequestAdvance_ctx" where
  "RequestAdvance_accounts rt tx a receivable_id w =
     and_then (check_signer tx (ra_agent a)) (\<lambda>_.
     and_then (load_account as_AllowedSigner w (ra_allowed_signer a)) (\<lambda>allowed_signer.
     and_then (check_seeds rt ATTESTOR_REGISTRY [ALLOWED_SIGNER_SEED, as_signer allowed_signer]
       (as_bump allowed_signer) (ra_allowed_signer a)) (\<lambda>_.
     and_then (load_pool rt w (ra_pool a)) (\<lambda>pool.
     and_then (init_pda rt ESCROW [ADVANCE_SEED, ra_pool a, ra_agent a, receivable_id] w (ra_advance a)) (\<lambda>advance_bump.
     and_then (init_pda rt ESCROW [CONSUMED_SEED, ra_pool a, ra_agent a, receivable_id] w (ra_consumed a)) (\<lambda>consumed_bump.
     and_then (require (ra_consumed a \<noteq> ra_advance a) (Anchor AccountAlreadyInUse)) (\<lambda>_.
     and_then (ledger_if_needed rt w (ra_pool a) (ra_agent a) (ra_issuance_ledger a)) (\<lambda>(ledger, ledger_bump).
     and_then (require (ra_issuance_ledger a \<notin> {ra_advance a, ra_consumed a}) (Anchor AccountAlreadyInUse)) (\<lambda>_.
     and_then (check_address (ra_pool_usdc_vault a) (pool_usdc_vault pool)) (\<lambda>_.
     and_then (load_token (tokens w) (ra_pool_usdc_vault a)) (\<lambda>_.
     and_then (check_address (ra_usdc_mint a) (pool_asset_mint pool)) (\<lambda>_.
     and_then (load_mint (tokens w) (ra_usdc_mint a)) (\<lambda>usdc_mint.
     and_then (require (ra_agent_usdc_ata a \<notin> {ra_advance a, ra_consumed a, ra_issuance_ledger a})
       (Anchor AccountAlreadyInUse)) (\<lambda>_.
     and_then (agent_ata_if_needed rt (tokens w) (ra_agent a) (ra_usdc_mint a) (ra_agent_usdc_ata a)) (\<lambda>ts.
     Inr \<lparr> rc_allowed_signer = allowed_signer, rc_pool = pool, rc_advance_bump = advance_bump,
           rc_consumed_bump = consumed_bump, rc_ledger = ledger, rc_ledger_bump = ledger_bump,
           rc_usdc_mint = usdc_mint, rc_tokens = ts \<rparr>)))))))))))))))"

section \<open>Step (4): the rolling issuance ledger\<close>

definition init_ledger_fields :: "i64 \<Rightarrow> u8 \<Rightarrow> pubkey \<Rightarrow> pubkey \<Rightarrow> AgentIssuanceLedger \<Rightarrow> AgentIssuanceLedger" where
  "init_ledger_fields now bump agent_key pool_key ledger =
     (if led_bump ledger = 0
      then ledger\<lparr> led_bump := bump, led_agent := agent_key, led_pool := pool_key,
                   window_start := now, issued_in_window := 0 \<rparr>
      else ledger)"

definition reset_window :: "i64 \<Rightarrow> AgentIssuanceLedger \<Rightarrow> AgentIssuanceLedger" where
  "reset_window now ledger =
     (if sint AGENT_WINDOW_SECONDS \<le> sint (i64_saturating_sub now (window_start ledger))
      then ledger\<lparr> window_start := now, issued_in_window := 0 \<rparr>
      else ledger)"

definition charge_window :: "u64 \<Rightarrow> u64 \<Rightarrow> AgentIssuanceLedger \<Rightarrow> escrow_error + AgentIssuanceLedger" where
  "charge_window cap amount ledger =
     and_then (checked_or_overflow (checked_add (issued_in_window ledger) amount)) (\<lambda>new_issued.
     and_then (if 0 < cap then require (new_issued \<le> cap) (Custom AgentWindowCapExceeded) else Inr ()) (\<lambda>_.
     Inr (ledger\<lparr> issued_in_window := new_issued \<rparr>)))"

definition roll_ledger ::
  "i64 \<Rightarrow> u8 \<Rightarrow> pubkey \<Rightarrow> pubkey \<Rightarrow> u64 \<Rightarrow> u64 \<Rightarrow> AgentIssuanceLedger \<Rightarrow> escrow_error + AgentIssuanceLedger" where
  "roll_ledger now bump agent_key pool_key cap amount ledger =
     charge_window cap amount (reset_window now (init_ledger_fields now bump agent_key pool_key ledger))"

section \<open>Step (4b): underwriting\<close>

definition underwrite ::
  "Attested \<Rightarrow> u64 \<Rightarrow> u64 \<Rightarrow> AgentIssuanceLedger \<Rightarrow> escrow_error + AgentIssuanceLedger" where
  "underwrite att max_abs amount ledger =
     and_then (checked_or_overflow (checked_add (att_outstanding att) (live_principal ledger))) (\<lambda>combined_outstanding.
     let available_credit = saturating_sub (att_credit_limit att) combined_outstanding in
     and_then (require (amount \<le> available_credit) (Custom AdvanceExceedsCredit)) (\<lambda>_.
     and_then (require (amount \<le> max_abs) (Custom AdvanceExceedsCap)) (\<lambda>_.
     and_then (checked_or_overflow (checked_add (live_principal ledger) amount)) (\<lambda>live'.
     Inr (ledger\<lparr> live_principal := live' \<rparr>)))))"

section \<open>Step (5): fees\<close>

definition quote_fees :: "i64 \<Rightarrow> i64 \<Rightarrow> Pool \<Rightarrow> u64 \<Rightarrow> escrow_error + u64 \<times> u64" where
  "quote_fees now expires_at pool amount =
     (let duration_seconds = i64_max (i64_saturating_sub expires_at now) 0 in
      and_then (compute_utilization_bps pool) (\<lambda>utilization.
      and_then (compute_fee_amount amount duration_seconds utilization 0 (fee_curve pool)) (\<lambda>fee.
      and_then (compute_late_penalty_per_day amount (fee_curve pool)) (\<lambda>late.
      Inr (fee, late)))))"

section \<open>The handler\<close>

text \<open>Step (6): the pool pays the agent.\<close>

definition disburse ::
  "runtime \<Rightarrow> transaction \<Rightarrow> RequestAdvance \<Rightarrow> RequestAdvance_ctx \<Rightarrow> u64 \<Rightarrow> escrow_error + token_state" where
  "disburse rt tx a c amount =
     transfer_checked rt tx [signer_seeds (rc_pool c) (pool_bump (rc_pool c))] (rc_tokens c) (ra_pool_usdc_vault a)
       (ra_usdc_mint a) (ra_agent_usdc_ata a) (ra_pool a) amount (mint_decimals (rc_usdc_mint c))"

text \<open>Step (7): the two accounts an advance creates.\<close>

definition advance_of ::
  "transaction \<Rightarrow> RequestAdvance \<Rightarrow> RequestAdvance_ctx \<Rightarrow> bytes \<Rightarrow> u64 \<Rightarrow> Attested \<Rightarrow> u64 \<Rightarrow> u64 \<Rightarrow> Advance" where
  "advance_of tx a c rid amount att fee late =
     \<lparr> adv_bump = rc_advance_bump c, adv_agent = ra_agent a, adv_receivable_id = rid,
       principal = amount, fee_owed = fee, late_penalty_per_day = late, issued_at = tx_now tx,
       adv_expires_at = att_expires_at att, adv_attestor = att_signer att, adv_state = Issued \<rparr>"

definition consumed_of ::
  "transaction \<Rightarrow> RequestAdvance \<Rightarrow> RequestAdvance_ctx \<Rightarrow> bytes \<Rightarrow> ConsumedPayment" where
  "consumed_of tx a c nonce =
     \<lparr> cp_bump = rc_consumed_bump c, cp_nonce = nonce, cp_agent = ra_agent a, cp_created_at = tx_now tx \<rparr>"

text \<open>Step (8): the pool's exposure.\<close>

definition expose_pool :: "u64 \<Rightarrow> Pool \<Rightarrow> escrow_error + Pool" where
  "expose_pool amount pool =
     and_then (checked_or_overflow (checked_add (deployed_amount pool) amount)) (\<lambda>deployed'.
     and_then (require (deployed' \<le> total_assets pool) (Custom InsufficientIdleLiquidity)) (\<lambda>_.
     Inr (pool\<lparr>deployed_amount := deployed'\<rparr>)))"

definition request_advance_handler ::
  "runtime \<Rightarrow> transaction \<Rightarrow> RequestAdvance \<Rightarrow> RequestAdvance_ctx \<Rightarrow> bytes \<Rightarrow> u64 \<Rightarrow> bytes \<Rightarrow> world
     \<Rightarrow> escrow_error + world \<times> escrow_event" where
  "request_advance_handler rt tx a c receivable_id amount nonce w =
     and_then (require (MIN_ADVANCE_ATOMS \<le> amount) (Custom AdvanceExceedsCap)) (\<lambda>_.
     let now = tx_now tx; pool = rc_pool c in
     and_then (verify_attestation (tx_sysvar tx) now (rc_allowed_signer c) (ra_agent a) (ra_pool a)
       (pool_chain_id pool) nonce) (\<lambda>att.
     and_then (roll_ledger now (rc_ledger_bump c) (ra_agent a) (ra_pool a) (agent_window_cap pool) amount
       (rc_ledger c)) (\<lambda>ledger1.
     and_then (underwrite att (max_advance_abs pool) amount ledger1) (\<lambda>ledger2.
     and_then (quote_fees now (att_expires_at att) pool amount) (\<lambda>(fee, late).
     and_then (disburse rt tx a c amount) (\<lambda>ts.
     let advance = advance_of tx a c receivable_id amount att fee late;
         consumed = consumed_of tx a c nonce in
     and_then (expose_pool amount pool) (\<lambda>pool'.
     Inr (\<lparr>accounts = (accounts w)(
              ra_pool a \<mapsto> PoolAccount pool',
              ra_advance a \<mapsto> AdvanceAccount advance,
              ra_consumed a \<mapsto> ConsumedAccount consumed,
              ra_issuance_ledger a \<mapsto> LedgerAccount ledger2),
            tokens = ts\<rparr>,
          AdvanceIssued (ra_pool a) (ra_agent a) (ra_advance a) amount fee (att_expires_at att)
            (att_signer att)))))))))"

definition request_advance ::
  "runtime \<Rightarrow> transaction \<Rightarrow> RequestAdvance \<Rightarrow> bytes \<Rightarrow> u64 \<Rightarrow> bytes \<Rightarrow> world
     \<Rightarrow> escrow_error + world \<times> escrow_event" where
  "request_advance rt tx a receivable_id amount nonce w =
     and_then (RequestAdvance_accounts rt tx a receivable_id w) (\<lambda>c.
     request_advance_handler rt tx a c receivable_id amount nonce w)"

section \<open>What a successful instruction did\<close>

lemma ledger_if_needed_Inr:
  assumes "ledger_if_needed rt w P g k = Inr (l, b)"
  shows "find_program_address rt [ISSUANCE_LEDGER_SEED, P, g] ESCROW = (k, b)"
    and "address_free w k \<and> l = zeroed_ledger \<or> accounts w k = Some (LedgerAccount l)"
  using assms by (auto simp: ledger_if_needed_def result split: prod.splits if_splits)

lemma agent_ata_if_needed_Inr:
  assumes law: "spl_token_laws rt" and ok: "agent_ata_if_needed rt ts g m k = Inr ts'"
  shows "keeps_tokens ts ts'" and "balance ts' v = balance ts v" and "tok_mints ts' = tok_mints ts"
    and "\<exists>ta. tok_accounts ts' k = Some ta \<and> ta_owner ta = g \<and> ta_mint ta = m"
  using ok init_account_effect [OF law]
  by (auto simp: agent_ata_if_needed_def result split: option.splits)

lemma RequestAdvance_accounts_Inr:
  assumes "RequestAdvance_accounts rt tx a rid w = Inr c"
  shows "ra_agent a \<in> set (tx_signers tx)"
    and "accounts w (ra_allowed_signer a) = Some (AllowedSignerAccount (rc_allowed_signer c))"
    and "create_program_address rt [ALLOWED_SIGNER_SEED, as_signer (rc_allowed_signer c),
           [as_bump (rc_allowed_signer c)]] ATTESTOR_REGISTRY = Some (ra_allowed_signer a)"
    and "accounts w (ra_pool a) = Some (PoolAccount (rc_pool c))"
    and "find_program_address rt [ADVANCE_SEED, ra_pool a, ra_agent a, rid] ESCROW = (ra_advance a, rc_advance_bump c)"
    and "address_free w (ra_advance a)"
    and "find_program_address rt [CONSUMED_SEED, ra_pool a, ra_agent a, rid] ESCROW = (ra_consumed a, rc_consumed_bump c)"
    and "address_free w (ra_consumed a)" and "ra_consumed a \<noteq> ra_advance a"
    and "ledger_if_needed rt w (ra_pool a) (ra_agent a) (ra_issuance_ledger a) = Inr (rc_ledger c, rc_ledger_bump c)"
    and "ra_issuance_ledger a \<noteq> ra_advance a" and "ra_issuance_ledger a \<noteq> ra_consumed a"
    and "ra_pool_usdc_vault a = pool_usdc_vault (rc_pool c)"
    and "ra_usdc_mint a = pool_asset_mint (rc_pool c)"
    and "agent_ata_if_needed rt (tokens w) (ra_agent a) (ra_usdc_mint a) (ra_agent_usdc_ata a) = Inr (rc_tokens c)"
  using assms by (auto simp: RequestAdvance_accounts_def result)

lemma request_advance_Inr:
  assumes "request_advance rt tx a rid amount nonce w = Inr (w', ev)"
  obtains c att ledger1 ledger2 fee late D' where
    "RequestAdvance_accounts rt tx a rid w = Inr c"
    "MIN_ADVANCE_ATOMS \<le> amount"
    "verify_attestation (tx_sysvar tx) (tx_now tx) (rc_allowed_signer c) (ra_agent a) (ra_pool a)
       (pool_chain_id (rc_pool c)) nonce = Inr att"
    "roll_ledger (tx_now tx) (rc_ledger_bump c) (ra_agent a) (ra_pool a) (agent_window_cap (rc_pool c))
       amount (rc_ledger c) = Inr ledger1"
    "underwrite att (max_advance_abs (rc_pool c)) amount ledger1 = Inr ledger2"
    "quote_fees (tx_now tx) (att_expires_at att) (rc_pool c) amount = Inr (fee, late)"
    "transfer_checked rt tx [signer_seeds (rc_pool c) (pool_bump (rc_pool c))] (rc_tokens c)
       (ra_pool_usdc_vault a) (ra_usdc_mint a) (ra_agent_usdc_ata a) (ra_pool a) amount
       (mint_decimals (rc_usdc_mint c)) = (Inr (tokens w') :: escrow_error + token_state)"
    "unat D' = unat (deployed_amount (rc_pool c)) + unat amount"
    "D' \<le> total_assets (rc_pool c)"
    "accounts w' = (accounts w)(
       ra_pool a \<mapsto> PoolAccount (rc_pool c\<lparr>deployed_amount := D'\<rparr>),
       ra_advance a \<mapsto> AdvanceAccount (advance_of tx a c rid amount att fee late),
       ra_consumed a \<mapsto> ConsumedAccount (consumed_of tx a c nonce),
       ra_issuance_ledger a \<mapsto> LedgerAccount ledger2)"
    "ev = AdvanceIssued (ra_pool a) (ra_agent a) (ra_advance a) amount fee (att_expires_at att) (att_signer att)"
  using assms that
  by (auto simp: request_advance_def request_advance_handler_def result checked Let_def
      disburse_def expose_pool_def)

section \<open>The issuance window\<close>

lemma window_expired: "sint AGENT_WINDOW_SECONDS \<le> sint (i64_saturating_sub now ws) \<longleftrightarrow> 86400 \<le> sint now - sint ws"
  by (auto simp: sint_i64_saturating_sub min_def max_def)

lemma roll_ledger_window:
  assumes "roll_ledger now b g P cap amount l = Inr l'" and "led_bump l \<noteq> 0"
  shows "led_bump l' = led_bump l"
    and "window_start l' = (if 86400 \<le> sint now - sint (window_start l) then now else window_start l)"
    and "unat (issued_in_window l') =
           (if 86400 \<le> sint now - sint (window_start l) then 0 else unat (issued_in_window l)) + unat amount"
    and "0 < cap \<Longrightarrow> issued_in_window l' \<le> cap"
  using assms unfolding roll_ledger_def charge_window_def reset_window_def init_ledger_fields_def window_expired
  by (auto simp: result checked split: if_splits)

text \<open>The window charge and underwriting as one equation each.\<close>

lemma charge_window_eq:
  "charge_window cap amount l =
     (let issued = unat (issued_in_window l) + unat amount in
      if 2 ^ 64 \<le> issued then Inl (Custom MathOverflow)
      else if 0 < unat cap \<and> unat cap < issued then Inl (Custom AgentWindowCapExceeded)
      else Inr (l\<lparr>issued_in_window := word_of_nat issued\<rparr>))"
proof (cases "checked_add (issued_in_window l) amount")
  case None
  then have "2 ^ 64 \<le> unat (issued_in_window l) + unat amount" by (simp add: checked_None)
  with None show ?thesis by (simp add: charge_window_def Let_def)
next
  case (Some n)
  then have n: "unat n = unat (issued_in_window l) + unat amount" by (simp add: checked)
  then have "word_of_nat (unat (issued_in_window l) + unat amount) = n" by (simp flip: n del: of_nat_add)
  moreover have "0 < cap \<longleftrightarrow> 0 < unat cap" by (simp add: word_less_nat_alt)
  ultimately show ?thesis
    using n Some unat_u64_less [of n]
    by (simp add: charge_window_def Let_def word_le_nat_alt not_le require_def)
qed

text \<open>In underwriting the last addition cannot overflow.\<close>

lemma underwrite_eq:
  "underwrite att max_abs amount l =
     (let debt = unat (att_outstanding att) + unat (live_principal l) in
      if 2 ^ 64 \<le> debt then Inl (Custom MathOverflow)
      else if unat (att_credit_limit att) - debt < unat amount then Inl (Custom AdvanceExceedsCredit)
      else if unat max_abs < unat amount then Inl (Custom AdvanceExceedsCap)
      else Inr (l\<lparr>live_principal := word_of_nat (unat (live_principal l) + unat amount)\<rparr>))"
proof (cases "checked_add (att_outstanding att) (live_principal l)")
  case None
  then have "2 ^ 64 \<le> unat (att_outstanding att) + unat (live_principal l)" by (simp add: checked_None)
  with None show ?thesis by (simp add: underwrite_def Let_def)
next
  case (Some debt)
  then have debt: "unat debt = unat (att_outstanding att) + unat (live_principal l)" by (simp add: checked)
  have "checked_add (live_principal l) amount = Some (word_of_nat (unat (live_principal l) + unat amount))"
    if "unat amount \<le> unat (att_credit_limit att) - unat debt"
  proof -
    have "unat (live_principal l) + unat amount \<le> max (unat debt) (unat (att_credit_limit att))"
      using that debt by linarith
    then have "unat (live_principal l) + unat amount < 2 ^ 64"
      using unat_u64_less [of "att_credit_limit att"] unat_u64_less [of debt] by (simp add: max_def split: if_splits)
    then show ?thesis by (simp add: checked_add_def)
  qed
  then show ?thesis
    using Some debt unat_u64_less [of debt]
    by (simp add: underwrite_def Let_def word_le_nat_alt not_le require_def)
qed

text \<open>The ledger step (4) charges: a fresh one initialised, an expired window restarted.\<close>

lemma current_window_eq:
  "reset_window now (init_ledger_fields now b g P l) =
     (let fresh = (led_bump l = 0); restart = (fresh \<or> 86400 \<le> sint now - sint (window_start l)) in
      \<lparr> led_bump = (if fresh then b else led_bump l), led_agent = (if fresh then g else led_agent l),
        led_pool = (if fresh then P else led_pool l),
        window_start = (if restart then now else window_start l),
        issued_in_window = (if restart then 0 else issued_in_window l), live_principal = live_principal l \<rparr>)"
  unfolding reset_window_def init_ledger_fields_def window_expired by (auto simp: Let_def)

section \<open>Properties\<close>

text \<open>
  C21: steps (4) and (4b) on every input: what counts as issued in the window, the order of the
  refusals and their error codes, and the ledger that results.  Overflow of the sums, the window
  cap (when there is one), the attested credit after attested and on-chain debt, the pool's
  absolute cap.
\<close>

theorem issuance_decision_exact:
  "and_then (roll_ledger now b g P cap amount l) (underwrite att max_abs amount) =
     (let fresh = (led_bump l = 0);
          restart = (fresh \<or> 86400 \<le> sint now - sint (window_start l));
          issued = (if restart then 0 else unat (issued_in_window l)) + unat amount;
          debt = unat (att_outstanding att) + unat (live_principal l) in
      if 2 ^ 64 \<le> issued then Inl (Custom MathOverflow)
      else if 0 < unat cap \<and> unat cap < issued then Inl (Custom AgentWindowCapExceeded)
      else if 2 ^ 64 \<le> debt then Inl (Custom MathOverflow)
      else if unat (att_credit_limit att) - debt < unat amount then Inl (Custom AdvanceExceedsCredit)
      else if unat max_abs < unat amount then Inl (Custom AdvanceExceedsCap)
      else Inr \<lparr> led_bump = (if fresh then b else led_bump l), led_agent = (if fresh then g else led_agent l),
             led_pool = (if fresh then P else led_pool l),
             window_start = (if restart then now else window_start l),
             issued_in_window = word_of_nat issued,
             live_principal = word_of_nat (unat (live_principal l) + unat amount) \<rparr>)"
  unfolding roll_ledger_def charge_window_eq current_window_eq
  by (simp add: underwrite_eq Let_def)

text \<open>
  The window resets at a fixed boundary: a ledger that has issued nothing takes the whole cap one
  second before the end of its window and the whole cap again at its end.
\<close>

lemma window_reset_doubles_the_cap:
  assumes "led_bump l \<noteq> 0" and "issued_in_window l = 0"
    and "sint now = sint (window_start l) + 86399" and "sint now' = sint now + 1"
  shows "\<exists>l1 l2. roll_ledger now b g P cap cap l = Inr l1 \<and> roll_ledger now' b g P cap cap l1 = Inr l2"
  using assms unat_u64_less [of cap]
  by (simp add: roll_ledger_def current_window_eq charge_window_eq Let_def not_le)

end
