(* ===== verification/Settlement.thy ===== *)
theory Settlement
  imports Issuance
begin

text \<open>
  The two ways an advance ends: \<^verbatim>\<open>claim_and_settle\<close> with its waterfall, and \<^verbatim>\<open>liquidate\<close>.
  Both close the \<open>Advance\<close> account (\<open>close = agent\<close>, \<open>close = cranker\<close>): it leaves the account
  map.
\<close>

section \<open>\<open>claim_and_settle\<close>\<close>

record ClaimAndSettle =
  cs_agent :: pubkey
  cs_advance :: pubkey
  cs_consumed :: pubkey
  cs_issuance_ledger :: pubkey
  cs_pool :: pubkey
  cs_pool_usdc_vault :: pubkey
  cs_agent_usdc_ata :: pubkey
  cs_protocol_treasury_ata :: pubkey
  cs_usdc_mint :: pubkey

text \<open>The constraints on advance, consumed receipt and ledger that both instructions declare.\<close>

definition load_advance ::
  "runtime \<Rightarrow> world \<Rightarrow> pubkey \<Rightarrow> pubkey \<Rightarrow> escrow_error + Advance" where
  "load_advance rt w pool_key k =
     and_then (load_account as_Advance w k) (\<lambda>advance.
     and_then (check_seeds rt ESCROW
       [ADVANCE_SEED, pool_key, adv_agent advance, adv_receivable_id advance] (adv_bump advance) k) (\<lambda>_.
     and_then (require (adv_state advance = Issued) (Custom InvalidAdvanceState)) (\<lambda>_.
     Inr advance)))"

definition load_consumed ::
  "runtime \<Rightarrow> world \<Rightarrow> pubkey \<Rightarrow> Advance \<Rightarrow> pubkey \<Rightarrow> escrow_error + ConsumedPayment" where
  "load_consumed rt w pool_key advance k =
     and_then (load_account as_Consumed w k) (\<lambda>consumed.
     and_then (check_seeds rt ESCROW
       [CONSUMED_SEED, pool_key, adv_agent advance, adv_receivable_id advance] (cp_bump consumed) k) (\<lambda>_.
     and_then (require (cp_agent consumed = adv_agent advance) (Custom ReplayDetected)) (\<lambda>_.
     Inr consumed)))"

definition load_ledger ::
  "runtime \<Rightarrow> world \<Rightarrow> pubkey \<Rightarrow> Advance \<Rightarrow> pubkey \<Rightarrow> escrow_error + AgentIssuanceLedger" where
  "load_ledger rt w pool_key advance k =
     and_then (load_account as_Ledger w k) (\<lambda>ledger.
     and_then (check_seeds rt ESCROW
       [ISSUANCE_LEDGER_SEED, pool_key, adv_agent advance] (led_bump ledger) k) (\<lambda>_.
     and_then (require (led_agent ledger = adv_agent advance) (Custom ReplayDetected)) (\<lambda>_.
     and_then (require (led_pool ledger = pool_key) (Custom ReplayDetected)) (\<lambda>_.
     Inr ledger))))"

definition ClaimAndSettle_accounts ::
  "runtime \<Rightarrow> transaction \<Rightarrow> ClaimAndSettle \<Rightarrow> world
     \<Rightarrow> escrow_error + Advance \<times> ConsumedPayment \<times> AgentIssuanceLedger \<times> Pool \<times> Mint" where
  "ClaimAndSettle_accounts rt tx a w =
     and_then (check_signer tx (cs_agent a)) (\<lambda>_.
     and_then (load_advance rt w (cs_pool a) (cs_advance a)) (\<lambda>advance.
     and_then (require (cs_agent a = adv_agent advance) (Custom InvalidPayer)) (\<lambda>_.
     and_then (load_consumed rt w (cs_pool a) advance (cs_consumed a)) (\<lambda>consumed.
     and_then (load_ledger rt w (cs_pool a) advance (cs_issuance_ledger a)) (\<lambda>ledger.
     and_then (load_pool rt w (cs_pool a)) (\<lambda>pool.
     and_then (check_address (cs_pool_usdc_vault a) (pool_usdc_vault pool)) (\<lambda>_.
     and_then (load_token (tokens w) (cs_pool_usdc_vault a)) (\<lambda>_.
     and_then (load_token (tokens w) (cs_agent_usdc_ata a)) (\<lambda>agent_ata.
     and_then (check_token agent_ata (pool_asset_mint pool) (cs_agent a)) (\<lambda>_.
     and_then (check_address (cs_protocol_treasury_ata a) (pool_treasury_ata pool)) (\<lambda>_.
     and_then (load_token (tokens w) (cs_protocol_treasury_ata a)) (\<lambda>_.
     and_then (check_address (cs_usdc_mint a) (pool_asset_mint pool)) (\<lambda>_.
     and_then (load_mint (tokens w) (cs_usdc_mint a)) (\<lambda>usdc_mint.
     Inr (advance, consumed, ledger, pool, usdc_mint)))))))))))))))"

text \<open>The waterfall: late penalty, amount owed, and the three-way split of the payment.\<close>

record Waterfall =
  wf_late_days :: u64
  wf_protocol_cut :: u64
  wf_lp_fee :: u64
  wf_lp_cut :: u64
  wf_agent_net :: u64

definition late_days_at :: "i64 \<Rightarrow> i64 \<Rightarrow> escrow_error + u64" where
  "late_days_at now expires_at =
     and_then (ok_or (i64_sub now expires_at) Panicked) (\<lambda>diff.
     let late_seconds = i64_max diff 0;
         late_days = i64_div late_seconds 86400 in
     Inr (if as_u64 MAX_LATE_DAYS < late_days then as_u64 MAX_LATE_DAYS else late_days))"

definition settlement_waterfall :: "i64 \<Rightarrow> Advance \<Rightarrow> u64 \<Rightarrow> escrow_error + Waterfall" where
  "settlement_waterfall now advance payment_amount =
     and_then (late_days_at now (adv_expires_at advance)) (\<lambda>late_days.
     and_then (checked_or_overflow (checked_mul late_days (late_penalty_per_day advance))) (\<lambda>late_penalty.
     and_then (checked_or_overflow (checked_add (principal advance) (fee_owed advance))) (\<lambda>owed0.
     and_then (checked_or_overflow (checked_add owed0 late_penalty)) (\<lambda>total_owed.
     and_then (require (total_owed \<le> payment_amount) (Custom WaterfallSumMismatch)) (\<lambda>_.
     and_then (checked_or_overflow (checked_add (fee_owed advance) late_penalty)) (\<lambda>total_fee.
     and_then (checked_or_overflow (checked_mul (as_u128 total_fee) (as_u128 PROTOCOL_FEE_BPS))) (\<lambda>scaled.
     and_then (checked_or_overflow (checked_div scaled (as_u128 BPS_DENOMINATOR))) (\<lambda>protocol_cut_u128.
     and_then (checked_or_overflow (u64_try_from protocol_cut_u128)) (\<lambda>protocol_cut.
     and_then (checked_or_overflow (checked_sub total_fee protocol_cut)) (\<lambda>lp_fee.
     and_then (checked_or_overflow (checked_add (principal advance) lp_fee)) (\<lambda>lp_cut.
     and_then (checked_or_overflow (checked_sub payment_amount protocol_cut)) (\<lambda>rest.
     and_then (checked_or_overflow (checked_sub rest lp_cut)) (\<lambda>agent_net.
     and_then (require
       (Option.bind (checked_add protocol_cut lp_cut) (\<lambda>x. checked_add x agent_net) = Some payment_amount)
       (Custom WaterfallSumMismatch)) (\<lambda>_.
     Inr \<lparr> wf_late_days = late_days, wf_protocol_cut = protocol_cut, wf_lp_fee = lp_fee,
           wf_lp_cut = lp_cut, wf_agent_net = agent_net \<rparr>))))))))))))))"

text \<open>The payments: a part of zero is skipped; the agent's part stays where it is.\<close>

definition settlement_payments ::
  "runtime \<Rightarrow> transaction \<Rightarrow> ClaimAndSettle \<Rightarrow> Waterfall \<Rightarrow> u8 \<Rightarrow> token_state \<Rightarrow> escrow_error + token_state" where
  "settlement_payments rt tx a fall decs ts =
     and_then (if 0 < wf_protocol_cut fall
               then transfer_checked rt tx [] ts (cs_agent_usdc_ata a) (cs_usdc_mint a)
                      (cs_protocol_treasury_ata a) (cs_agent a) (wf_protocol_cut fall) decs
               else Inr ts) (\<lambda>ts1.
     if 0 < wf_lp_cut fall
     then transfer_checked rt tx [] ts1 (cs_agent_usdc_ata a) (cs_usdc_mint a)
            (cs_pool_usdc_vault a) (cs_agent a) (wf_lp_cut fall) decs
     else Inr ts1)"

text \<open>The counters of ledger and pool.\<close>

definition settle_books ::
  "Advance \<Rightarrow> Waterfall \<Rightarrow> AgentIssuanceLedger \<Rightarrow> Pool \<Rightarrow> escrow_error + AgentIssuanceLedger \<times> Pool" where
  "settle_books advance fall ledger pool =
     and_then (checked_or_overflow (checked_sub (live_principal ledger) (principal advance))) (\<lambda>live'.
     and_then (checked_or_overflow (checked_sub (deployed_amount pool) (principal advance))) (\<lambda>deployed'.
     and_then (checked_or_overflow (checked_add (total_assets pool) (wf_lp_fee fall))) (\<lambda>assets'.
     and_then (checked_or_overflow (checked_add (accrued_protocol_fees pool) (wf_protocol_cut fall))) (\<lambda>fees'.
     Inr (ledger\<lparr>live_principal := live'\<rparr>,
          pool\<lparr>deployed_amount := deployed', total_assets := assets', accrued_protocol_fees := fees'\<rparr>)))))"

text \<open>What is written back when the handler returns: ledger and pool; the advance is closed.\<close>

definition settled_accounts ::
  "ClaimAndSettle \<Rightarrow> AgentIssuanceLedger \<Rightarrow> Pool \<Rightarrow> (pubkey \<rightharpoonup> account_data) \<Rightarrow> (pubkey \<rightharpoonup> account_data)" where
  "settled_accounts a l pool m =
     (m(cs_issuance_ledger a \<mapsto> LedgerAccount l, cs_pool a \<mapsto> PoolAccount pool))(cs_advance a := None)"

definition claim_and_settle_handler ::
  "runtime \<Rightarrow> transaction \<Rightarrow> ClaimAndSettle \<Rightarrow> Advance \<Rightarrow> ConsumedPayment \<Rightarrow> AgentIssuanceLedger \<Rightarrow> Pool
     \<Rightarrow> Mint \<Rightarrow> u64 \<Rightarrow> world \<Rightarrow> escrow_error + world \<times> escrow_event" where
  "claim_and_settle_handler rt tx a advance consumed ledger pool usdc_mint payment_amount w =
     (let now = tx_now tx; decs = mint_decimals usdc_mint in
     and_then (checked_or_overflow (i64_checked_add (adv_expires_at advance) LIQUIDATION_GRACE_SECONDS)) (\<lambda>claim_window_end.
     and_then (require (sint now < sint claim_window_end) (Custom NotSettleable)) (\<lambda>_.
     and_then (map_err (\<lambda>_. Custom MemoNonceMismatch)
       (require_memo_nonce (tx_sysvar tx) (cp_nonce consumed))) (\<lambda>_.
     and_then (settlement_waterfall now advance payment_amount) (\<lambda>wf.
     and_then (settlement_payments rt tx a wf decs (tokens w)) (\<lambda>ts2.
     and_then (settle_books advance wf ledger pool) (\<lambda>(ledger', pool').
     Inr (\<lparr>accounts = settled_accounts a ledger' pool' (accounts w), tokens = ts2\<rparr>,
          AdvanceSettled (cs_pool a) (adv_agent advance) (cs_advance a) (principal advance)
            (wf_lp_cut wf) (wf_protocol_cut wf) (wf_agent_net wf) (ucast (wf_late_days wf))))))))))"

definition claim_and_settle ::
  "runtime \<Rightarrow> transaction \<Rightarrow> ClaimAndSettle \<Rightarrow> u64 \<Rightarrow> world \<Rightarrow> escrow_error + world \<times> escrow_event" where
  "claim_and_settle rt tx a payment_amount w =
     and_then (ClaimAndSettle_accounts rt tx a w) (\<lambda>(advance, consumed, ledger, pool, usdc_mint).
     claim_and_settle_handler rt tx a advance consumed ledger pool usdc_mint payment_amount w)"

section \<open>\<open>liquidate\<close>\<close>

record Liquidate =
  lq_cranker :: pubkey
  lq_advance :: pubkey
  lq_consumed :: pubkey
  lq_issuance_ledger :: pubkey
  lq_tombstone :: pubkey
  lq_pool :: pubkey

definition Liquidate_accounts ::
  "runtime \<Rightarrow> transaction \<Rightarrow> Liquidate \<Rightarrow> world \<Rightarrow> escrow_error + Advance \<times> AgentIssuanceLedger \<times> u8 \<times> Pool" where
  "Liquidate_accounts rt tx a w =
     and_then (check_signer tx (lq_cranker a)) (\<lambda>_.
     and_then (load_advance rt w (lq_pool a) (lq_advance a)) (\<lambda>advance.
     and_then (load_consumed rt w (lq_pool a) advance (lq_consumed a)) (\<lambda>_.
     and_then (load_ledger rt w (lq_pool a) advance (lq_issuance_ledger a)) (\<lambda>ledger.
     and_then (init_pda rt ESCROW
       [LIQUIDATION_TOMBSTONE_SEED, lq_pool a, adv_agent advance, adv_receivable_id advance] w (lq_tombstone a)) (\<lambda>tombstone_bump.
     and_then (load_pool rt w (lq_pool a)) (\<lambda>pool.
     Inr (advance, ledger, tombstone_bump, pool)))))))"

definition tombstone_of :: "transaction \<Rightarrow> Advance \<Rightarrow> u8 \<Rightarrow> LiquidationTombstone" where
  "tombstone_of tx adv b =
     \<lparr> tomb_bump = b, tomb_agent = adv_agent adv, tomb_principal = principal adv,
       tomb_expires_at = adv_expires_at adv, tomb_liquidated_at = tx_now tx \<rparr>"

definition liquidate_handler ::
  "transaction \<Rightarrow> Liquidate \<Rightarrow> Advance \<Rightarrow> AgentIssuanceLedger \<Rightarrow> u8 \<Rightarrow> Pool \<Rightarrow> world
     \<Rightarrow> escrow_error + world \<times> escrow_event" where
  "liquidate_handler tx a advance ledger tombstone_bump pool w =
     (let now = tx_now tx in
     and_then (checked_or_overflow (i64_checked_add (adv_expires_at advance) LIQUIDATION_GRACE_SECONDS)) (\<lambda>liquidation_window_start.
     and_then (require (sint liquidation_window_start \<le> sint now) (Custom NotLiquidatable)) (\<lambda>_.
     and_then (checked_or_overflow (checked_sub (live_principal ledger) (principal advance))) (\<lambda>live'.
     and_then (checked_or_overflow (checked_sub (deployed_amount pool) (principal advance))) (\<lambda>deployed'.
     and_then (checked_or_overflow (checked_sub (total_assets pool) (principal advance))) (\<lambda>assets'.
     let tombstone = tombstone_of tx advance tombstone_bump in
     Inr (w\<lparr>accounts := ((accounts w)(
              lq_issuance_ledger a \<mapsto> LedgerAccount (ledger\<lparr>live_principal := live'\<rparr>),
              lq_pool a \<mapsto> PoolAccount (pool\<lparr>deployed_amount := deployed', total_assets := assets'\<rparr>),
              lq_tombstone a \<mapsto> TombstoneAccount tombstone))(
              lq_advance a := None)\<rparr>,
          AdvanceLiquidated (lq_pool a) (adv_agent advance) (lq_advance a) (principal advance))))))))"

definition liquidate ::
  "runtime \<Rightarrow> transaction \<Rightarrow> Liquidate \<Rightarrow> world \<Rightarrow> escrow_error + world \<times> escrow_event" where
  "liquidate rt tx a w =
     and_then (Liquidate_accounts rt tx a w) (\<lambda>(advance, ledger, tombstone_bump, pool).
     liquidate_handler tx a advance ledger tombstone_bump pool w)"

section \<open>What a successful instruction did\<close>

lemma load_advance_Inr [result]:
  "load_advance rt w P k = Inr adv \<longleftrightarrow>
     accounts w k = Some (AdvanceAccount adv)
     \<and> create_program_address rt [ADVANCE_SEED, P, adv_agent adv, adv_receivable_id adv, [adv_bump adv]] ESCROW = Some k
     \<and> adv_state adv = Issued"
  by (auto simp: load_advance_def result)

lemma load_consumed_Inr [result]:
  "load_consumed rt w P adv k = Inr c \<longleftrightarrow>
     accounts w k = Some (ConsumedAccount c)
     \<and> create_program_address rt [CONSUMED_SEED, P, adv_agent adv, adv_receivable_id adv, [cp_bump c]] ESCROW = Some k
     \<and> cp_agent c = adv_agent adv"
  by (auto simp: load_consumed_def result)

lemma load_ledger_Inr [result]:
  "load_ledger rt w P adv k = Inr l \<longleftrightarrow>
     accounts w k = Some (LedgerAccount l)
     \<and> create_program_address rt [ISSUANCE_LEDGER_SEED, P, adv_agent adv, [led_bump l]] ESCROW = Some k
     \<and> led_agent l = adv_agent adv \<and> led_pool l = P"
  by (auto simp: load_ledger_def result)

lemma ClaimAndSettle_accounts_Inr:
  assumes "ClaimAndSettle_accounts rt tx a w = Inr (adv, c, l, pool, m)"
  shows "cs_agent a \<in> set (tx_signers tx)" and "cs_agent a = adv_agent adv"
    and "load_advance rt w (cs_pool a) (cs_advance a) = Inr adv"
    and "load_consumed rt w (cs_pool a) adv (cs_consumed a) = Inr c"
    and "load_ledger rt w (cs_pool a) adv (cs_issuance_ledger a) = Inr l"
    and "accounts w (cs_pool a) = Some (PoolAccount pool)"
    and "cs_pool_usdc_vault a = pool_usdc_vault pool"
    and "\<exists>ta. tok_accounts (tokens w) (cs_agent_usdc_ata a) = Some ta \<and> ta_owner ta = cs_agent a
           \<and> ta_mint ta = pool_asset_mint pool"
    and "cs_protocol_treasury_ata a = pool_treasury_ata pool"
    and "cs_usdc_mint a = pool_asset_mint pool"
  using assms by (auto simp: ClaimAndSettle_accounts_def result)

lemma claim_and_settle_Inr:
  assumes "claim_and_settle rt tx a payment w = Inr (w', ev)"
  obtains adv c l pool m wf ts1 L' D' A' F' where
    "ClaimAndSettle_accounts rt tx a w = Inr (adv, c, l, pool, m)"
    "sint (tx_now tx) < sint (adv_expires_at adv) + 1209600"
    "require_memo_nonce (tx_sysvar tx) (cp_nonce c) = Inr ()"
    "settlement_waterfall (tx_now tx) adv payment = Inr wf"
    "(if 0 < wf_protocol_cut wf
      then transfer_checked rt tx [] (tokens w) (cs_agent_usdc_ata a) (cs_usdc_mint a)
             (cs_protocol_treasury_ata a) (cs_agent a) (wf_protocol_cut wf) (mint_decimals m)
      else Inr (tokens w)) = (Inr ts1 :: escrow_error + token_state)"
    "(if 0 < wf_lp_cut wf
      then transfer_checked rt tx [] ts1 (cs_agent_usdc_ata a) (cs_usdc_mint a)
             (cs_pool_usdc_vault a) (cs_agent a) (wf_lp_cut wf) (mint_decimals m)
      else Inr ts1) = (Inr (tokens w') :: escrow_error + token_state)"
    "unat (live_principal l) = unat L' + unat (principal adv)"
    "unat (deployed_amount pool) = unat D' + unat (principal adv)"
    "unat A' = unat (total_assets pool) + unat (wf_lp_fee wf)"
    "unat F' = unat (accrued_protocol_fees pool) + unat (wf_protocol_cut wf)"
    "accounts w' = settled_accounts a (l\<lparr>live_principal := L'\<rparr>)
       (pool\<lparr>deployed_amount := D', total_assets := A', accrued_protocol_fees := F'\<rparr>) (accounts w)"
    "ev = AdvanceSettled (cs_pool a) (adv_agent adv) (cs_advance a) (principal adv)
       (wf_lp_cut wf) (wf_protocol_cut wf) (wf_agent_net wf) (ucast (wf_late_days wf))"
proof -
  from assms obtain adv c l pool m where
    acc: "ClaimAndSettle_accounts rt tx a w = Inr (adv, c, l, pool, m)"
    and h: "claim_and_settle_handler rt tx a adv c l pool m payment w = Inr (w', ev)"
    by (auto simp: claim_and_settle_def result)
  from h obtain e u wf ts1 ts2 L' D' A' F' where
    "i64_checked_add (adv_expires_at adv) LIQUIDATION_GRACE_SECONDS = Some e" "sint (tx_now tx) < sint e"
    "require_memo_nonce (tx_sysvar tx) (cp_nonce c) = Inr u"
    "settlement_waterfall (tx_now tx) adv payment = Inr wf"
    "(if 0 < wf_protocol_cut wf
      then transfer_checked rt tx [] (tokens w) (cs_agent_usdc_ata a) (cs_usdc_mint a)
             (cs_protocol_treasury_ata a) (cs_agent a) (wf_protocol_cut wf) (mint_decimals m)
      else Inr (tokens w)) = (Inr ts1 :: escrow_error + token_state)"
    "(if 0 < wf_lp_cut wf
      then transfer_checked rt tx [] ts1 (cs_agent_usdc_ata a) (cs_usdc_mint a)
             (cs_pool_usdc_vault a) (cs_agent a) (wf_lp_cut wf) (mint_decimals m)
      else Inr ts1) = (Inr ts2 :: escrow_error + token_state)"
    "checked_sub (live_principal l) (principal adv) = Some L'"
    "checked_sub (deployed_amount pool) (principal adv) = Some D'"
    "checked_add (total_assets pool) (wf_lp_fee wf) = Some A'"
    "checked_add (accrued_protocol_fees pool) (wf_protocol_cut wf) = Some F'"
    "w' = \<lparr>accounts = settled_accounts a (l\<lparr>live_principal := L'\<rparr>)
       (pool\<lparr>deployed_amount := D', total_assets := A', accrued_protocol_fees := F'\<rparr>) (accounts w),
       tokens = ts2\<rparr>"
    "ev = AdvanceSettled (cs_pool a) (adv_agent adv) (cs_advance a) (principal adv)
       (wf_lp_cut wf) (wf_protocol_cut wf) (wf_agent_net wf) (ucast (wf_late_days wf))"
    unfolding claim_and_settle_handler_def settlement_payments_def settle_books_def Let_def
    by (auto simp only: result sum.inject prod.inject prod.case split_paired_all)
  then show ?thesis
    by (intro that [OF acc, of wf ts1 L' D' A' F']) (simp_all add: checked)
qed

text \<open>Lateness in whole days, and the amount a settlement must pay.\<close>

definition days_late :: "i64 \<Rightarrow> i64 \<Rightarrow> nat" where
  "days_late now expires_at = min 365 (nat (max 0 (sint now - sint expires_at)) div 86400)"

definition fees_due :: "i64 \<Rightarrow> Advance \<Rightarrow> nat" where
  "fees_due now adv =
     unat (fee_owed adv) + days_late now (adv_expires_at adv) * unat (late_penalty_per_day adv)"

definition protocol_share :: "nat \<Rightarrow> nat" where
  "protocol_share fees = fees * 1500 div 10000"

lemma late_days_at_Inr:
  "late_days_at now e = Inr d \<longleftrightarrow> i64_fits (sint now - sint e) \<and> unat d = days_late now e"
proof (cases "i64_fits (sint now - sint e)")
  case False
  then have "i64_sub now e = None" by (simp add: i64_sub_None)
  with False show ?thesis by (simp add: late_days_at_def)
next
  case True
  then obtain x where x: "i64_sub now e = Some x" by (auto simp: i64_sub_def)
  then have sx: "sint x = sint now - sint e" by (simp add: checked)
  let ?y = "i64_max x 0" and ?q = "i64_div (i64_max x 0) 86400"
  have y: "sint ?y = max 0 (sint now - sint e)" by (simp add: sint_i64_max sx max.commute)
  have q: "sint ?q = max 0 (sint now - sint e) div 86400"
    using sint_i64_div_nonneg [of ?y 86400] y by simp
  then have "0 \<le> sint ?q" by (simp add: pos_imp_zdiv_nonneg_iff)
  then have "int (unat ?q) = max 0 (sint now - sint e) div 86400" using unat_nonneg_i64 q by simp
  then have "unat ?q = nat (max 0 (sint now - sint e) div 86400)" by (metis nat_int)
  then have uq: "unat ?q = nat (max 0 (sint now - sint e)) div 86400" by (simp add: nat_div_distrib)
  have "late_days_at now e = Inr (if as_u64 MAX_LATE_DAYS < ?q then as_u64 MAX_LATE_DAYS else ?q)"
    by (simp add: late_days_at_def x Let_def)
  moreover have "unat (if as_u64 MAX_LATE_DAYS < ?q then as_u64 MAX_LATE_DAYS else ?q) = days_late now e"
    by (simp add: days_late_def word_less_nat_alt uq)
  ultimately show ?thesis using True by (metis sum.inject(2) unsigned_word_eqI)
qed

lemma settlement_waterfall_Inr:
  assumes "settlement_waterfall now adv payment = Inr x"
  shows "unat (wf_late_days x) = days_late now (adv_expires_at adv)"
    and "unat (wf_protocol_cut x) = protocol_share (fees_due now adv)"
    and "unat (wf_lp_fee x) + unat (wf_protocol_cut x) = fees_due now adv"
    and "unat (wf_lp_cut x) = unat (principal adv) + unat (wf_lp_fee x)"
    and "unat (wf_protocol_cut x) + unat (wf_lp_cut x) + unat (wf_agent_net x) = unat payment"
    and "unat (principal adv) + fees_due now adv \<le> unat payment"
proof -
  from assms obtain d pen o1 o2 tf sc pc cut lpf lpc rest net where
    st: "late_days_at now (adv_expires_at adv) = Inr d"
    "checked_mul d (late_penalty_per_day adv) = Some pen"
    "checked_add (principal adv) (fee_owed adv) = Some o1"
    "checked_add o1 pen = Some o2" "o2 \<le> payment"
    "checked_add (fee_owed adv) pen = Some tf"
    "checked_mul (as_u128 tf) (as_u128 PROTOCOL_FEE_BPS) = Some sc"
    "checked_div sc (as_u128 BPS_DENOMINATOR) = Some pc"
    "u64_try_from pc = Some cut" "checked_sub tf cut = Some lpf"
    "checked_add (principal adv) lpf = Some lpc" "checked_sub payment cut = Some rest"
    "checked_sub rest lpc = Some net"
    and x: "x = \<lparr> wf_late_days = d, wf_protocol_cut = cut, wf_lp_fee = lpf, wf_lp_cut = lpc, wf_agent_net = net \<rparr>"
    unfolding settlement_waterfall_def by (auto simp only: result sum.inject)
  then have d: "unat d = days_late now (adv_expires_at adv)"
    and due: "unat tf = fees_due now adv"
    by (simp_all add: late_days_at_Inr checked fees_due_def)
  have cut: "unat cut = protocol_share (fees_due now adv)"
    using st(7-9) due by (simp add: checked protocol_share_def)
  show "unat (wf_late_days x) = days_late now (adv_expires_at adv)"
    "unat (wf_protocol_cut x) = protocol_share (fees_due now adv)"
    "unat (wf_lp_fee x) + unat (wf_protocol_cut x) = fees_due now adv"
    "unat (wf_lp_cut x) = unat (principal adv) + unat (wf_lp_fee x)"
    "unat (wf_protocol_cut x) + unat (wf_lp_cut x) + unat (wf_agent_net x) = unat payment"
    "unat (principal adv) + fees_due now adv \<le> unat payment"
    using d cut due st by (simp_all add: x checked word_le_nat_alt)
qed

lemma protocol_cut_ok:
  obtains sc pc cut where "checked_mul (as_u128 (tf :: u64)) (as_u128 PROTOCOL_FEE_BPS) = Some sc"
    "checked_div sc (as_u128 BPS_DENOMINATOR) = Some pc" "u64_try_from pc = Some cut" "unat cut \<le> unat tf"
proof -
  have "unat (as_u128 tf) * unat (as_u128 PROTOCOL_FEE_BPS) < 2 ^ LENGTH(128)"
    using unat_u64_less [of tf] by simp
  then obtain sc where sc: "checked_mul (as_u128 tf) (as_u128 PROTOCOL_FEE_BPS) = Some sc"
      "unat sc = unat (as_u128 tf) * unat (as_u128 PROTOCOL_FEE_BPS)" by (rule checked_mulE)
  obtain pc where pc: "checked_div sc (as_u128 BPS_DENOMINATOR) = Some pc"
      "unat pc = unat sc div unat (as_u128 BPS_DENOMINATOR)"
    by (rule checked_divE [of "as_u128 BPS_DENOMINATOR" sc]) (simp_all add: as_u128_def)
  have le: "unat pc \<le> unat tf" using pc sc by simp
  then have "unat pc < 2 ^ 64" using unat_u64_less [of tf] by simp
  then obtain cut where "u64_try_from pc = Some cut" "unat cut = unat pc" by (rule u64_try_fromE)
  with sc(1) pc(1) le that show ?thesis by simp
qed

lemma settlement_waterfall_ok:
  assumes fits: "i64_fits (sint now - sint (adv_expires_at adv))"
    and pays: "unat (principal adv) + fees_due now adv \<le> unat payment"
  shows "\<exists>x. settlement_waterfall now adv payment = Inr x"
proof -
  have P: "unat payment < 18446744073709551616" by (rule unat_u64_less)
  have "days_late now (adv_expires_at adv) < 2 ^ LENGTH(64)" by (simp add: days_late_def)
  then obtain d :: u64 where du: "unat d = days_late now (adv_expires_at adv)" using ex_unat by blast
  then have d: "late_days_at now (adv_expires_at adv) = Inr d" using fits by (simp add: late_days_at_Inr)
  have due: "fees_due now adv = unat (fee_owed adv) + unat d * unat (late_penalty_per_day adv)"
    by (simp add: fees_due_def du)
  have "unat d * unat (late_penalty_per_day adv) < 2 ^ LENGTH(64)" using due pays P by simp
  then obtain pen where pen: "checked_mul d (late_penalty_per_day adv) = Some pen"
      "unat pen = unat d * unat (late_penalty_per_day adv)" by (rule checked_mulE)
  have "unat (principal adv) + unat (fee_owed adv) < 2 ^ LENGTH(64)" using due pays P by simp
  then obtain o1 where o1: "checked_add (principal adv) (fee_owed adv) = Some o1"
      "unat o1 = unat (principal adv) + unat (fee_owed adv)" by (rule checked_addE)
  have "unat o1 + unat pen < 2 ^ LENGTH(64)" using due pays P o1 pen by simp
  then obtain o2 where o2: "checked_add o1 pen = Some o2" "unat o2 = unat o1 + unat pen" by (rule checked_addE)
  have "unat (fee_owed adv) + unat pen < 2 ^ LENGTH(64)" using due pays P pen by simp
  then obtain tf where tf: "checked_add (fee_owed adv) pen = Some tf"
      "unat tf = unat (fee_owed adv) + unat pen" by (rule checked_addE)
  obtain sc pc cut where cut: "checked_mul (as_u128 tf) (as_u128 PROTOCOL_FEE_BPS) = Some sc"
      "checked_div sc (as_u128 BPS_DENOMINATOR) = Some pc" "u64_try_from pc = Some cut"
      "unat cut \<le> unat tf"
    by (rule protocol_cut_ok)
  obtain lpf where lpf: "checked_sub tf cut = Some lpf" "unat tf = unat lpf + unat cut"
    using cut(4) by (rule checked_subE)
  have "unat (principal adv) + unat lpf < 2 ^ LENGTH(64)" using due pays P pen tf lpf by simp
  then obtain lpc where lpc: "checked_add (principal adv) lpf = Some lpc"
      "unat lpc = unat (principal adv) + unat lpf" by (rule checked_addE)
  have "unat cut \<le> unat payment" using due pays pen tf lpf by simp
  then obtain rest where rest: "checked_sub payment cut = Some rest" "unat payment = unat rest + unat cut"
    by (rule checked_subE)
  have "unat lpc \<le> unat rest" using due pays pen tf lpf lpc rest by simp
  then obtain net where net: "checked_sub rest lpc = Some net" "unat rest = unat net + unat lpc"
    by (rule checked_subE)
  have "unat cut + unat lpc < 2 ^ LENGTH(64)" using P rest net by simp
  then obtain s1 where s1: "checked_add cut lpc = Some s1" "unat s1 = unat cut + unat lpc" by (rule checked_addE)
  have "checked_add s1 net = Some payment" using s1 rest net by (simp add: checked)
  moreover have "o2 \<le> payment" using o2 o1 pen due pays by (simp add: word_le_nat_alt)
  ultimately show ?thesis
    by (simp add: settlement_waterfall_def d pen(1) o1(1) o2(1) tf(1) cut(1-3) lpf(1) lpc(1)
        rest(1) net(1) s1(1) del: PROTOCOL_FEE_BPS_def BPS_DENOMINATOR_def)
qed

lemma Liquidate_accounts_Inr:
  assumes "Liquidate_accounts rt tx a w = Inr (adv, l, b, pool)"
  shows "load_advance rt w (lq_pool a) (lq_advance a) = Inr adv"
    and "\<exists>c. load_consumed rt w (lq_pool a) adv (lq_consumed a) = Inr c"
    and "load_ledger rt w (lq_pool a) adv (lq_issuance_ledger a) = Inr l"
    and "accounts w (lq_pool a) = Some (PoolAccount pool)"
    and "find_program_address rt [LIQUIDATION_TOMBSTONE_SEED, lq_pool a, adv_agent adv, adv_receivable_id adv] ESCROW
           = (lq_tombstone a, b)"
    and "address_free w (lq_tombstone a)"
  using assms by (auto simp: Liquidate_accounts_def result)

lemma liquidate_Inr:
  assumes "liquidate rt tx a w = Inr (w', ev)"
  obtains adv l b pool L' D' A' where
    "Liquidate_accounts rt tx a w = Inr (adv, l, b, pool)"
    "sint (adv_expires_at adv) + 1209600 \<le> sint (tx_now tx)"
    "unat (live_principal l) = unat L' + unat (principal adv)"
    "unat (deployed_amount pool) = unat D' + unat (principal adv)"
    "unat (total_assets pool) = unat A' + unat (principal adv)"
    "accounts w' = ((accounts w)(
       lq_issuance_ledger a \<mapsto> LedgerAccount (l\<lparr>live_principal := L'\<rparr>),
       lq_pool a \<mapsto> PoolAccount (pool\<lparr>deployed_amount := D', total_assets := A'\<rparr>),
       lq_tombstone a \<mapsto> TombstoneAccount (tombstone_of tx adv b)))(lq_advance a := None)"
    "tokens w' = tokens w"
    "ev = AdvanceLiquidated (lq_pool a) (adv_agent adv) (lq_advance a) (principal adv)"
proof -
  from assms obtain adv l b pool e L' D' A' where
    acc: "Liquidate_accounts rt tx a w = Inr (adv, l, b, pool)"
    and h: "i64_checked_add (adv_expires_at adv) LIQUIDATION_GRACE_SECONDS = Some e"
    "sint e \<le> sint (tx_now tx)"
    "checked_sub (live_principal l) (principal adv) = Some L'"
    "checked_sub (deployed_amount pool) (principal adv) = Some D'"
    "checked_sub (total_assets pool) (principal adv) = Some A'"
    "w' = w\<lparr>accounts := ((accounts w)(
       lq_issuance_ledger a \<mapsto> LedgerAccount (l\<lparr>live_principal := L'\<rparr>),
       lq_pool a \<mapsto> PoolAccount (pool\<lparr>deployed_amount := D', total_assets := A'\<rparr>),
       lq_tombstone a \<mapsto> TombstoneAccount (tombstone_of tx adv b)))(lq_advance a := None)\<rparr>"
    "ev = AdvanceLiquidated (lq_pool a) (adv_agent adv) (lq_advance a) (principal adv)"
    unfolding liquidate_def liquidate_handler_def Let_def tombstone_of_def
    by (auto simp only: result prod.case split_paired_all)
  then show ?thesis
    by (intro that [OF acc, of L' D' A']) (simp_all add: checked)
qed

text \<open>The two refusals: an amount owed that is no 64-bit number, and a payment below it.\<close>

lemma settlement_waterfall_refused:
  assumes "i64_fits (sint now - sint (adv_expires_at adv))"
    and "unat payment < unat (principal adv) + fees_due now adv"
  shows "settlement_waterfall now adv payment =
     Inl (Custom (if unat (principal adv) + fees_due now adv < 2 ^ 64 then WaterfallSumMismatch else MathOverflow))"
proof -
  have "days_late now (adv_expires_at adv) < 2 ^ LENGTH(64)" by (simp add: days_late_def)
  then obtain d :: u64 where du: "unat d = days_late now (adv_expires_at adv)" using ex_unat by blast
  then have d: "late_days_at now (adv_expires_at adv) = Inr d" using assms(1) by (simp add: late_days_at_Inr)
  have due: "fees_due now adv = unat (fee_owed adv) + unat d * unat (late_penalty_per_day adv)"
    by (simp add: fees_due_def du)
  show ?thesis
  proof (cases "checked_mul d (late_penalty_per_day adv)")
    case None
    then have "2 ^ 64 \<le> unat (principal adv) + fees_due now adv" using due by (simp add: checked_None)
    with None show ?thesis by (simp add: settlement_waterfall_def d)
  next
    case pen: (Some pen)
    show ?thesis
    proof (cases "checked_add (principal adv) (fee_owed adv)")
      case None
      then have "2 ^ 64 \<le> unat (principal adv) + fees_due now adv" using due by (simp add: checked_None)
      with None show ?thesis by (simp add: settlement_waterfall_def d pen)
    next
      case o1: (Some o1)
      have sum: "unat o1 + unat pen = unat (principal adv) + fees_due now adv"
        using o1 pen due by (simp add: checked)
      show ?thesis
      proof (cases "checked_add o1 pen")
        case None
        then have "2 ^ 64 \<le> unat (principal adv) + fees_due now adv" using sum by (simp add: checked_None)
        with None show ?thesis by (simp add: settlement_waterfall_def d pen o1)
      next
        case o2: (Some o2)
        then have o2': "unat o2 = unat (principal adv) + fees_due now adv" using sum by (simp add: checked)
        then have "\<not> o2 \<le> payment" using assms(2) by (simp add: word_le_nat_alt)
        moreover have "unat (principal adv) + fees_due now adv < 2 ^ 64" using o2' unat_u64_less [of o2] by simp
        ultimately show ?thesis by (simp add: settlement_waterfall_def d pen o1 o2)
      qed
    qed
  qed
qed

lemma unat_eqD: "unat x = n \<Longrightarrow> x = word_of_nat n"
  by auto

text \<open>An advance whose grace period ends beyond the range of the clock can never be closed.\<close>

lemma far_expiry_locks_advance:
  assumes "\<not> i64_fits (sint (adv_expires_at adv) + 1209600)"
  shows "claim_and_settle_handler rt tx a adv c l pool m payment w = Inl (Custom MathOverflow)"
    and "liquidate_handler tx a' adv l b pool w = Inl (Custom MathOverflow)"
proof -
  have "i64_checked_add (adv_expires_at adv) LIQUIDATION_GRACE_SECONDS = None"
    using assms by (simp add: i64_checked_add_None)
  then show "claim_and_settle_handler rt tx a adv c l pool m payment w = Inl (Custom MathOverflow)"
    "liquidate_handler tx a' adv l b pool w = Inl (Custom MathOverflow)"
    by (simp_all add: claim_and_settle_handler_def liquidate_handler_def del: LIQUIDATION_GRACE_SECONDS_def)
qed

section \<open>Properties\<close>

text \<open>
  C8: the waterfall on every input.  A lateness that no \<open>i64\<close> holds panics; an amount owed
  (principal, fee and penalty) beyond 64 bits is \<open>MathOverflow\<close>; a payment below the amount owed is
  \<open>WaterfallSumMismatch\<close>.  Otherwise 15 per cent of fee and penalty, rounded down, go to the
  protocol, principal and the remaining fees to the LPs and the rest of the payment to the agent.
\<close>

theorem waterfall_exact:
  "settlement_waterfall now adv payment =
     (let late = min 365 (nat (max 0 (sint now - sint (adv_expires_at adv))) div 86400);
          due = unat (fee_owed adv) + late * unat (late_penalty_per_day adv);
          owed = unat (principal adv) + due;
          cut = due * 1500 div 10000 in
      if \<not> i64_fits (sint now - sint (adv_expires_at adv)) then Inl Panicked
      else if 2 ^ 64 \<le> owed then Inl (Custom MathOverflow)
      else if unat payment < owed then Inl (Custom WaterfallSumMismatch)
      else Inr \<lparr> wf_late_days = word_of_nat late, wf_protocol_cut = word_of_nat cut,
             wf_lp_fee = word_of_nat (due - cut), wf_lp_cut = word_of_nat (owed - cut),
             wf_agent_net = word_of_nat (unat payment - owed) \<rparr>)"
proof -
  define due where "due = fees_due now adv"
  have cut: "due * 1500 div 10000 \<le> due" by simp
  consider (panic) "\<not> i64_fits (sint now - sint (adv_expires_at adv))"
    | (refused) "i64_fits (sint now - sint (adv_expires_at adv))" "unat payment < unat (principal adv) + due"
    | (paid) "i64_fits (sint now - sint (adv_expires_at adv))" "unat (principal adv) + due \<le> unat payment"
    by linarith
  then have "settlement_waterfall now adv payment =
     (if \<not> i64_fits (sint now - sint (adv_expires_at adv)) then Inl Panicked
      else if 2 ^ 64 \<le> unat (principal adv) + due then Inl (Custom MathOverflow)
      else if unat payment < unat (principal adv) + due then Inl (Custom WaterfallSumMismatch)
      else Inr \<lparr> wf_late_days = word_of_nat (days_late now (adv_expires_at adv)),
             wf_protocol_cut = word_of_nat (due * 1500 div 10000),
             wf_lp_fee = word_of_nat (due - due * 1500 div 10000),
             wf_lp_cut = word_of_nat (unat (principal adv) + due - due * 1500 div 10000),
             wf_agent_net = word_of_nat (unat payment - (unat (principal adv) + due)) \<rparr>)"
  proof cases
    case panic
    then have "i64_sub now (adv_expires_at adv) = None" by (simp add: i64_sub_None)
    with panic show ?thesis by (simp add: settlement_waterfall_def late_days_at_def)
  next
    case refused
    then show ?thesis using settlement_waterfall_refused [of now adv payment] by (auto simp: due_def)
  next
    case paid
    then obtain x where x: "settlement_waterfall now adv payment = Inr x"
      using settlement_waterfall_ok [of now adv payment] by (auto simp: due_def)
    note W = settlement_waterfall_Inr [OF x, folded due_def, unfolded protocol_share_def]
    have u: "unat (wf_late_days x) = days_late now (adv_expires_at adv)"
      "unat (wf_protocol_cut x) = due * 1500 div 10000"
      "unat (wf_lp_fee x) = due - due * 1500 div 10000"
      "unat (wf_lp_cut x) = unat (principal adv) + due - due * 1500 div 10000"
      "unat (wf_agent_net x) = unat payment - (unat (principal adv) + due)"
      using W cut by linarith+
    from u [THEN unat_eqD] have "x = \<lparr> wf_late_days = word_of_nat (days_late now (adv_expires_at adv)),
             wf_protocol_cut = word_of_nat (due * 1500 div 10000),
             wf_lp_fee = word_of_nat (due - due * 1500 div 10000),
             wf_lp_cut = word_of_nat (unat (principal adv) + due - due * 1500 div 10000),
             wf_agent_net = word_of_nat (unat payment - (unat (principal adv) + due)) \<rparr>"
      by simp
    then show ?thesis using x paid unat_u64_less [of payment] by simp
  qed
  then show ?thesis by (simp only: Let_def due_def fees_due_def days_late_def)
qed

end
