(* ===== verification/Attestor_Registry.thy ===== *)
theory Attestor_Registry
  imports Runtime
begin

text \<open>
  \<^verbatim>\<open>programs/credmesh-attestor-registry/src/lib.rs\<close>: the governance-controlled whitelist of
  bridge signers.
\<close>

type_synonym registry_error = "AttestorRegistryError program_error"

definition require_governance_cpi :: "instructions_sysvar \<Rightarrow> pubkey \<Rightarrow> registry_error + unit" where
  "require_governance_cpi sv expected_vault =
     map_err (\<lambda>_. Custom RegistryGovernanceRequired) (require_squads_governance_cpi sv expected_vault)"

text \<open>\<open>seeds = [ATTESTOR_CONFIG_SEED], bump = config.bump\<close>.\<close>

definition load_config :: "runtime \<Rightarrow> world \<Rightarrow> pubkey \<Rightarrow> registry_error + AttestorConfig" where
  "load_config rt w k =
     and_then (load_account as_Config w k) (\<lambda>config.
     and_then (check_seeds rt ATTESTOR_REGISTRY [ATTESTOR_CONFIG_SEED] (cfg_bump config) k) (\<lambda>_.
     Inr config))"

section \<open>\<open>init_registry\<close>\<close>

record InitRegistry =
  ir_deployer :: pubkey
  ir_config :: pubkey

definition init_registry ::
  "runtime \<Rightarrow> transaction \<Rightarrow> InitRegistry \<Rightarrow> pubkey \<Rightarrow> world \<Rightarrow> registry_error + world \<times> registry_event" where
  "init_registry rt tx a governance w =
     and_then (check_signer tx (ir_deployer a)) (\<lambda>_.
     and_then (init_pda rt ATTESTOR_REGISTRY [ATTESTOR_CONFIG_SEED] w (ir_config a)) (\<lambda>bump.
     and_then (require (governance \<noteq> default_pubkey) (Custom RegistryGovernanceRequired)) (\<lambda>_.
     Inr (w\<lparr>accounts := (accounts w)(ir_config a \<mapsto>
             ConfigAccount \<lparr> cfg_bump = bump, cfg_governance = governance \<rparr>)\<rparr>,
          AttestorRegistryInitialized governance))))"

section \<open>\<open>add_allowed_signer\<close>\<close>

record AddAllowedSigner =
  aa_cranker :: pubkey
  aa_config :: pubkey
  aa_allowed_signer :: pubkey

definition AddAllowedSigner_accounts ::
  "runtime \<Rightarrow> transaction \<Rightarrow> AddAllowedSigner \<Rightarrow> pubkey \<Rightarrow> world \<Rightarrow> registry_error + AttestorConfig \<times> u8" where
  "AddAllowedSigner_accounts rt tx a signer w =
     and_then (check_signer tx (aa_cranker a)) (\<lambda>_.
     and_then (load_config rt w (aa_config a)) (\<lambda>config.
     and_then (init_pda rt ATTESTOR_REGISTRY [ALLOWED_SIGNER_SEED, signer] w (aa_allowed_signer a)) (\<lambda>bump.
     Inr (config, bump))))"

definition add_allowed_signer ::
  "runtime \<Rightarrow> transaction \<Rightarrow> AddAllowedSigner \<Rightarrow> pubkey \<Rightarrow> u8 \<Rightarrow> world \<Rightarrow> registry_error + world \<times> registry_event" where
  "add_allowed_signer rt tx a signer kind w =
     and_then (AddAllowedSigner_accounts rt tx a signer w) (\<lambda>(config, bump).
     and_then (require_governance_cpi (tx_sysvar tx) (cfg_governance config)) (\<lambda>_.
     and_then (require (AttestorKind_from_u8 kind \<noteq> None) (Custom InvalidKind)) (\<lambda>_.
     Inr (w\<lparr>accounts := (accounts w)(aa_allowed_signer a \<mapsto>
             AllowedSignerAccount \<lparr> as_bump = bump, as_signer = signer, as_kind = kind,
               as_added_at = tx_now tx \<rparr>)\<rparr>,
          AllowedSignerAdded signer kind))))"

section \<open>\<open>remove_allowed_signer\<close>\<close>

text \<open>The account is closed to \<open>rent_refund\<close> after the handler.\<close>

record RemoveAllowedSigner =
  rm_cranker :: pubkey
  rm_config :: pubkey
  rm_allowed_signer :: pubkey

definition RemoveAllowedSigner_accounts ::
  "runtime \<Rightarrow> transaction \<Rightarrow> RemoveAllowedSigner \<Rightarrow> world \<Rightarrow> registry_error + AttestorConfig \<times> AllowedSigner" where
  "RemoveAllowedSigner_accounts rt tx a w =
     and_then (check_signer tx (rm_cranker a)) (\<lambda>_.
     and_then (load_config rt w (rm_config a)) (\<lambda>config.
     and_then (load_account as_AllowedSigner w (rm_allowed_signer a)) (\<lambda>allowed_signer.
     and_then (check_seeds rt ATTESTOR_REGISTRY [ALLOWED_SIGNER_SEED, as_signer allowed_signer]
       (as_bump allowed_signer) (rm_allowed_signer a)) (\<lambda>_.
     Inr (config, allowed_signer)))))"

definition remove_allowed_signer ::
  "runtime \<Rightarrow> transaction \<Rightarrow> RemoveAllowedSigner \<Rightarrow> world \<Rightarrow> registry_error + world \<times> registry_event" where
  "remove_allowed_signer rt tx a w =
     and_then (RemoveAllowedSigner_accounts rt tx a w) (\<lambda>(config, allowed_signer).
     and_then (require_governance_cpi (tx_sysvar tx) (cfg_governance config)) (\<lambda>_.
     Inr (w\<lparr>accounts := (accounts w)(rm_allowed_signer a := None)\<rparr>,
          AllowedSignerRemoved (as_signer allowed_signer))))"

section \<open>\<open>set_governance\<close>\<close>

record SetGovernance =
  sg_cranker :: pubkey
  sg_config :: pubkey

definition set_governance ::
  "runtime \<Rightarrow> transaction \<Rightarrow> SetGovernance \<Rightarrow> pubkey \<Rightarrow> world \<Rightarrow> registry_error + world \<times> registry_event" where
  "set_governance rt tx a new_governance w =
     and_then (check_signer tx (sg_cranker a)) (\<lambda>_.
     and_then (load_config rt w (sg_config a)) (\<lambda>config.
     and_then (require_governance_cpi (tx_sysvar tx) (cfg_governance config)) (\<lambda>_.
     and_then (require (new_governance \<noteq> default_pubkey) (Custom RegistryGovernanceRequired)) (\<lambda>_.
     Inr (w\<lparr>accounts := (accounts w)(sg_config a \<mapsto> ConfigAccount (config\<lparr>cfg_governance := new_governance\<rparr>))\<rparr>,
          GovernanceUpdated (cfg_governance config) new_governance)))))"

section \<open>What a successful instruction did\<close>

lemma load_config_Inr [result]:
  "load_config rt w k = Inr c \<longleftrightarrow>
     accounts w k = Some (ConfigAccount c)
     \<and> create_program_address rt [ATTESTOR_CONFIG_SEED, [cfg_bump c]] ATTESTOR_REGISTRY = Some k"
  by (auto simp: load_config_def result)

lemma require_governance_cpi_Inr [result]:
  "require_governance_cpi sv vault = Inr u \<longleftrightarrow> require_squads_governance_cpi sv vault = Inr ()"
  by (simp add: require_governance_cpi_def result)

lemma init_registry_Inr:
  assumes "init_registry rt tx a g w = Inr (w', ev)"
  obtains b where
    "find_program_address rt [ATTESTOR_CONFIG_SEED] ATTESTOR_REGISTRY = (ir_config a, b)"
    "address_free w (ir_config a)" "g \<noteq> default_pubkey"
    "w' = w\<lparr>accounts := (accounts w)(ir_config a \<mapsto> ConfigAccount \<lparr>cfg_bump = b, cfg_governance = g\<rparr>)\<rparr>"
  using assms that by (auto simp: init_registry_def result)

lemma add_allowed_signer_Inr:
  assumes "add_allowed_signer rt tx a s kind w = Inr (w', ev)"
  obtains c b where
    "load_config rt w (aa_config a) = Inr c"
    "require_squads_governance_cpi (tx_sysvar tx) (cfg_governance c) = Inr ()"
    "find_program_address rt [ALLOWED_SIGNER_SEED, s] ATTESTOR_REGISTRY = (aa_allowed_signer a, b)"
    "address_free w (aa_allowed_signer a)" "kind = AttestorKind_as_u8 CreditBridge"
    "w' = w\<lparr>accounts := (accounts w)(aa_allowed_signer a \<mapsto> AllowedSignerAccount
       \<lparr>as_bump = b, as_signer = s, as_kind = kind, as_added_at = tx_now tx\<rparr>)\<rparr>"
  using assms that
  by (auto simp: add_allowed_signer_def AddAllowedSigner_accounts_def result AttestorKind_from_u8_def
      split: if_splits)

lemma remove_allowed_signer_Inr:
  assumes "remove_allowed_signer rt tx a w = Inr (w', ev)"
  obtains c s where
    "load_config rt w (rm_config a) = Inr c"
    "require_squads_governance_cpi (tx_sysvar tx) (cfg_governance c) = Inr ()"
    "accounts w (rm_allowed_signer a) = Some (AllowedSignerAccount s)"
    "create_program_address rt [ALLOWED_SIGNER_SEED, as_signer s, [as_bump s]] ATTESTOR_REGISTRY
       = Some (rm_allowed_signer a)"
    "w' = w\<lparr>accounts := (accounts w)(rm_allowed_signer a := None)\<rparr>"
  using assms that
  by (auto simp: remove_allowed_signer_def RemoveAllowedSigner_accounts_def result)

lemma set_governance_Inr:
  assumes "set_governance rt tx a g w = Inr (w', ev)"
  obtains c where
    "load_config rt w (sg_config a) = Inr c"
    "require_squads_governance_cpi (tx_sysvar tx) (cfg_governance c) = Inr ()"
    "g \<noteq> default_pubkey"
    "w' = w\<lparr>accounts := (accounts w)(sg_config a \<mapsto> ConfigAccount (c\<lparr>cfg_governance := g\<rparr>))\<rparr>"
  using assms that by (auto simp: set_governance_def result)

end
