(* ===== verification/Token_Progress.thy ===== *)
theory Token_Progress
  imports Runtime
begin

text \<open>
  When the token program accepts an instruction.  The laws of theory Runtime say what a
  successful transfer or burn does; \<open>spl_progress\<close> says, from the documentation of the token
  program, which transfers and burns succeed.  Theorems that an instruction of the escrow
  succeeds take it as a hypothesis.
\<close>

text \<open>A token account of the mint that is not frozen.\<close>

definition usable :: "token_state \<Rightarrow> pubkey \<Rightarrow> pubkey \<Rightarrow> bool" where
  "usable ts m k = (case tok_accounts ts k of None \<Rightarrow> False | Some ta \<Rightarrow> ta_mint ta = m \<and> \<not> ta_frozen ta)"

definition owned_by :: "token_state \<Rightarrow> pubkey \<Rightarrow> pubkey \<Rightarrow> bool" where
  "owned_by ts g k = (case tok_accounts ts k of None \<Rightarrow> False | Some ta \<Rightarrow> ta_owner ta = g)"

text \<open>
  When the token program accepts a transfer: both accounts are usable, the owner signs, the
  decimals are the mint's, the sender has the amount and the receiver has room for it.
\<close>

definition can_transfer :: "token_state \<Rightarrow> pubkey \<Rightarrow> pubkey \<Rightarrow> pubkey \<Rightarrow> pubkey \<Rightarrow> u64 \<Rightarrow> u8 \<Rightarrow> bool" where
  "can_transfer ts from_key m to_key auth amount decs \<longleftrightarrow>
     usable ts m from_key \<and> usable ts m to_key \<and> owned_by ts auth from_key
     \<and> map_option mint_decimals (tok_mints ts m) = Some decs
     \<and> unat amount \<le> balance ts from_key \<and> balance ts to_key + unat amount < 2 ^ 64"

text \<open>Likewise for burning: the account is usable, its owner signs, account and supply have the amount.\<close>

definition can_burn :: "token_state \<Rightarrow> pubkey \<Rightarrow> pubkey \<Rightarrow> pubkey \<Rightarrow> u64 \<Rightarrow> bool" where
  "can_burn ts m from_key auth amount \<longleftrightarrow>
     usable ts m from_key \<and> owned_by ts auth from_key
     \<and> unat amount \<le> balance ts from_key \<and> tok_mints ts m \<noteq> None \<and> unat amount \<le> supply_of ts m"

definition spl_progress :: "runtime \<Rightarrow> bool" where
  "spl_progress rt \<longleftrightarrow>
     (\<forall>ts from_key m to_key auth amount decs. can_transfer ts from_key m to_key auth amount decs
        \<longrightarrow> spl_transfer_checked rt ts from_key m to_key auth amount decs \<noteq> None)
     \<and> (\<forall>ts m from_key auth amount. can_burn ts m from_key auth amount
        \<longrightarrow> spl_burn rt ts m from_key auth amount \<noteq> None)"

lemma transfer_progress:
  assumes "spl_progress rt" and "cpi_signed rt tx seeds auth"
    and "can_transfer ts from_key m to_key auth amount decs"
  obtains ts' where "transfer_checked rt tx seeds ts from_key m to_key auth amount decs = Inr ts'"
proof -
  obtain ts' where "spl_transfer_checked rt ts from_key m to_key auth amount decs = Some ts'"
    using assms(1,3) unfolding spl_progress_def by blast
  with assms(2) show ?thesis by (intro that [of ts']) (simp add: transfer_checked_def)
qed

lemma transfer_keeps_usable:
  assumes "spl_token_laws rt" and "transfer_checked rt tx seeds ts from_key m to_key auth amount decs = Inr ts'"
  shows "usable ts' m' k = usable ts m' k" and "owned_by ts' g k = owned_by ts g k"
  using assms
  by (auto elim!: transfer_checked_Inr simp: usable_def owned_by_def moved_def split: if_splits option.splits)

lemma burn_progress:
  assumes "spl_progress rt" and "cpi_signed rt tx seeds auth" and "can_burn ts m from_key auth amount"
  obtains ts' where "burn rt tx seeds ts m from_key auth amount = Inr ts'"
proof -
  obtain ts' where "spl_burn rt ts m from_key auth amount = Some ts'"
    using assms(1,3) unfolding spl_progress_def by blast
  with assms(2) show ?thesis by (intro that [of ts']) (simp add: burn_def)
qed

lemma burn_keeps_usable:
  assumes "spl_token_laws rt" and "burn rt tx seeds ts m from_key auth amount = Inr ts'"
  shows "usable ts' m' k = usable ts m' k" and "owned_by ts' g k = owned_by ts g k"
    and "map_option mint_decimals (tok_mints ts' m') = map_option mint_decimals (tok_mints ts m')"
  using assms by (auto elim!: burn_Inr simp: usable_def owned_by_def split: if_splits option.splits)

text \<open>Two payments out of one account, one after the other.\<close>

lemma second_transfer:
  assumes law: "spl_token_laws rt" and t: "transfer_checked rt tx [] ts from_key m k1 auth x decs = Inr ts1"
    and use: "usable ts m from_key" "usable ts m k2" "owned_by ts auth from_key"
    and mint: "map_option mint_decimals (tok_mints ts m) = Some decs"
    and funds: "unat x + unat y \<le> balance ts from_key" and room: "balance ts k2 + unat x + unat y < 2 ^ 64"
  shows "can_transfer ts1 from_key m k2 auth y decs"
proof -
  note E = transfer_effect [OF law t]
  have "unat y \<le> balance ts1 from_key" using E(4) [of from_key] funds by (simp split: if_splits)
  moreover have "balance ts1 k2 + unat y < 2 ^ 64" using E(4) [of k2] room by (simp split: if_splits)
  ultimately show ?thesis
    unfolding can_transfer_def transfer_keeps_usable [OF law t] E(2) using use mint by blast
qed

end
