(* ===== verification/Reference_Runtime.thy ===== *)
theory Reference_Runtime
  imports Governance Settlement Attestor_Registry Token_Progress
begin

text \<open>
  A concrete runtime on which every law the programs rely on holds: an injective address
  derivation and a token program that performs the checks of SPL Token.  It shows that the laws
  are consistent, and concrete transactions are evaluated on it (theory Example_Run).
\<close>

section \<open>Address derivation\<close>

text \<open>
  An injective function of the program id and the concatenated seeds; \<open>enc_seed\<close> is a
  self-delimiting encoding.
\<close>

fun enc_seed :: "bytes \<Rightarrow> bytes" where
  "enc_seed [] = [0]"
| "enc_seed (x # xs) = 1 # x # enc_seed xs"

lemma enc_seed_append_inj:
  "enc_seed s @ x = enc_seed s' @ y \<Longrightarrow> s = s' \<and> x = y"
proof (induction s arbitrary: s')
  case Nil
  then show ?case by (cases s') auto
next
  case (Cons b s)
  then show ?case by (cases s') auto
qed

text \<open>
  The pool of the example has a 32-byte address (the signed message holds it); every other
  derived address starts with the byte 5.
\<close>

definition usdc :: pubkey where "usdc = replicate 32 1"
definition pool_key :: pubkey where "pool_key = replicate 32 7"

definition ref_create :: "bytes list \<Rightarrow> pubkey \<Rightarrow> pubkey option" where
  "ref_create seeds prog =
     Some (if prog = ESCROW \<and> concat seeds = POOL_SEED @ usdc @ [255] then pool_key
           else 5 # enc_seed prog @ concat seeds)"

definition ref_find :: "bytes list \<Rightarrow> pubkey \<Rightarrow> pubkey \<times> u8" where
  "ref_find seeds prog = (the (ref_create (seeds @ [[255]]) prog), 255)"

definition ref_ata :: "pubkey \<Rightarrow> pubkey \<Rightarrow> pubkey" where
  "ref_ata owner m = 6 # enc_seed owner @ m"

section \<open>Token program\<close>

definition ref_transfer_checked ::
  "token_state \<Rightarrow> pubkey \<Rightarrow> pubkey \<Rightarrow> pubkey \<Rightarrow> pubkey \<Rightarrow> u64 \<Rightarrow> u8 \<Rightarrow> token_state option" where
  "ref_transfer_checked ts from_key mint_key to_key auth amount decs =
     (case (tok_accounts ts from_key, tok_accounts ts to_key, tok_mints ts mint_key) of
        (Some fa, Some ta, Some m) \<Rightarrow>
          if ta_mint fa = mint_key \<and> ta_mint ta = mint_key \<and> ta_owner fa = auth
             \<and> \<not> ta_frozen fa \<and> \<not> ta_frozen ta \<and> mint_decimals m = decs
             \<and> unat amount \<le> unat (ta_amount fa)
             \<and> (from_key = to_key \<or> unat (ta_amount ta) + unat amount < 2 ^ 64)
          then Some (ts\<lparr>tok_accounts := moved (tok_accounts ts) from_key fa to_key ta amount\<rparr>)
          else None
      | _ \<Rightarrow> None)"

definition ref_mint_to :: "token_state \<Rightarrow> pubkey \<Rightarrow> pubkey \<Rightarrow> pubkey \<Rightarrow> u64 \<Rightarrow> token_state option" where
  "ref_mint_to ts mint_key to_key auth amount =
     (case (tok_mints ts mint_key, tok_accounts ts to_key) of
        (Some m, Some ta) \<Rightarrow>
          if ta_mint ta = mint_key \<and> mint_authority m = Some auth \<and> \<not> ta_frozen ta
             \<and> unat (mint_supply m) + unat amount < 2 ^ 64
             \<and> unat (ta_amount ta) + unat amount < 2 ^ 64
          then Some (ts\<lparr>tok_accounts := (tok_accounts ts)(to_key \<mapsto> ta\<lparr>ta_amount := ta_amount ta + amount\<rparr>),
                        tok_mints := (tok_mints ts)(mint_key \<mapsto> m\<lparr>mint_supply := mint_supply m + amount\<rparr>)\<rparr>)
          else None
      | _ \<Rightarrow> None)"

definition ref_burn :: "token_state \<Rightarrow> pubkey \<Rightarrow> pubkey \<Rightarrow> pubkey \<Rightarrow> u64 \<Rightarrow> token_state option" where
  "ref_burn ts mint_key from_key auth amount =
     (case (tok_mints ts mint_key, tok_accounts ts from_key) of
        (Some m, Some fa) \<Rightarrow>
          if ta_mint fa = mint_key \<and> ta_owner fa = auth \<and> \<not> ta_frozen fa
             \<and> unat amount \<le> unat (ta_amount fa) \<and> unat amount \<le> unat (mint_supply m)
          then Some (ts\<lparr>tok_accounts := (tok_accounts ts)(from_key \<mapsto> fa\<lparr>ta_amount := ta_amount fa - amount\<rparr>),
                        tok_mints := (tok_mints ts)(mint_key \<mapsto> m\<lparr>mint_supply := mint_supply m - amount\<rparr>)\<rparr>)
          else None
      | _ \<Rightarrow> None)"

definition ref_init_mint :: "token_state \<Rightarrow> pubkey \<Rightarrow> u8 \<Rightarrow> pubkey \<Rightarrow> token_state option" where
  "ref_init_mint ts k decs auth =
     (if tok_mints ts k = None \<and> tok_accounts ts k = None
      then Some (ts\<lparr>tok_mints := (tok_mints ts)(k \<mapsto>
             \<lparr>mint_decimals = decs, mint_supply = 0, mint_authority = Some auth\<rparr>)\<rparr>)
      else None)"

definition ref_init_account :: "token_state \<Rightarrow> pubkey \<Rightarrow> pubkey \<Rightarrow> pubkey \<Rightarrow> token_state option" where
  "ref_init_account ts k m auth =
     (if tok_mints ts k = None \<and> tok_accounts ts k = None
      then Some (ts\<lparr>tok_accounts := (tok_accounts ts)(k \<mapsto>
             \<lparr>ta_mint = m, ta_owner = auth, ta_amount = 0, ta_frozen = False\<rparr>)\<rparr>)
      else None)"

definition ref_runtime :: runtime where
  "ref_runtime =
     \<lparr> find_program_address = ref_find, create_program_address = ref_create,
       get_associated_token_address = ref_ata,
       spl_transfer_checked = ref_transfer_checked, spl_mint_to = ref_mint_to, spl_burn = ref_burn,
       spl_init_mint = ref_init_mint, spl_init_account = ref_init_account \<rparr>"

section \<open>The laws hold\<close>

lemma ref_spl_token_laws: "spl_token_laws ref_runtime"
  unfolding spl_token_laws_def
proof (intro conjI)
  show "spl_transfer_law ref_runtime"
    by (auto simp: spl_transfer_law_def ref_runtime_def ref_transfer_checked_def
        split: option.splits if_splits)
  show "spl_mint_law ref_runtime"
    by (auto simp: spl_mint_law_def ref_runtime_def ref_mint_to_def split: option.splits if_splits)
  show "spl_burn_law ref_runtime"
    by (auto simp: spl_burn_law_def ref_runtime_def ref_burn_def split: option.splits if_splits)
  show "spl_init_law ref_runtime"
    by (auto simp: spl_init_law_def ref_runtime_def ref_init_mint_def ref_init_account_def
        split: if_splits)
qed

lemma ref_spl_progress: "spl_progress ref_runtime"
  unfolding spl_progress_def
  by (auto simp: ref_runtime_def can_transfer_def can_burn_def usable_def owned_by_def ref_transfer_checked_def
      ref_burn_def balance_def supply_of_def split: option.splits)

lemma ref_pda_find_law: "pda_find_law ref_runtime"
  by (simp add: pda_find_law_def ref_runtime_def ref_find_def ref_create_def)

lemma pool_key_not_derived: "pool_key \<noteq> 5 # xs" "5 # xs \<noteq> pool_key"
  by (auto simp: pool_key_def Cons_replicate_eq dest: sym [of "replicate 32 7"])

lemma ref_pda_collision_free: "pda_collision_free ref_runtime"
  unfolding pda_collision_free_def ref_runtime_def ref_create_def
  by (auto simp: pool_key_not_derived split: if_splits dest: enc_seed_append_inj)

end
