(* ===== verification/Example_Run.thy ===== *)
theory Example_Run
  imports Reference_Runtime
begin

text \<open>
  Concrete transactions on the reference runtime: one pool is created, funded by an LP, issues
  an advance against a signed attestation, and the advance is settled or liquidated; protocol
  fees are skimmed and parameters changed under governance.  Each state is the result of running
  the model; the theorems' hypotheses are discharged on these states.
\<close>

section \<open>Actors\<close>

definition deployer :: pubkey where "deployer = replicate 32 2"
definition share_mint :: pubkey where "share_mint = replicate 32 8"
definition vault :: pubkey where "vault = replicate 32 9"
definition treasury :: pubkey where "treasury = replicate 32 10"
definition squads_vault :: pubkey where "squads_vault = replicate 32 11"
definition agent :: pubkey where "agent = replicate 32 12"
definition alice :: pubkey where "alice = replicate 32 13"
definition alice_usdc :: pubkey where "alice_usdc = replicate 32 14"
definition alice_shares :: pubkey where "alice_shares = replicate 32 15"
definition bridge :: pubkey where "bridge = replicate 32 16"
definition receivable :: bytes where "receivable = replicate 32 17"
definition nonce16 :: bytes where "nonce16 = replicate 16 18"

definition no_instructions :: instructions_sysvar where
  "no_instructions = \<lparr>sv_current_index = Some 0, sv_load_at = (\<lambda>_. None)\<rparr>"

definition tx_of :: "pubkey list \<Rightarrow> i64 \<Rightarrow> transaction" where
  "tx_of signers now = \<lparr>tx_signers = signers, tx_now = now, tx_sysvar = no_instructions\<rparr>"

definition token_account :: "pubkey \<Rightarrow> pubkey \<Rightarrow> u64 \<Rightarrow> TokenAccount" where
  "token_account m owner amount = \<lparr>ta_mint = m, ta_owner = owner, ta_amount = amount, ta_frozen = False\<rparr>"

definition example_curve :: FeeCurve where
  "example_curve = \<lparr>utilization_kink_bps = 8000, base_rate_bps = 200, kink_rate_bps = 800,
     max_rate_bps = 5000, duration_per_day_bps = 10, risk_premium_bps = 100,
     pool_loss_surcharge_bps = 0\<rparr>"

definition example_params :: InitPoolParams where
  "example_params = \<lparr>ipp_fee_curve = example_curve, ipp_max_advance_pct_bps = 3000,
     ipp_max_advance_abs = 500000000, ipp_timelock_seconds = 86400, ipp_governance = squads_vault,
     ipp_treasury_ata = treasury, ipp_chain_id = 2, ipp_agent_window_cap = 1000000000\<rparr>"

definition init_accounts :: InitPool where
  "init_accounts = \<lparr>ip_deployer = deployer, ip_pool = pool_key, ip_asset_mint = usdc,
     ip_share_mint = share_mint, ip_usdc_vault = vault\<rparr>"

section \<open>Instructions beside the escrow's\<close>

definition plain_ix :: "pubkey \<Rightarrow> bytes \<Rightarrow> Instruction" where
  "plain_ix prog data = \<lparr>ix_program_id = prog, ix_accounts = [], ix_data = data\<rparr>"

definition sysvar_of :: "Instruction \<Rightarrow> instructions_sysvar" where
  "sysvar_of first = \<lparr>sv_current_index = Some 1,
     sv_load_at = (\<lambda>i. if i = 0 then Some first else if i = 1 then Some (plain_ix ESCROW []) else None)\<rparr>"

definition attestation_input :: CreditAttestationInput where
  "attestation_input = \<lparr>agentPubkey = agent, poolPubkey = pool_key, creditLimitAtoms = 400000000,
     outstandingAtoms = 50000000, expiresAt = 865300, attestedAt = 900, in_nonce = nonce16, chainId = 2\<rparr>"

text \<open>One entry, every index 0; signature at 16, key at 80, message at 112.\<close>

definition ed25519_data :: "pubkey \<Rightarrow> bytes \<Rightarrow> bytes \<Rightarrow> bytes" where
  "ed25519_data pk msg sig =
     [1, 0, 16, 0, 0, 0, 80, 0, 0, 0, 112, 0, 128, 0, 0, 0] @ sig @ pk @ msg"

definition attestation_sysvar :: instructions_sysvar where
  "attestation_sysvar = sysvar_of (plain_ix ED25519
     (ed25519_data bridge (the (encodeAttestation attestation_input)) (replicate 64 19)))"

definition memo_sysvar :: instructions_sysvar where
  "memo_sysvar = sysvar_of (plain_ix MEMO nonce16)"

definition squads_sysvar :: instructions_sysvar where
  "squads_sysvar = sysvar_of \<lparr>ix_program_id = SQUADS_V4,
     ix_accounts = [\<lparr>meta_pubkey = squads_vault, meta_is_signer = False, meta_is_writable = True\<rparr>],
     ix_data = []\<rparr>"

definition tx_with :: "pubkey list \<Rightarrow> i64 \<Rightarrow> instructions_sysvar \<Rightarrow> transaction" where
  "tx_with signers now sv = \<lparr>tx_signers = signers, tx_now = now, tx_sysvar = sv\<rparr>"

section \<open>Addresses\<close>

definition config_key :: pubkey where
  "config_key = fst (ref_find [ATTESTOR_CONFIG_SEED] ATTESTOR_REGISTRY)"

definition signer_key :: pubkey where
  "signer_key = fst (ref_find [ALLOWED_SIGNER_SEED, bridge] ATTESTOR_REGISTRY)"

definition advance_key :: pubkey where
  "advance_key = fst (ref_find [ADVANCE_SEED, pool_key, agent, receivable] ESCROW)"

definition consumed_key :: pubkey where
  "consumed_key = fst (ref_find [CONSUMED_SEED, pool_key, agent, receivable] ESCROW)"

definition ledger_key :: pubkey where
  "ledger_key = fst (ref_find [ISSUANCE_LEDGER_SEED, pool_key, agent] ESCROW)"

definition tombstone_key :: pubkey where
  "tombstone_key = fst (ref_find [LIQUIDATION_TOMBSTONE_SEED, pool_key, agent, receivable] ESCROW)"

definition agent_usdc :: pubkey where
  "agent_usdc = ref_ata agent usdc"

section \<open>Worlds\<close>

definition usdc_mint :: Mint where
  "usdc_mint = \<lparr>mint_decimals = 6, mint_supply = 6000000000, mint_authority = None\<rparr>"

text \<open>Balances of treasury, Alice, the agent, the vault and Alice's shares; the share supply.\<close>

definition example_tokens :: "u64 \<Rightarrow> u64 \<Rightarrow> u64 \<Rightarrow> u64 \<Rightarrow> u64 \<Rightarrow> token_state" where
  "example_tokens t al ag v sh = \<lparr>
     tok_accounts = [treasury \<mapsto> token_account usdc squads_vault t,
                     alice_usdc \<mapsto> token_account usdc alice al,
                     agent_usdc \<mapsto> token_account usdc agent ag,
                     vault \<mapsto> token_account usdc pool_key v,
                     alice_shares \<mapsto> token_account share_mint alice sh],
     tok_mints = [usdc \<mapsto> usdc_mint,
                  share_mint \<mapsto> \<lparr>mint_decimals = 6, mint_supply = sh, mint_authority = Some pool_key\<rparr>]\<rparr>"

definition example_config :: AttestorConfig where
  "example_config = \<lparr>cfg_bump = 255, cfg_governance = squads_vault\<rparr>"

definition example_signer :: AllowedSigner where
  "example_signer = \<lparr>as_bump = 255, as_signer = bridge, as_kind = 0, as_added_at = 200\<rparr>"

text \<open>Assets, shares, deployed, accrued fees.\<close>

definition example_pool :: "u64 \<Rightarrow> u64 \<Rightarrow> u64 \<Rightarrow> u64 \<Rightarrow> Pool" where
  "example_pool A S D F = \<lparr> pool_bump = 255, pool_asset_mint = usdc, pool_usdc_vault = vault,
     pool_share_mint = share_mint, pool_treasury_ata = treasury, pool_governance = squads_vault,
     total_assets = A, total_shares = S, deployed_amount = D, accrued_protocol_fees = F,
     fee_curve = example_curve, max_advance_pct_bps = 3000, max_advance_abs = 500000000,
     agent_window_cap = 1000000000, timelock_seconds = 86400, pool_chain_id = 2,
     pending_params = None \<rparr>"

definition example_advance :: Advance where
  "example_advance = \<lparr> adv_bump = 255, adv_agent = agent, adv_receivable_id = receivable,
     principal = 300000000, fee_owed = 9000000, late_penalty_per_day = 300000, issued_at = 1000,
     adv_expires_at = 865300, adv_attestor = bridge, adv_state = Issued \<rparr>"

definition example_consumed :: ConsumedPayment where
  "example_consumed = \<lparr> cp_bump = 255, cp_nonce = nonce16, cp_agent = agent, cp_created_at = 1000 \<rparr>"

definition example_ledger :: "u64 \<Rightarrow> AgentIssuanceLedger" where
  "example_ledger live = \<lparr> led_bump = 255, led_agent = agent, led_pool = pool_key,
     window_start = 1000, issued_in_window = 300000000, live_principal = live \<rparr>"

definition genesis :: world where
  "genesis = \<lparr>accounts = Map.empty,
     tokens = \<lparr>
       tok_accounts = [treasury \<mapsto> token_account usdc squads_vault 0,
                       alice_usdc \<mapsto> token_account usdc alice 5000000000,
                       agent_usdc \<mapsto> token_account usdc agent 1000000000],
       tok_mints = [usdc \<mapsto> usdc_mint]\<rparr>\<rparr>"

definition world_registry :: world where
  "world_registry = genesis\<lparr>accounts := [config_key \<mapsto> ConfigAccount example_config]\<rparr>"

definition world_signer :: world where
  "world_signer = genesis\<lparr>accounts := [config_key \<mapsto> ConfigAccount example_config,
     signer_key \<mapsto> AllowedSignerAccount example_signer]\<rparr>"

definition world_pool :: world where
  "world_pool = \<lparr>accounts = [config_key \<mapsto> ConfigAccount example_config,
       signer_key \<mapsto> AllowedSignerAccount example_signer,
       pool_key \<mapsto> PoolAccount (example_pool 0 0 0 0)],
     tokens = \<lparr>
       tok_accounts = [treasury \<mapsto> token_account usdc squads_vault 0,
                       alice_usdc \<mapsto> token_account usdc alice 5000000000,
                       agent_usdc \<mapsto> token_account usdc agent 1000000000,
                       vault \<mapsto> token_account usdc pool_key 0],
       tok_mints = [usdc \<mapsto> usdc_mint,
                    share_mint \<mapsto> \<lparr>mint_decimals = 6, mint_supply = 0, mint_authority = Some pool_key\<rparr>]\<rparr>\<rparr>"

text \<open>Alice has opened a token account for shares, outside the programs.\<close>

definition world_empty :: world where
  "world_empty = world_pool\<lparr>tokens := example_tokens 0 5000000000 1000000000 0 0\<rparr>"

definition world_funded :: world where
  "world_funded = \<lparr>accounts = [config_key \<mapsto> ConfigAccount example_config,
       signer_key \<mapsto> AllowedSignerAccount example_signer,
       pool_key \<mapsto> PoolAccount (example_pool 2000000000 2000000000000 0 0)],
     tokens = example_tokens 0 3000000000 1000000000 2000000000 2000000000000\<rparr>"

definition world_issued :: world where
  "world_issued = \<lparr>accounts = [config_key \<mapsto> ConfigAccount example_config,
       signer_key \<mapsto> AllowedSignerAccount example_signer,
       pool_key \<mapsto> PoolAccount (example_pool 2000000000 2000000000000 300000000 0),
       advance_key \<mapsto> AdvanceAccount example_advance,
       consumed_key \<mapsto> ConsumedAccount example_consumed,
       ledger_key \<mapsto> LedgerAccount (example_ledger 300000000)],
     tokens = example_tokens 0 3000000000 1300000000 1700000000 2000000000000\<rparr>"

definition world_settled :: world where
  "world_settled = \<lparr>accounts = [config_key \<mapsto> ConfigAccount example_config,
       signer_key \<mapsto> AllowedSignerAccount example_signer,
       pool_key \<mapsto> PoolAccount (example_pool 2007650000 2000000000000 0 1350000),
       consumed_key \<mapsto> ConsumedAccount example_consumed,
       ledger_key \<mapsto> LedgerAccount (example_ledger 0)],
     tokens = example_tokens 1350000 3000000000 991000000 2007650000 2000000000000\<rparr>"

definition world_liquidated :: world where
  "world_liquidated = \<lparr>accounts = [config_key \<mapsto> ConfigAccount example_config,
       signer_key \<mapsto> AllowedSignerAccount example_signer,
       pool_key \<mapsto> PoolAccount (example_pool 1700000000 2000000000000 0 0),
       consumed_key \<mapsto> ConsumedAccount example_consumed,
       ledger_key \<mapsto> LedgerAccount (example_ledger 0),
       tombstone_key \<mapsto> TombstoneAccount \<lparr>tomb_bump = 255, tomb_agent = agent,
         tomb_principal = 300000000, tomb_expires_at = 865300, tomb_liquidated_at = 2074900\<rparr>],
     tokens = example_tokens 0 3000000000 1300000000 1700000000 2000000000000\<rparr>"

definition world_skimmed :: world where
  "world_skimmed = \<lparr>accounts = [config_key \<mapsto> ConfigAccount example_config,
       signer_key \<mapsto> AllowedSignerAccount example_signer,
       pool_key \<mapsto> PoolAccount (example_pool 2007650000 2000000000000 0 0),
       consumed_key \<mapsto> ConsumedAccount example_consumed,
       ledger_key \<mapsto> LedgerAccount (example_ledger 0)],
     tokens = example_tokens 2700000 3000000000 991000000 2006300000 2000000000000\<rparr>"

section \<open>Transactions\<close>

definition tx_init_registry :: transaction where "tx_init_registry = tx_of [deployer] 100"
definition tx_governance :: transaction where "tx_governance = tx_with [deployer] 200 squads_sysvar"
definition tx_init_pool :: transaction where "tx_init_pool = tx_of [deployer, share_mint, vault] 300"
definition tx_alice :: transaction where "tx_alice = tx_of [alice] 400"
definition tx_request :: transaction where "tx_request = tx_with [agent] 1000 attestation_sysvar"
definition tx_settle :: transaction where "tx_settle = tx_with [agent] 865200 memo_sysvar"
definition tx_execute :: transaction where "tx_execute = tx_of [alice] 90000"
definition tx_liquidate :: transaction where "tx_liquidate = tx_of [alice] 2074900"

definition acc_init_registry :: InitRegistry where
  "acc_init_registry = \<lparr>ir_deployer = deployer, ir_config = config_key\<rparr>"

definition acc_add_signer :: AddAllowedSigner where
  "acc_add_signer = \<lparr>aa_cranker = deployer, aa_config = config_key, aa_allowed_signer = signer_key\<rparr>"

definition acc_remove_signer :: RemoveAllowedSigner where
  "acc_remove_signer = \<lparr>rm_cranker = deployer, rm_config = config_key, rm_allowed_signer = signer_key\<rparr>"

definition acc_set_governance :: SetGovernance where
  "acc_set_governance = \<lparr>sg_cranker = deployer, sg_config = config_key\<rparr>"

definition acc_deposit :: Deposit where
  "acc_deposit = \<lparr>lp = alice, lp_pool = pool_key, lp_usdc_vault = vault, lp_usdc_ata = alice_usdc,
     lp_share_mint = share_mint, lp_share_ata = alice_shares, lp_usdc_mint = usdc\<rparr>"

definition acc_request :: RequestAdvance where
  "acc_request = \<lparr>ra_agent = agent, ra_allowed_signer = signer_key, ra_pool = pool_key,
     ra_advance = advance_key, ra_consumed = consumed_key, ra_issuance_ledger = ledger_key,
     ra_pool_usdc_vault = vault, ra_agent_usdc_ata = agent_usdc, ra_usdc_mint = usdc\<rparr>"

definition acc_settle :: ClaimAndSettle where
  "acc_settle = \<lparr>cs_agent = agent, cs_advance = advance_key, cs_consumed = consumed_key,
     cs_issuance_ledger = ledger_key, cs_pool = pool_key, cs_pool_usdc_vault = vault,
     cs_agent_usdc_ata = agent_usdc, cs_protocol_treasury_ata = treasury, cs_usdc_mint = usdc\<rparr>"

definition acc_liquidate :: Liquidate where
  "acc_liquidate = \<lparr>lq_cranker = alice, lq_advance = advance_key, lq_consumed = consumed_key,
     lq_issuance_ledger = ledger_key, lq_tombstone = tombstone_key, lq_pool = pool_key\<rparr>"

definition acc_skim :: SkimProtocolFees where
  "acc_skim = \<lparr>sk_cranker = deployer, sk_governance = squads_vault, sk_pool = pool_key,
     sk_pool_usdc_vault = vault, sk_recipient_ata = treasury, sk_usdc_mint = usdc\<rparr>"

definition acc_propose :: ProposeParams where
  "acc_propose = \<lparr>pr_cranker = deployer, pr_governance = squads_vault, pr_pool = pool_key\<rparr>"

definition acc_execute :: ExecuteParams where
  "acc_execute = \<lparr>ex_cranker = alice, ex_pool = pool_key\<rparr>"

definition example_pending :: PendingParams where
  "example_pending = \<lparr>pp_fee_curve = example_curve, pp_max_advance_pct_bps = 2000,
     pp_max_advance_abs = 600000000, pp_agent_window_cap = 900000000, pp_execute_after = 0\<rparr>"

section \<open>Evaluation\<close>

lemma keys_distinct:
  "distinct [deployer, share_mint, vault, treasury, squads_vault, agent, alice, alice_usdc, alice_shares,
     bridge, usdc, pool_key, config_key, signer_key, advance_key, consumed_key, ledger_key, tombstone_key,
     agent_usdc]"
  by code_simp

lemma keys_distinct_rev:
  "distinct (rev [deployer, share_mint, vault, treasury, squads_vault, agent, alice, alice_usdc, alice_shares,
     bridge, usdc, pool_key, config_key, signer_key, advance_key, consumed_key, ledger_key, tombstone_key,
     agent_usdc])"
  using keys_distinct by (simp only: distinct_rev)

lemmas keys_neq [simp] = keys_distinct [simplified]
  keys_distinct_rev [unfolded rev.simps append.simps, simplified]

lemmas tx_defs = tx_of_def tx_with_def tx_init_registry_def tx_governance_def tx_init_pool_def tx_alice_def
  tx_request_def tx_settle_def tx_liquidate_def tx_execute_def

lemmas ref_token_defs = transfer_checked_def mint_to_def burn_def cpi_signed_def ref_runtime_def
  ref_transfer_checked_def ref_mint_to_def ref_burn_def ref_init_mint_def ref_init_account_def
  example_tokens_def token_account_def moved_def usdc_mint_def

lemmas word_op_defs = checked_add_def checked_sub_def checked_mul_def checked_div_def u64_try_from_def
  as_u128_def as_u64_def i64_checked_add_def i64_fits_def saturating_mul_def saturating_sub_def min_def

lemma and_then_weak_cong: "m = m' \<Longrightarrow> and_then m f = and_then m' f"
  by simp

lemma tx_fields [simp]:
  "tx_now tx_settle = 865200" "tx_sysvar tx_settle = memo_sysvar"
  "tx_now tx_request = 1000" "tx_sysvar tx_request = attestation_sysvar"
  "tx_now tx_governance = 200" "tx_sysvar tx_governance = squads_sysvar"
  "tx_now tx_liquidate = 2074900" "tx_now tx_init_registry = 100"
  "tx_now tx_execute = 90000"
  by (simp_all add: tx_defs)

lemma acc_fields [simp]:
  "cs_agent acc_settle = agent" "cs_advance acc_settle = advance_key"
  "cs_issuance_ledger acc_settle = ledger_key" "cs_pool acc_settle = pool_key"
  "cs_pool_usdc_vault acc_settle = vault" "cs_agent_usdc_ata acc_settle = agent_usdc"
  "cs_protocol_treasury_ata acc_settle = treasury" "cs_usdc_mint acc_settle = usdc"
  "ir_config acc_init_registry = config_key" "aa_allowed_signer acc_add_signer = signer_key"
  "rm_allowed_signer acc_remove_signer = signer_key"
  "ip_pool init_accounts = pool_key" "ip_asset_mint init_accounts = usdc"
  "ip_share_mint init_accounts = share_mint" "ip_usdc_vault init_accounts = vault"
  "lp acc_deposit = alice" "lp_pool acc_deposit = pool_key" "lp_usdc_vault acc_deposit = vault"
  "lp_usdc_ata acc_deposit = alice_usdc" "lp_share_mint acc_deposit = share_mint"
  "lp_share_ata acc_deposit = alice_shares" "lp_usdc_mint acc_deposit = usdc"
  "ra_agent acc_request = agent" "ra_pool acc_request = pool_key" "ra_advance acc_request = advance_key"
  "ra_consumed acc_request = consumed_key" "ra_issuance_ledger acc_request = ledger_key"
  "ra_pool_usdc_vault acc_request = vault" "ra_agent_usdc_ata acc_request = agent_usdc"
  "ra_usdc_mint acc_request = usdc" "ra_allowed_signer acc_request = signer_key"
  "lq_advance acc_liquidate = advance_key" "lq_issuance_ledger acc_liquidate = ledger_key"
  "lq_pool acc_liquidate = pool_key" "lq_tombstone acc_liquidate = tombstone_key"
  "sk_pool acc_skim = pool_key" "sk_pool_usdc_vault acc_skim = vault"
  "sk_recipient_ata acc_skim = treasury" "sk_usdc_mint acc_skim = usdc"
  "pr_pool acc_propose = pool_key" "ex_pool acc_execute = pool_key"
  by (simp_all add: acc_settle_def acc_init_registry_def acc_add_signer_def acc_remove_signer_def
      init_accounts_def acc_deposit_def acc_request_def acc_liquidate_def acc_skim_def acc_propose_def
      acc_execute_def)

lemma example_fields [simp]:
  "adv_expires_at example_advance = 865300" "principal example_advance = 300000000"
  "adv_agent example_advance = agent"
  "cp_nonce example_consumed = nonce16" "mint_decimals usdc_mint = 6"
  "live_principal (example_ledger x) = x"
  "deployed_amount (example_pool A S D F) = D" "total_assets (example_pool A S D F) = A"
  "total_shares (example_pool A S D F) = S" "accrued_protocol_fees (example_pool A S D F) = F"
  "pool_bump (example_pool A S D F) = 255"
  "pool_governance (example_pool A S D F) = squads_vault"
  by (simp_all add: example_advance_def example_consumed_def usdc_mint_def example_ledger_def example_pool_def)

lemma world_tokens [simp]:
  "tokens world_issued = example_tokens 0 3000000000 1300000000 1700000000 2000000000000"
  "tokens world_settled = example_tokens 1350000 3000000000 991000000 2007650000 2000000000000"
  "tokens world_skimmed = example_tokens 2700000 3000000000 991000000 2006300000 2000000000000"
  "tokens world_empty = example_tokens 0 5000000000 1000000000 0 0"
  "tokens world_funded = example_tokens 0 3000000000 1000000000 2000000000 2000000000000"
  "tokens world_liquidated = example_tokens 0 3000000000 1300000000 1700000000 2000000000000"
  by (simp_all add: world_issued_def world_settled_def world_skimmed_def world_empty_def world_funded_def
      world_liquidated_def)

subsection \<open>Settlement\<close>

lemma settle_accounts_run:
  "ClaimAndSettle_accounts ref_runtime tx_settle acc_settle world_issued =
     Inr (example_advance, example_consumed, example_ledger 300000000,
          example_pool 2000000000 2000000000000 300000000 0, usdc_mint)"
  by code_simp

lemma late_days_run: "late_days_at 865200 865300 = Inr 0"
  by code_simp

lemma waterfall_run:
  "settlement_waterfall 865200 example_advance 400000000 =
     Inr \<lparr> wf_late_days = 0, wf_protocol_cut = 1350000, wf_lp_fee = 7650000, wf_lp_cut = 307650000,
           wf_agent_net = 91000000\<rparr>"
  by (simp add: settlement_waterfall_def example_advance_def late_days_run word_op_defs
      cong: and_then_weak_cong)

lemma memo_run: "require_memo_nonce memo_sysvar nonce16 = Inr ()"
  by code_simp

lemma settle_cut_run:
  "transfer_checked ref_runtime tx_settle [] (example_tokens 0 3000000000 1300000000 1700000000 2000000000000)
     agent_usdc usdc treasury agent 1350000 6
   = Inr (example_tokens 1350000 3000000000 1298650000 1700000000 2000000000000)"
  by (auto simp: ref_token_defs tx_defs)

lemma settle_lp_run:
  "transfer_checked ref_runtime tx_settle [] (example_tokens 1350000 3000000000 1298650000 1700000000 2000000000000)
     agent_usdc usdc vault agent 307650000 6
   = Inr (example_tokens 1350000 3000000000 991000000 2007650000 2000000000000)"
  by (auto simp: ref_token_defs tx_defs)

lemma settled_accounts_run:
  "((accounts world_issued)(
      ledger_key \<mapsto> LedgerAccount ((example_ledger 300000000)\<lparr>live_principal := 0\<rparr>),
      pool_key \<mapsto> PoolAccount ((example_pool 2000000000 2000000000000 300000000 0)
        \<lparr>deployed_amount := 0, total_assets := 2007650000, accrued_protocol_fees := 1350000\<rparr>)))(
      advance_key := None)
   = accounts world_settled"
  by (rule ext) (simp add: world_issued_def world_settled_def example_ledger_def example_pool_def)

lemma settle_runs:
  "claim_and_settle ref_runtime tx_settle acc_settle 400000000 world_issued =
     Inr (world_settled, AdvanceSettled pool_key agent advance_key 300000000 307650000 1350000 91000000 0)"
proof -
  have w: "world_settled = \<lparr>accounts = accounts world_settled, tokens = tokens world_settled\<rparr>" by simp
  show ?thesis
    by (subst w) (simp add: claim_and_settle_def settle_accounts_run claim_and_settle_handler_def Let_def
      word_op_defs memo_run waterfall_run settle_cut_run settle_lp_run settled_accounts_def settlement_payments_def
      settle_books_def
      settled_accounts_run [symmetric])
qed

subsection \<open>Liquidation\<close>

lemma liquidate_accounts_run:
  "Liquidate_accounts ref_runtime tx_liquidate acc_liquidate world_issued =
     Inr (example_advance, example_ledger 300000000, 255, example_pool 2000000000 2000000000000 300000000 0)"
  by code_simp

lemma liquidated_accounts_run:
  "((accounts world_issued)(
      ledger_key \<mapsto> LedgerAccount ((example_ledger 300000000)\<lparr>live_principal := 0\<rparr>),
      pool_key \<mapsto> PoolAccount ((example_pool 2000000000 2000000000000 300000000 0)
        \<lparr>deployed_amount := 0, total_assets := 1700000000\<rparr>),
      tombstone_key \<mapsto> TombstoneAccount \<lparr>tomb_bump = 255, tomb_agent = agent,
         tomb_principal = 300000000, tomb_expires_at = 865300, tomb_liquidated_at = 2074900\<rparr>))(
      advance_key := None)
   = accounts world_liquidated"
  by (rule ext) (simp add: world_issued_def world_liquidated_def example_ledger_def example_pool_def)

lemma liquidate_runs:
  "liquidate ref_runtime tx_liquidate acc_liquidate world_issued =
     Inr (world_liquidated, AdvanceLiquidated pool_key agent advance_key 300000000)"
proof -
  have w: "world_liquidated = world_issued\<lparr>accounts := accounts world_liquidated\<rparr>"
    by (simp add: world_issued_def world_liquidated_def)
  show ?thesis
    by (subst w) (simp add: liquidate_def liquidate_accounts_run liquidate_handler_def Let_def
      word_op_defs tombstone_of_def liquidated_accounts_run [symmetric])
qed

subsection \<open>Deposit\<close>

lemma deposit_accounts_run:
  "Deposit_accounts ref_runtime tx_alice acc_deposit world_empty =
     Inr (example_pool 0 0 0 0, token_account usdc pool_key 0, usdc_mint)"
  by code_simp

lemma deposit_quote_run: "preview_deposit 2000000000 0 0 = Inr 2000000000000"
  by (simp add: preview_deposit_eq shares_for_def)

lemma pool_signs: "cpi_signed ref_runtime tx [signer_seeds (example_pool A S D F) 255] pool_key"
  by (simp add: cpi_signed_def signer_seeds_def example_pool_def ref_runtime_def ref_create_def)

lemma deposit_transfer_run:
  "transfer_checked ref_runtime tx_alice [] (example_tokens 0 5000000000 1000000000 0 0)
     alice_usdc usdc vault alice 2000000000 6
   = Inr (example_tokens 0 3000000000 1000000000 2000000000 0)"
  by (auto simp: ref_token_defs tx_defs)

lemma deposit_mint_run:
  "mint_to ref_runtime tx_alice [signer_seeds (example_pool A S D F) 255]
     (example_tokens 0 3000000000 1000000000 2000000000 0) share_mint alice_shares pool_key 2000000000000
   = Inr (example_tokens 0 3000000000 1000000000 2000000000 2000000000000)"
  using pool_signs [of tx_alice A S D F]
  by (auto simp: mint_to_def ref_runtime_def ref_mint_to_def example_tokens_def token_account_def)

lemma funded_accounts_run:
  "(accounts world_empty)(pool_key \<mapsto> PoolAccount ((example_pool 0 0 0 0)
       \<lparr>total_assets := 2000000000, total_shares := 2000000000000\<rparr>))
   = accounts world_funded"
  by (rule ext) (simp add: world_empty_def world_pool_def world_funded_def example_pool_def)

lemma deposit_runs:
  "deposit ref_runtime tx_alice acc_deposit 2000000000 world_empty =
     Inr (world_funded, Deposited pool_key alice 2000000000 2000000000000)"
proof -
  have w: "world_funded = \<lparr>accounts = accounts world_funded, tokens = tokens world_funded\<rparr>" by simp
  show ?thesis
    by (subst w) (simp add: deposit_def deposit_accounts_run deposit_handler_def deposit_quote_run
      word_op_defs deposit_transfer_run deposit_mint_run funded_accounts_run [symmetric])
qed

subsection \<open>Issuance\<close>

definition request_ctx :: RequestAdvance_ctx where
  "request_ctx = \<lparr> rc_allowed_signer = example_signer, rc_pool = example_pool 2000000000 2000000000000 0 0,
     rc_advance_bump = 255, rc_consumed_bump = 255, rc_ledger = zeroed_ledger, rc_ledger_bump = 255,
     rc_usdc_mint = usdc_mint, rc_tokens = tokens world_funded \<rparr>"

lemma request_checks_run:
  "(load_account as_AllowedSigner world_funded signer_key :: escrow_error + AllowedSigner) = Inr example_signer"
  "(check_seeds ref_runtime ATTESTOR_REGISTRY [ALLOWED_SIGNER_SEED, bridge] 255 signer_key :: escrow_error + unit)
     = Inr ()"
  "load_pool ref_runtime world_funded pool_key = Inr (example_pool 2000000000 2000000000000 0 0)"
  "(init_pda ref_runtime ESCROW [ADVANCE_SEED, pool_key, agent, receivable] world_funded advance_key :: escrow_error + u8)
     = Inr 255"
  "(init_pda ref_runtime ESCROW [CONSUMED_SEED, pool_key, agent, receivable] world_funded consumed_key :: escrow_error + u8)
     = Inr 255"
  "ledger_if_needed ref_runtime world_funded pool_key agent ledger_key = Inr (zeroed_ledger, 255)"
  "(check_signer tx_request agent :: escrow_error + unit) = Inr ()"
  by code_simp+

lemma request_accounts_run:
  "RequestAdvance_accounts ref_runtime tx_request acc_request receivable world_funded = Inr request_ctx"
proof -
  have ata: "agent_ata_if_needed ref_runtime (tokens world_funded) agent usdc agent_usdc = Inr (tokens world_funded)"
    by (simp add: agent_ata_if_needed_def ref_runtime_def agent_usdc_def [symmetric] check_token_def
        example_tokens_def token_account_def)
  have tok: "load_token (tokens world_funded) vault = (Inr (token_account usdc pool_key 2000000000) :: escrow_error + _)"
    "load_mint (tokens world_funded) usdc = (Inr usdc_mint :: escrow_error + _)"
    by (simp_all add: load_token_def load_mint_def example_tokens_def)
  have sg: "as_signer example_signer = bridge" "as_bump example_signer = 255"
    "pool_usdc_vault (example_pool A S D F) = vault" "pool_asset_mint (example_pool A S D F) = usdc" for A S D F
    by (simp_all add: example_signer_def example_pool_def)
  show ?thesis
    by (simp add: RequestAdvance_accounts_def request_checks_run ata tok sg check_address_def request_ctx_def
        del: world_tokens cong: and_then_weak_cong)
qed

lemma attestation_run:
  "verify_attestation attestation_sysvar 1000 example_signer agent pool_key 2 nonce16 =
     Inr \<lparr> att_signer = bridge, att_credit_limit = 400000000, att_outstanding = 50000000,
           att_expires_at = 865300, att_attested_at = 900 \<rparr>"
  by code_simp

lemma roll_run:
  "roll_ledger 1000 255 agent pool_key 1000000000 300000000 zeroed_ledger = Inr (example_ledger 0)"
  by (simp add: roll_ledger_def init_ledger_fields_def reset_window_def charge_window_def word_op_defs
      zeroed_ledger_def example_ledger_def i64_saturating_sub_def)

lemma underwrite_run:
  "underwrite \<lparr> att_signer = bridge, att_credit_limit = 400000000, att_outstanding = 50000000,
       att_expires_at = 865300, att_attested_at = 900 \<rparr> 500000000 300000000 (example_ledger 0)
   = Inr (example_ledger 300000000)"
  by (simp add: underwrite_def word_op_defs example_ledger_def)

lemma utilization_run: "compute_utilization_bps (example_pool 2000000000 2000000000000 0 0) = Inr 0"
  by (simp add: compute_utilization_bps_def word_op_defs)

lemma fee_run: "compute_fee_amount 300000000 864300 0 0 example_curve = Inr 9000000"
  by (simp add: compute_fee_amount_def utilization_rate_bps_def example_curve_def word_op_defs Let_def)

lemma late_run: "compute_late_penalty_per_day 300000000 example_curve = Inr 300000"
  by (simp add: compute_late_penalty_per_day_def example_curve_def word_op_defs Let_def)

lemma quote_fees_run:
  "quote_fees 1000 865300 (example_pool 2000000000 2000000000000 0 0) 300000000 = Inr (9000000, 300000)"
proof -
  have "fee_curve (example_pool A S D F) = example_curve" for A S D F by (simp add: example_pool_def)
  then show ?thesis
    by (simp add: quote_fees_def utilization_run fee_run late_run i64_saturating_sub_def i64_fits_def
        i64_max_def)
qed

lemma request_transfer_run:
  "transfer_checked ref_runtime tx_request [signer_seeds (example_pool A S D F) 255]
     (example_tokens 0 3000000000 1000000000 2000000000 2000000000000) vault usdc agent_usdc pool_key 300000000 6
   = Inr (example_tokens 0 3000000000 1300000000 1700000000 2000000000000)"
  using pool_signs [of tx_request A S D F]
  by (auto simp: transfer_checked_def ref_runtime_def ref_transfer_checked_def moved_def example_tokens_def
      token_account_def usdc_mint_def)

lemma issued_accounts_run:
  "(accounts world_funded)(
      pool_key \<mapsto> PoolAccount ((example_pool 2000000000 2000000000000 0 0)\<lparr>deployed_amount := 300000000\<rparr>),
      advance_key \<mapsto> AdvanceAccount \<lparr> adv_bump = 255, adv_agent = agent, adv_receivable_id = receivable,
        principal = 300000000, fee_owed = 9000000, late_penalty_per_day = 300000, issued_at = 1000,
        adv_expires_at = 865300, adv_attestor = bridge, adv_state = Issued \<rparr>,
      consumed_key \<mapsto> ConsumedAccount \<lparr> cp_bump = 255, cp_nonce = nonce16, cp_agent = agent,
        cp_created_at = 1000 \<rparr>,
      ledger_key \<mapsto> LedgerAccount (example_ledger 300000000))
   = accounts world_issued"
  by (rule ext)
     (simp add: world_issued_def world_funded_def example_pool_def example_advance_def example_consumed_def)

lemma request_runs:
  "request_advance ref_runtime tx_request acc_request receivable 300000000 nonce16 world_funded =
     Inr (world_issued, AdvanceIssued pool_key agent advance_key 300000000 9000000 865300 bridge)"
proof -
  have w: "world_issued = \<lparr>accounts = accounts world_issued, tokens = tokens world_issued\<rparr>" by simp
  have p: "pool_chain_id (example_pool A S D F) = 2" "agent_window_cap (example_pool A S D F) = 1000000000"
    "max_advance_abs (example_pool A S D F) = 500000000" for A S D F
    by (simp_all add: example_pool_def)
  show ?thesis
    by (subst w) (simp add: request_advance_def request_accounts_run request_advance_handler_def request_ctx_def
      Let_def p attestation_run roll_run underwrite_run quote_fees_run request_transfer_run word_op_defs
      disburse_def expose_pool_def advance_of_def consumed_of_def issued_accounts_run [symmetric])
qed

subsection \<open>Skim\<close>

lemma squads_run: "require_squads_governance_cpi squads_sysvar squads_vault = Inr ()"
  by code_simp

lemma skim_accounts_run:
  "SkimProtocolFees_accounts ref_runtime tx_governance acc_skim world_settled =
     Inr (example_pool 2007650000 2000000000000 0 1350000, usdc_mint)"
  by code_simp

lemma skim_transfer_run:
  "transfer_checked ref_runtime tx_governance [signer_seeds (example_pool A S D F) 255]
     (example_tokens 1350000 3000000000 991000000 2007650000 2000000000000) vault usdc treasury pool_key 1350000 6
   = Inr (example_tokens 2700000 3000000000 991000000 2006300000 2000000000000)"
  using pool_signs [of tx_governance A S D F]
  by (auto simp: transfer_checked_def ref_runtime_def ref_transfer_checked_def moved_def example_tokens_def
      token_account_def usdc_mint_def)

lemma skimmed_accounts_run:
  "(accounts world_settled)(pool_key \<mapsto> PoolAccount ((example_pool 2007650000 2000000000000 0 1350000)
      \<lparr>accrued_protocol_fees := 0\<rparr>)) = accounts world_skimmed"
  by (rule ext) (simp add: world_settled_def world_skimmed_def example_pool_def)

lemma skim_runs:
  "skim_protocol_fees ref_runtime tx_governance acc_skim 1350000 world_settled =
     Inr (world_skimmed, ProtocolFeesSkimmed pool_key 1350000 treasury)"
proof -
  have w: "world_skimmed = \<lparr>accounts = accounts world_skimmed, tokens = tokens world_skimmed\<rparr>" by simp
  show ?thesis
    by (subst w) (simp add: skim_protocol_fees_def skim_accounts_run skim_protocol_fees_handler_def squads_run
      skim_transfer_run word_op_defs skimmed_accounts_run [symmetric])
qed

subsection \<open>Registry and governance\<close>

lemma init_registry_runs:
  "init_registry ref_runtime tx_init_registry acc_init_registry squads_vault genesis =
     Inr (world_registry, AttestorRegistryInitialized squads_vault)"
proof -
  have "init_pda ref_runtime ATTESTOR_REGISTRY [ATTESTOR_CONFIG_SEED] genesis config_key
      = (Inr 255 :: registry_error + u8)" "squads_vault \<noteq> default_pubkey"
    "check_signer tx_init_registry (ir_deployer acc_init_registry) = (Inr () :: registry_error + unit)"
    by code_simp+
  then show ?thesis
    by (simp add: init_registry_def world_registry_def genesis_def example_config_def)
qed

lemma add_signer_runs:
  "add_allowed_signer ref_runtime tx_governance acc_add_signer bridge 0 world_registry =
     Inr (world_signer, AllowedSignerAdded bridge 0)"
proof -
  have a: "AddAllowedSigner_accounts ref_runtime tx_governance acc_add_signer bridge world_registry
      = Inr (example_config, 255)" by code_simp
  have g: "cfg_governance example_config = squads_vault" by (simp add: example_config_def)
  show ?thesis
    by (simp add: add_allowed_signer_def a g require_governance_cpi_def squads_run AttestorKind_from_u8_def)
       (simp add: world_registry_def world_signer_def genesis_def example_signer_def)
qed

lemma remove_signer_ok: "is_ok (remove_allowed_signer ref_runtime tx_governance acc_remove_signer world_funded)"
  by code_simp

lemma set_governance_ok: "is_ok (set_governance ref_runtime tx_governance acc_set_governance deployer world_funded)"
  by code_simp

lemma init_pool_runs:
  "\<exists>ev. init_pool ref_runtime tx_init_pool init_accounts example_params world_signer = Inr (world_pool, ev)"
proof -
  have 1: "init_pda ref_runtime ESCROW [POOL_SEED, usdc] world_signer pool_key = (Inr 255 :: escrow_error + u8)"
    "check_signer tx_init_pool (ip_deployer init_accounts) = (Inr () :: escrow_error + unit)"
    "check_signer tx_init_pool share_mint = (Inr () :: escrow_error + unit)"
    "check_signer tx_init_pool vault = (Inr () :: escrow_error + unit)"
    "load_mint (tokens world_signer) usdc = (Inr usdc_mint :: escrow_error + Mint)"
    "address_free world_signer share_mint" "address_free world_signer vault"
    "FeeCurve_validate example_curve = Inr ()"
    by code_simp+
  obtain ts1 where ts1: "spl_init_mint ref_runtime (tokens world_signer) share_mint 6 pool_key = Some ts1"
    "ts1 = (tokens world_signer)\<lparr>tok_mints := (tok_mints (tokens world_signer))(share_mint \<mapsto>
       \<lparr>mint_decimals = 6, mint_supply = 0, mint_authority = Some pool_key\<rparr>)\<rparr>"
    by (simp add: ref_runtime_def ref_init_mint_def world_signer_def genesis_def)
  have ts2: "spl_init_account ref_runtime ts1 vault usdc pool_key = Some (tokens world_pool)"
    by (simp add: ref_runtime_def ref_init_account_def ts1 world_signer_def genesis_def world_pool_def
        token_account_def)
  have "init_pool ref_runtime tx_init_pool init_accounts example_params world_signer
      = init_pool_handler init_accounts 255 example_params (world_signer\<lparr>tokens := tokens world_pool\<rparr>)"
    by (simp add: init_pool_def InitPool_accounts_def 1 ts1(1) ts2 cong: and_then_weak_cong)
  moreover have "\<exists>ev. init_pool_handler init_accounts 255 example_params (world_signer\<lparr>tokens := tokens world_pool\<rparr>)
      = Inr (world_pool, ev)"
    by (simp add: init_pool_handler_def example_params_def 1 as_u64_def Let_def)
       (simp add: world_pool_def world_signer_def genesis_def example_pool_def)
  ultimately show ?thesis by simp
qed

lemma withdraw_ok: "is_ok (withdraw ref_runtime tx_alice acc_deposit 1000000000000 world_issued)"
proof -
  have acc: "Withdraw_accounts ref_runtime tx_alice acc_deposit world_issued =
      Inr (example_pool 2000000000 2000000000000 300000000 0, token_account usdc pool_key 1700000000, usdc_mint)"
    by code_simp
  have q: "preview_redeem 1000000000000 2000000000 2000000000000 = Inr 1000000000"
    by (simp add: preview_redeem_eq assets_for_def)
  have b: "burn ref_runtime tx_alice [] (tokens world_issued) share_mint alice_shares alice 1000000000000 =
     (Inr (example_tokens 0 3000000000 1300000000 1700000000 1000000000000) :: escrow_error + _)"
    by (auto simp: ref_token_defs tx_defs)
  have t: "transfer_checked ref_runtime tx_alice [signer_seeds (example_pool A S D F) 255]
      (example_tokens 0 3000000000 1300000000 1700000000 1000000000000) vault usdc alice_usdc pool_key 1000000000 6 =
     (Inr (example_tokens 0 4000000000 1300000000 700000000 1000000000000) :: escrow_error + _)" for A S D F
    using pool_signs [of tx_alice A S D F]
    by (auto simp: transfer_checked_def ref_runtime_def ref_transfer_checked_def moved_def example_tokens_def
      token_account_def usdc_mint_def)
  show ?thesis
    by (simp add: withdraw_def acc withdraw_handler_def q b t word_op_defs token_account_def del: world_tokens)
qed

lemma propose_ok: "is_ok (propose_params ref_runtime tx_governance acc_propose example_pending world_funded)"
  by code_simp

end
