(* ===== verification/Machine.thy ===== *)
theory Machine
  imports Governance Settlement Attestor_Registry Transitions
begin

text \<open>
  The two programs as one state machine.  \<open>process_escrow\<close> and \<open>process_registry\<close> are the
  entry points that the \<open>#[program]\<close> modules declare; \<open>step\<close> is one successful instruction of
  either program, or token activity outside them.  A failed transaction is rolled back and is no
  step.  The theory also gives the frame of a step: what every instruction leaves alone.
\<close>

section \<open>Dispatch\<close>

datatype escrow_ix =
    Ix_init_pool InitPool InitPoolParams
  | Ix_deposit Deposit u64
  | Ix_withdraw Withdraw u64
  | Ix_request_advance RequestAdvance bytes u64 bytes
  | Ix_claim_and_settle ClaimAndSettle u64
  | Ix_liquidate Liquidate
  | Ix_propose_params ProposeParams PendingParams
  | Ix_execute_params ExecuteParams
  | Ix_skim_protocol_fees SkimProtocolFees u64

fun process_escrow ::
  "runtime \<Rightarrow> transaction \<Rightarrow> escrow_ix \<Rightarrow> world \<Rightarrow> escrow_error + world \<times> escrow_event" where
  "process_escrow rt tx (Ix_init_pool a params) w = init_pool rt tx a params w"
| "process_escrow rt tx (Ix_deposit a amount) w = deposit rt tx a amount w"
| "process_escrow rt tx (Ix_withdraw a shares) w = withdraw rt tx a shares w"
| "process_escrow rt tx (Ix_request_advance a receivable_id amount nonce) w =
     request_advance rt tx a receivable_id amount nonce w"
| "process_escrow rt tx (Ix_claim_and_settle a payment_amount) w = claim_and_settle rt tx a payment_amount w"
| "process_escrow rt tx (Ix_liquidate a) w = liquidate rt tx a w"
| "process_escrow rt tx (Ix_propose_params a params) w = propose_params rt tx a params w"
| "process_escrow rt tx (Ix_execute_params a) w = execute_params rt tx a w"
| "process_escrow rt tx (Ix_skim_protocol_fees a amount) w = skim_protocol_fees rt tx a amount w"

datatype registry_ix =
    Ix_init_registry InitRegistry pubkey
  | Ix_add_allowed_signer AddAllowedSigner pubkey u8
  | Ix_remove_allowed_signer RemoveAllowedSigner
  | Ix_set_governance SetGovernance pubkey

fun process_registry ::
  "runtime \<Rightarrow> transaction \<Rightarrow> registry_ix \<Rightarrow> world \<Rightarrow> registry_error + world \<times> registry_event" where
  "process_registry rt tx (Ix_init_registry a governance) w = init_registry rt tx a governance w"
| "process_registry rt tx (Ix_add_allowed_signer a signer kind) w = add_allowed_signer rt tx a signer kind w"
| "process_registry rt tx (Ix_remove_allowed_signer a) w = remove_allowed_signer rt tx a w"
| "process_registry rt tx (Ix_set_governance a new_governance) w = set_governance rt tx a new_governance w"

section \<open>Steps\<close>

text \<open>
  A transaction is signed by key pairs; a program-derived address has no private key, so it is
  never among the signers.  Public keys and receivable ids are 32 bytes long (\<open>Pubkey\<close> and
  \<open>[u8; 32]\<close> in the sources); the model's byte strings carry this as the predicate
  \<open>escrow_ix_typed\<close>, for the keys that serve as seeds.
\<close>

definition no_pda_signer :: "runtime \<Rightarrow> transaction \<Rightarrow> bool" where
  "no_pda_signer rt tx \<longleftrightarrow>
     (\<forall>k\<in>set (tx_signers tx). \<forall>seeds. create_program_address rt seeds ESCROW \<noteq> Some k)"

fun escrow_ix_typed :: "escrow_ix \<Rightarrow> bool" where
  "escrow_ix_typed (Ix_init_pool a _) \<longleftrightarrow> length (ip_pool a) = 32"
| "escrow_ix_typed (Ix_request_advance a receivable_id _ nonce) \<longleftrightarrow>
     length (ra_pool a) = 32 \<and> length (ra_agent a) = 32 \<and> length receivable_id = 32 \<and> length nonce = 16"
| "escrow_ix_typed (Ix_claim_and_settle a _) \<longleftrightarrow> length (cs_pool a) = 32"
| "escrow_ix_typed (Ix_liquidate a) \<longleftrightarrow> length (lq_pool a) = 32"
| "escrow_ix_typed _ \<longleftrightarrow> True"

fun registry_ix_typed :: "registry_ix \<Rightarrow> bool" where
  "registry_ix_typed (Ix_add_allowed_signer _ signer _) \<longleftrightarrow> length signer = 32"
| "registry_ix_typed _ \<longleftrightarrow> True"

text \<open>
  Token activity outside the programs.  Only the owner of a token account can take tokens out of
  it or close it, only the authority of a mint can mint; holders may burn.  For accounts and
  mints under the control of an address of the escrow this leaves: balances can only grow,
  supplies can only shrink.
\<close>

definition escrow_pda :: "runtime \<Rightarrow> pubkey \<Rightarrow> bool" where
  "escrow_pda rt k \<longleftrightarrow> (\<exists>seeds. create_program_address rt seeds ESCROW = Some k)"

definition external_tokens :: "runtime \<Rightarrow> token_state \<Rightarrow> token_state \<Rightarrow> bool" where
  "external_tokens rt ts ts' \<longleftrightarrow>
     (\<forall>k ta. tok_accounts ts k = Some ta \<and> escrow_pda rt (ta_owner ta) \<longrightarrow>
        (\<exists>ta'. tok_accounts ts' k = Some ta' \<and> ta_mint ta' = ta_mint ta \<and> ta_owner ta' = ta_owner ta
           \<and> unat (ta_amount ta) \<le> unat (ta_amount ta')))
     \<and> (\<forall>k m p. tok_mints ts k = Some m \<and> mint_authority m = Some p \<and> escrow_pda rt p \<longrightarrow>
        (\<exists>m'. tok_mints ts' k = Some m' \<and> mint_authority m' = Some p
           \<and> unat (mint_supply m') \<le> unat (mint_supply m)))"

inductive step :: "runtime \<Rightarrow> world \<Rightarrow> world \<Rightarrow> bool" for rt where
  escrow: "step rt w w'"
    if "no_pda_signer rt tx" "escrow_ix_typed ix" "process_escrow rt tx ix w = Inr (w', ev)"
| registry: "step rt w w'"
    if "registry_ix_typed ix" "process_registry rt tx ix w = Inr (w', ev)"
| external: "step rt w (w\<lparr>tokens := ts'\<rparr>)"
    if "external_tokens rt (tokens w) ts'"

inductive_cases stepE: "step rt w w'"

text \<open>The states that a run reaches from a chain on which neither program has an account.\<close>

definition initial :: "world \<Rightarrow> bool" where
  "initial w \<longleftrightarrow> accounts w = Map.empty"

definition reachable :: "runtime \<Rightarrow> world \<Rightarrow> bool" where
  "reachable rt w \<longleftrightarrow> (\<exists>w0. initial w0 \<and> (step rt)\<^sup>*\<^sup>* w0 w)"

definition environment :: "runtime \<Rightarrow> bool" where
  "environment rt \<longleftrightarrow> spl_token_laws rt \<and> pda_find_law rt \<and> pda_collision_free rt"

lemma reachable_initial: "initial w \<Longrightarrow> reachable rt w"
  unfolding reachable_def by blast

lemma reachable_step: "reachable rt w \<Longrightarrow> step rt w w' \<Longrightarrow> reachable rt w'"
  unfolding reachable_def by (meson rtranclp.rtrancl_into_rtrancl)

lemma reachable_run: "reachable rt w \<Longrightarrow> (step rt)\<^sup>*\<^sup>* w w' \<Longrightarrow> reachable rt w'"
  unfolding reachable_def by (meson rtranclp_trans)

lemma environmentD:
  assumes "environment rt"
  shows "spl_token_laws rt" "pda_find_law rt" "pda_collision_free rt"
  using assms by (simp_all add: environment_def)

end
