(* ===== verification/Persistence.thy ===== *)
theory Persistence
  imports Machine
begin

text \<open>
  What no instruction can undo: a pool keeps its identity (mint, vault, share mint, treasury,
  governance, timelock, chain), a consumed-payment record and a liquidation tombstone stay as
  they are, an issuance ledger stays open.  Replay protection and the immutability of a pool's
  configuration rest on this theory.
\<close>

definition same_identity :: "Pool \<Rightarrow> Pool \<Rightarrow> bool" where
  "same_identity p p' \<longleftrightarrow>
     pool_bump p' = pool_bump p \<and> pool_asset_mint p' = pool_asset_mint p
     \<and> pool_usdc_vault p' = pool_usdc_vault p \<and> pool_share_mint p' = pool_share_mint p
     \<and> pool_treasury_ata p' = pool_treasury_ata p \<and> pool_governance p' = pool_governance p
     \<and> timelock_seconds p' = timelock_seconds p \<and> pool_chain_id p' = pool_chain_id p"

definition evolves :: "(pubkey \<rightharpoonup> account_data) \<Rightarrow> (pubkey \<rightharpoonup> account_data) \<Rightarrow> bool" where
  "evolves m m' \<longleftrightarrow>
     (\<forall>k p. m k = Some (PoolAccount p) \<longrightarrow> (\<exists>p'. m' k = Some (PoolAccount p') \<and> same_identity p p'))
     \<and> (\<forall>k c. m k = Some (ConsumedAccount c) \<longrightarrow> m' k = Some (ConsumedAccount c))
     \<and> (\<forall>k t. m k = Some (TombstoneAccount t) \<longrightarrow> m' k = Some (TombstoneAccount t))
     \<and> (\<forall>k l. m k = Some (LedgerAccount l) \<longrightarrow> (\<exists>l'. m' k = Some (LedgerAccount l')))"

lemma same_identity_refl [simp]: "same_identity p p"
  by (simp add: same_identity_def)

lemma same_identity_trans: "same_identity p q \<Longrightarrow> same_identity q r \<Longrightarrow> same_identity p r"
  by (simp add: same_identity_def)

lemma evolves_refl [simp]: "evolves m m"
  by (simp add: evolves_def)

lemma evolves_trans: "evolves m n \<Longrightarrow> evolves n q \<Longrightarrow> evolves m q"
  unfolding evolves_def by (meson same_identity_trans)

lemma evolves_poolE:
  assumes "evolves m m'" and "m k = Some (PoolAccount p)"
  obtains p' where "m' k = Some (PoolAccount p')" "same_identity p p'"
  using assms unfolding evolves_def by blast

text \<open>The updates that instructions are made of.\<close>

lemma evolves_new: "m k = None \<Longrightarrow> evolves m (m(k \<mapsto> d))"
  by (auto simp: evolves_def)

lemma evolves_pool:
  "accounts w k = Some (PoolAccount p) \<Longrightarrow> same_identity p p'
     \<Longrightarrow> evolves (accounts w) ((accounts w)(k \<mapsto> PoolAccount p'))"
  by (auto simp: evolves_def)

lemma evolves_ledger: "m k = Some (LedgerAccount l) \<Longrightarrow> evolves m (m(k \<mapsto> LedgerAccount l'))"
  by (auto simp: evolves_def)

lemma evolves_other:
  "m k = Some (ConfigAccount c) \<Longrightarrow> evolves m (m(k \<mapsto> ConfigAccount c'))"
  "m k = Some (AdvanceAccount a) \<Longrightarrow> evolves m (m(k := None))"
  "m k = Some (AllowedSignerAccount s) \<Longrightarrow> evolves m (m(k := None))"
  by (auto simp: evolves_def)

lemma same_identity_updates [simp]:
  "same_identity p (p\<lparr>total_assets := A, total_shares := S\<rparr>)"
  "same_identity p (p\<lparr>deployed_amount := D\<rparr>)"
  "same_identity p (p\<lparr>accrued_protocol_fees := F\<rparr>)"
  "same_identity p (p\<lparr>deployed_amount := D, total_assets := A\<rparr>)"
  "same_identity p (p\<lparr>deployed_amount := D, total_assets := A, accrued_protocol_fees := F\<rparr>)"
  "same_identity p (p\<lparr>pending_params := P\<rparr>)"
  "same_identity p (p\<lparr>fee_curve := c, max_advance_pct_bps := x, max_advance_abs := y,
     agent_window_cap := z, pending_params := P\<rparr>)"
  by (simp_all add: same_identity_def)

section \<open>Every instruction\<close>

lemma request_advance_evolves:
  assumes "request_advance rt tx a rid amount nonce w = Inr (w', ev)"
  shows "evolves (accounts w) (accounts w')"
  using assms
proof (rule request_advance_Inr)
  fix c att l1 l2 fee late D'
  assume acc: "RequestAdvance_accounts rt tx a rid w = Inr c"
    and w': "accounts w' = (accounts w)(
       ra_pool a \<mapsto> PoolAccount (rc_pool c\<lparr>deployed_amount := D'\<rparr>),
       ra_advance a \<mapsto> AdvanceAccount (advance_of tx a c rid amount att fee late),
       ra_consumed a \<mapsto> ConsumedAccount (consumed_of tx a c nonce),
       ra_issuance_ledger a \<mapsto> LedgerAccount l2)"
  note A = RequestAdvance_accounts_Inr [OF acc]
  have "accounts w (ra_issuance_ledger a) = None \<or> (\<exists>l. accounts w (ra_issuance_ledger a) = Some (LedgerAccount l))"
    using ledger_if_needed_Inr(2) [OF A(10)] by (auto simp: address_free_def)
  then show ?thesis
    using A(4,6,8) unfolding evolves_def w' by (auto simp: address_free_def)
qed

lemma claim_and_settle_evolves:
  assumes "claim_and_settle rt tx a payment w = Inr (w', ev)"
  shows "evolves (accounts w) (accounts w')"
  using assms
proof (rule claim_and_settle_Inr)
  fix adv c l pool m L' D' A' F'
  assume acc: "ClaimAndSettle_accounts rt tx a w = Inr (adv, c, l, pool, m)"
    and w': "accounts w' = settled_accounts a (l\<lparr>live_principal := L'\<rparr>)
       (pool\<lparr>deployed_amount := D', total_assets := A', accrued_protocol_fees := F'\<rparr>) (accounts w)"
  note A = ClaimAndSettle_accounts_Inr [OF acc]
  show ?thesis
    using A(3,5,6) unfolding evolves_def w' settled_accounts_def by (auto simp: result)
qed

lemma liquidate_evolves:
  assumes "liquidate rt tx a w = Inr (w', ev)"
  shows "evolves (accounts w) (accounts w')"
  using assms
proof (rule liquidate_Inr)
  fix adv l b pool L' D' A'
  assume acc: "Liquidate_accounts rt tx a w = Inr (adv, l, b, pool)"
    and w': "accounts w' = ((accounts w)(
       lq_issuance_ledger a \<mapsto> LedgerAccount (l\<lparr>live_principal := L'\<rparr>),
       lq_pool a \<mapsto> PoolAccount (pool\<lparr>deployed_amount := D', total_assets := A'\<rparr>),
       lq_tombstone a \<mapsto> TombstoneAccount (tombstone_of tx adv b)))(lq_advance a := None)"
  note A = Liquidate_accounts_Inr [OF acc]
  show ?thesis
    using A(1,3,4,6) unfolding evolves_def w' by (auto simp: result address_free_def)
qed

lemma process_escrow_evolves:
  assumes "process_escrow rt tx ix w = Inr (w', ev)"
  shows "evolves (accounts w) (accounts w')"
proof (cases ix)
  case (Ix_init_pool a params)
  with assms show ?thesis
    by (auto elim!: init_pool_Inr simp: address_free_def intro: evolves_new)
next
  case (Ix_deposit a amount)
  with assms show ?thesis
    by (auto elim!: deposit_Inr) (rule evolves_pool [OF Deposit_accounts_Inr(2)], assumption, simp)
next
  case (Ix_withdraw a shares)
  with assms show ?thesis
    by (auto elim!: withdraw_Inr) (rule evolves_pool [OF Deposit_accounts_Inr(2)], assumption, simp)
next
  case (Ix_request_advance a rid amount nonce)
  with assms show ?thesis by (auto intro: request_advance_evolves)
next
  case (Ix_claim_and_settle a payment)
  with assms show ?thesis by (auto intro: claim_and_settle_evolves)
next
  case (Ix_liquidate a)
  with assms show ?thesis by (auto intro: liquidate_evolves)
next
  case (Ix_propose_params a params)
  with assms show ?thesis by (auto elim!: propose_params_Inr) (rule evolves_pool, assumption, simp)
next
  case (Ix_execute_params a)
  with assms show ?thesis by (auto elim!: execute_params_Inr) (rule evolves_pool, assumption, simp)
next
  case (Ix_skim_protocol_fees a amount)
  with assms show ?thesis
    by (auto elim!: skim_protocol_fees_Inr) (rule evolves_pool [OF SkimProtocolFees_accounts_Inr(1)], assumption, simp)
qed

lemma process_registry_evolves:
  assumes "process_registry rt tx ix w = Inr (w', ev)"
  shows "evolves (accounts w) (accounts w')"
proof (cases ix)
  case (Ix_init_registry a g)
  with assms show ?thesis
    by (auto elim!: init_registry_Inr simp: address_free_def intro: evolves_new)
next
  case (Ix_add_allowed_signer a s kind)
  with assms show ?thesis
    by (auto elim!: add_allowed_signer_Inr simp: address_free_def intro: evolves_new)
next
  case (Ix_remove_allowed_signer a)
  with assms show ?thesis by (auto elim!: remove_allowed_signer_Inr intro: evolves_other)
next
  case (Ix_set_governance a g)
  with assms show ?thesis by (auto elim!: set_governance_Inr simp: result intro: evolves_other)
qed

lemma step_evolves: "step rt w w' \<Longrightarrow> evolves (accounts w) (accounts w')"
  by (auto elim!: stepE intro: process_escrow_evolves process_registry_evolves)

interpretation persistence: step_preorder "step rt" "\<lambda>_. True" "\<lambda>w w'. evolves (accounts w) (accounts w')"
  for rt
  by unfold_locales (auto intro: evolves_trans step_evolves)

end
