(* ===== verification/Account_Invariant.thy ===== *)
theory Account_Invariant
  imports Persistence
begin

text \<open>
  The invariant of the account map.  Every account sits at the address its contents derive:
  pools, advances, ledgers and allowed signers can be found from their fields, every stored
  advance is \<open>Issued\<close> and has its pool, its ledger and its consumed-payment record; fee curves
  are valid; the registry's governance is never the zero key.
\<close>

section \<open>Addresses\<close>

definition advance_at :: "runtime \<Rightarrow> pubkey \<Rightarrow> pubkey \<Rightarrow> Advance \<Rightarrow> bool" where
  "advance_at rt P k a \<longleftrightarrow>
     find_program_address rt [ADVANCE_SEED, P, adv_agent a, adv_receivable_id a] ESCROW = (k, adv_bump a)"

definition ledger_address :: "runtime \<Rightarrow> pubkey \<Rightarrow> pubkey \<Rightarrow> pubkey" where
  "ledger_address rt P g = fst (find_program_address rt [ISSUANCE_LEDGER_SEED, P, g] ESCROW)"

definition consumed_address :: "runtime \<Rightarrow> pubkey \<Rightarrow> pubkey \<Rightarrow> bytes \<Rightarrow> pubkey" where
  "consumed_address rt P g r = fst (find_program_address rt [CONSUMED_SEED, P, g, r] ESCROW)"

lemma find_creates:
  assumes "pda_find_law rt" and "find_program_address rt seeds prog = (k, b)"
  shows "create_program_address rt (seeds @ [[b]]) prog = Some k"
  using assms unfolding pda_find_law_def by (metis fst_conv snd_conv)

lemma seeds_inj3:
  assumes "pda_collision_free rt"
    and "create_program_address rt [tag, x, y, z, [b]] prog = Some k"
    and "create_program_address rt [tag, x', y', z', [b']] prog = Some k"
    and "length x = 32" "length y = 32" "length x' = 32" "length y' = 32" "length z = length z'"
  shows "x = x' \<and> y = y' \<and> z = z' \<and> b = b'"
proof -
  have "concat [tag, x, y, z, [b]] = concat [tag, x', y', z', [b']]"
    using assms(1-3) unfolding pda_collision_free_def by blast
  then show ?thesis using assms(4-) by simp
qed

lemma seeds_inj2:
  assumes "pda_collision_free rt"
    and "create_program_address rt [tag, x, y, [b]] prog = Some k"
    and "create_program_address rt [tag, x', y', [b']] prog = Some k"
    and "length x = 32" "length y = 32" "length x' = 32" "length y' = 32"
  shows "x = x' \<and> y = y' \<and> b = b'"
proof -
  have "concat [tag, x, y, [b]] = concat [tag, x', y', [b']]"
    using assms(1-3) unfolding pda_collision_free_def by blast
  then show ?thesis using assms(4-) by simp
qed

section \<open>The invariant\<close>

definition advance_wf :: "runtime \<Rightarrow> (pubkey \<rightharpoonup> account_data) \<Rightarrow> pubkey \<Rightarrow> Advance \<Rightarrow> pubkey \<Rightarrow> bool" where
  "advance_wf rt m k a P \<longleftrightarrow>
     length P = 32 \<and> advance_at rt P k a \<and> (\<exists>p. m P = Some (PoolAccount p))
     \<and> (\<exists>l. m (ledger_address rt P (adv_agent a)) = Some (LedgerAccount l))
     \<and> (\<exists>c. m (consumed_address rt P (adv_agent a) (adv_receivable_id a)) = Some (ConsumedAccount c)
           \<and> cp_agent c = adv_agent a
           \<and> cp_bump c = snd (find_program_address rt [CONSUMED_SEED, P, adv_agent a, adv_receivable_id a] ESCROW))"

fun account_wf :: "runtime \<Rightarrow> (pubkey \<rightharpoonup> account_data) \<Rightarrow> pubkey \<Rightarrow> account_data \<Rightarrow> bool" where
  "account_wf rt m k (PoolAccount p) \<longleftrightarrow>
     length k = 32
     \<and> create_program_address rt [POOL_SEED, pool_asset_mint p, [pool_bump p]] ESCROW = Some k
     \<and> valid_curve (fee_curve p)
     \<and> (\<forall>pp. pending_params p = Some pp \<longrightarrow> valid_curve (pp_fee_curve pp))
     \<and> 0 \<le> sint (timelock_seconds p)
     \<and> pool_chain_id p \<in> {CHAIN_ID_MAINNET, CHAIN_ID_DEVNET}"
| "account_wf rt m k (AdvanceAccount a) \<longleftrightarrow>
     adv_state a = Issued \<and> length (adv_agent a) = 32 \<and> length (adv_receivable_id a) = 32
     \<and> MIN_ADVANCE_ATOMS \<le> principal a \<and> (\<exists>P. advance_wf rt m k a P)"
| "account_wf rt m k (ConsumedAccount c) \<longleftrightarrow> length (cp_agent c) = 32 \<and> length (cp_nonce c) = 16"
| "account_wf rt m k (TombstoneAccount t) \<longleftrightarrow> True"
| "account_wf rt m k (LedgerAccount l) \<longleftrightarrow>
     length (led_pool l) = 32 \<and> length (led_agent l) = 32
     \<and> find_program_address rt [ISSUANCE_LEDGER_SEED, led_pool l, led_agent l] ESCROW = (k, led_bump l)"
| "account_wf rt m k (ConfigAccount c) \<longleftrightarrow> cfg_governance c \<noteq> default_pubkey"
| "account_wf rt m k (AllowedSignerAccount s) \<longleftrightarrow>
     as_kind s = AttestorKind_as_u8 CreditBridge \<and> length (as_signer s) = 32
     \<and> find_program_address rt [ALLOWED_SIGNER_SEED, as_signer s] ATTESTOR_REGISTRY = (k, as_bump s)"

definition accounts_wf :: "runtime \<Rightarrow> world \<Rightarrow> bool" where
  "accounts_wf rt w \<longleftrightarrow>
     finite (dom (accounts w)) \<and> (\<forall>k d. accounts w k = Some d \<longrightarrow> account_wf rt (accounts w) k d)"

lemma accounts_wf_initial: "initial w \<Longrightarrow> accounts_wf rt w"
  by (simp add: accounts_wf_def initial_def)

text \<open>Other accounts stay well-formed while the map evolves.\<close>

lemma advance_wf_evolves:
  assumes "evolves m m'" and "advance_wf rt m k a P"
  shows "advance_wf rt m' k a P"
  using assms unfolding advance_wf_def evolves_def by blast

lemma account_wf_evolves:
  assumes "evolves m m'" and "account_wf rt m k d"
  shows "account_wf rt m' k d"
  using assms by (cases d) (auto intro: advance_wf_evolves)

text \<open>It therefore suffices to look at the accounts a step writes.\<close>

lemma accounts_wf_update:
  assumes "accounts_wf rt w" and "evolves (accounts w) (accounts w')"
    and "finite {k. accounts w' k \<noteq> accounts w k}"
    and "\<And>k d. accounts w' k = Some d \<Longrightarrow> accounts w' k \<noteq> accounts w k \<Longrightarrow> account_wf rt (accounts w') k d"
  shows "accounts_wf rt w'"
  unfolding accounts_wf_def
proof (intro conjI allI impI)
  have "dom (accounts w') \<subseteq> dom (accounts w) \<union> {k. accounts w' k \<noteq> accounts w k}" by auto
  then show "finite (dom (accounts w'))"
    using assms(1,3) unfolding accounts_wf_def by (meson finite_Un finite_subset)
next
  fix k d
  assume d: "accounts w' k = Some d"
  show "account_wf rt (accounts w') k d"
  proof (cases "accounts w' k = accounts w k")
    case True
    with d assms(1) have "account_wf rt (accounts w) k d" unfolding accounts_wf_def by metis
    with assms(2) show ?thesis by (rule account_wf_evolves)
  next
    case False
    with d assms(4) show ?thesis by blast
  qed
qed

text \<open>The same for a map that differs from the old one at the keys of a finite list only.\<close>

lemma accounts_wf_writes:
  assumes "accounts_wf rt w" and "evolves (accounts w) (accounts w')"
    and same: "\<And>k. k \<notin> set ks \<Longrightarrow> accounts w' k = accounts w k"
    and new: "\<And>k d. k \<in> set ks \<Longrightarrow> accounts w' k = Some d \<Longrightarrow> account_wf rt (accounts w') k d"
  shows "accounts_wf rt w'"
proof (rule accounts_wf_update [OF assms(1,2)])
  show "finite {k. accounts w' k \<noteq> accounts w k}"
    by (rule finite_subset [of _ "set ks"]) (use same in auto)
qed (use same new in metis)

section \<open>Preservation\<close>

text \<open>Instructions that write only the pool.\<close>

lemma accounts_wf_pool:
  assumes "accounts_wf rt w" and "accounts w k = Some (PoolAccount p)"
    and "accounts w' = (accounts w)(k \<mapsto> PoolAccount p')" and "same_identity p p'"
    and "valid_curve (fee_curve p')"
    and "\<And>pp. pending_params p' = Some pp \<Longrightarrow> valid_curve (pp_fee_curve pp)"
  shows "accounts_wf rt w'"
proof (rule accounts_wf_writes [OF assms(1), where ks = "[k]"])
  show "evolves (accounts w) (accounts w')"
    unfolding assms(3) using assms(2,4) by (rule evolves_pool)
  have "account_wf rt (accounts w) k (PoolAccount p)"
    using assms(1,2) unfolding accounts_wf_def by blast
  then show "account_wf rt (accounts w') k' d" if "k' \<in> set [k]" "accounts w' k' = Some d" for k' d
    using that assms(3-6) by (auto simp: same_identity_def)
qed (simp add: assms(3))

lemma accounts_wf_poolD:
  assumes "accounts_wf rt w" and "accounts w k = Some (PoolAccount p)"
  shows "account_wf rt (accounts w) k (PoolAccount p)"
  using assms unfolding accounts_wf_def by blast

lemma accounts_wf_D:
  assumes "accounts_wf rt w" and "accounts w k = Some d"
  shows "account_wf rt (accounts w) k d"
  using assms unfolding accounts_wf_def by blast

lemma accounts_wf_books:
  assumes "accounts_wf rt w" and "accounts w k = Some (PoolAccount p)"
    and "accounts w' = (accounts w)(k \<mapsto> PoolAccount p')" and "same_identity p p'"
    and "fee_curve p' = fee_curve p" and "pending_params p' = pending_params p"
  shows "accounts_wf rt w'"
  using accounts_wf_poolD [OF assms(1,2)] assms(5,6)
  by (intro accounts_wf_pool [OF assms(1-4)]) auto

text \<open>Instructions that create one account at a free address.\<close>

lemma accounts_wf_new:
  assumes "accounts_wf rt w" and "accounts w k = None" and "accounts w' = (accounts w)(k \<mapsto> d)"
    and "account_wf rt (accounts w') k d"
  shows "accounts_wf rt w'"
  by (rule accounts_wf_writes [OF assms(1), where ks = "[k]"])
     (use assms(2-4) in \<open>auto simp: evolves_new\<close>)

lemma init_pool_wf:
  assumes find: "pda_find_law rt" and wf: "accounts_wf rt w" and len: "length (ip_pool a) = 32"
    and ok: "init_pool rt tx a params w = Inr (w', ev)"
  shows "accounts_wf rt w'"
  using ok
proof (rule init_pool_Inr)
  fix bump ts1 ts2 pool
  assume pda: "find_program_address rt [POOL_SEED, ip_asset_mint a] ESCROW = (ip_pool a, bump)"
    and free: "address_free w (ip_pool a)"
    and ok: "valid_curve (ipp_fee_curve params)" "0 \<le> sint (ipp_timelock_seconds params)"
      "ipp_chain_id params \<in> {CHAIN_ID_MAINNET, CHAIN_ID_DEVNET}"
    and pool: "pool = \<lparr> pool_bump = bump, pool_asset_mint = ip_asset_mint a, pool_usdc_vault = ip_usdc_vault a,
       pool_share_mint = ip_share_mint a, pool_treasury_ata = ipp_treasury_ata params,
       pool_governance = ipp_governance params, total_assets = 0, total_shares = 0,
       deployed_amount = 0, accrued_protocol_fees = 0, fee_curve = ipp_fee_curve params,
       max_advance_pct_bps = ipp_max_advance_pct_bps params,
       max_advance_abs = ipp_max_advance_abs params, agent_window_cap = ipp_agent_window_cap params,
       timelock_seconds = ipp_timelock_seconds params, pool_chain_id = ipp_chain_id params,
       pending_params = None \<rparr>"
    and w': "w' = \<lparr>accounts = (accounts w)(ip_pool a \<mapsto> PoolAccount pool), tokens = ts2\<rparr>"
  have "create_program_address rt [POOL_SEED, ip_asset_mint a, [bump]] ESCROW = Some (ip_pool a)"
    using find_creates [OF find pda] by simp
  then show ?thesis
    by (intro accounts_wf_new [OF wf, where k = "ip_pool a" and d = "PoolAccount pool"])
       (use free ok len in \<open>auto simp: address_free_def w' pool\<close>)
qed

lemma roll_ledger_Inr:
  assumes "roll_ledger now b g P cap amount l = Inr l1"
  shows "led_bump l1 = (if led_bump l = 0 then b else led_bump l)"
    and "led_agent l1 = (if led_bump l = 0 then g else led_agent l)"
    and "led_pool l1 = (if led_bump l = 0 then P else led_pool l)"
    and "live_principal l1 = live_principal l"
  using assms
  by (auto simp: roll_ledger_def charge_window_def reset_window_def init_ledger_fields_def result
      split: if_splits)

lemma underwrite_Inr:
  assumes "underwrite att cap amount l = Inr l'"
  shows "led_bump l' = led_bump l" "led_agent l' = led_agent l" "led_pool l' = led_pool l"
    and "issued_in_window l' = issued_in_window l" "window_start l' = window_start l"
    and "unat (live_principal l') = unat (live_principal l) + unat amount"
    and "unat amount \<le> unat (att_credit_limit att) - (unat (att_outstanding att) + unat (live_principal l))"
    and "amount \<le> cap"
  using assms by (auto simp: underwrite_def result checked Let_def word_le_nat_alt)

text \<open>The ledger that \<open>request_advance\<close> writes is the one of this pool and agent.\<close>

lemma request_ledger_identity:
  assumes laws: "pda_find_law rt" "pda_collision_free rt" and wf: "accounts_wf rt w"
    and len: "length P = 32" "length g = 32"
    and led: "ledger_if_needed rt w P g k = Inr (l, b)"
    and roll: "roll_ledger now b g P cap amount l = Inr l1"
    and und: "underwrite att mx amount l1 = Inr l2"
  shows "led_bump l2 = b \<and> led_agent l2 = g \<and> led_pool l2 = P"
    and "accounts w k = Some (LedgerAccount l) \<longrightarrow> led_agent l = g \<and> led_pool l = P"
proof -
  note L = ledger_if_needed_Inr [OF led]
  have "led_agent l = g \<and> led_pool l = P \<and> led_bump l = b" if a: "accounts w k = Some (LedgerAccount l)"
  proof -
    have "account_wf rt (accounts w) k (LedgerAccount l)" using wf a unfolding accounts_wf_def by blast
    then have "find_program_address rt [ISSUANCE_LEDGER_SEED, led_pool l, led_agent l] ESCROW = (k, led_bump l)"
      and ll: "length (led_pool l) = 32" "length (led_agent l) = 32" by simp_all
    then show ?thesis
      using seeds_inj2 [OF laws(2) _ _ ll len] find_creates [OF laws(1) L(1)] find_creates [OF laws(1)] by fastforce
  qed
  then show "led_bump l2 = b \<and> led_agent l2 = g \<and> led_pool l2 = P"
    and "accounts w k = Some (LedgerAccount l) \<longrightarrow> led_agent l = g \<and> led_pool l = P"
    using L(2) roll_ledger_Inr(1-3) [OF roll] underwrite_Inr(1-3) [OF und]
    by (auto simp: zeroed_ledger_def split: if_splits)
qed

lemma request_advance_wf:
  assumes laws: "pda_find_law rt" "pda_collision_free rt" and wf: "accounts_wf rt w"
    and len: "length (ra_pool a) = 32" "length (ra_agent a) = 32" "length rid = 32" "length nonce = 16"
    and ok: "request_advance rt tx a rid amount nonce w = Inr (w', ev)"
  shows "accounts_wf rt w'"
  using ok
proof (rule request_advance_Inr)
  fix c att l1 l2 fee late D'
  assume acc: "RequestAdvance_accounts rt tx a rid w = Inr c"
    and min: "MIN_ADVANCE_ATOMS \<le> amount"
    and roll: "roll_ledger (tx_now tx) (rc_ledger_bump c) (ra_agent a) (ra_pool a) (agent_window_cap (rc_pool c))
       amount (rc_ledger c) = Inr l1"
    and und: "underwrite att (max_advance_abs (rc_pool c)) amount l1 = Inr l2"
    and w': "accounts w' = (accounts w)(
       ra_pool a \<mapsto> PoolAccount (rc_pool c\<lparr>deployed_amount := D'\<rparr>),
       ra_advance a \<mapsto> AdvanceAccount (advance_of tx a c rid amount att fee late),
       ra_consumed a \<mapsto> ConsumedAccount (consumed_of tx a c nonce),
       ra_issuance_ledger a \<mapsto> LedgerAccount l2)"
  note A = RequestAdvance_accounts_Inr [OF acc]
  have id: "led_bump l2 = rc_ledger_bump c" "led_agent l2 = ra_agent a" "led_pool l2 = ra_pool a"
    using request_ledger_identity [OF laws wf len(1,2) A(10) roll und] by simp_all
  have lp: "ra_issuance_ledger a \<noteq> ra_pool a" "ra_advance a \<noteq> ra_pool a" "ra_consumed a \<noteq> ra_pool a"
    using A(4,6,8) ledger_if_needed_Inr(2) [OF A(10)] by (auto simp: address_free_def)
  have adr: "ledger_address rt (ra_pool a) (ra_agent a) = ra_issuance_ledger a"
    "consumed_address rt (ra_pool a) (ra_agent a) rid = ra_consumed a"
    using A(7) ledger_if_needed_Inr(1) [OF A(10)] by (simp_all add: ledger_address_def consumed_address_def)
  have "advance_wf rt (accounts w') (ra_advance a) (advance_of tx a c rid amount att fee late) (ra_pool a)"
    using lp A(5,7,9,11,12) len adr
    by (auto simp: advance_wf_def advance_at_def advance_of_def consumed_of_def w')
  then have new: "account_wf rt (accounts w') (ra_advance a) (AdvanceAccount (advance_of tx a c rid amount att fee late))"
    using len min by (auto simp: advance_of_def)
  have pool: "account_wf rt (accounts w') (ra_pool a) (PoolAccount (rc_pool c\<lparr>deployed_amount := D'\<rparr>))"
    using accounts_wf_poolD [OF wf A(4)] by simp
  have led: "account_wf rt (accounts w') (ra_issuance_ledger a) (LedgerAccount l2)"
    using ledger_if_needed_Inr(1) [OF A(10)] id len by simp
  show ?thesis
  proof (rule accounts_wf_writes [OF wf request_advance_evolves [OF ok],
        where ks = "[ra_pool a, ra_advance a, ra_consumed a, ra_issuance_ledger a]"])
    show "account_wf rt (accounts w') k d"
      if "k \<in> set [ra_pool a, ra_advance a, ra_consumed a, ra_issuance_ledger a]" "accounts w' k = Some d" for k d
      using that new pool led len by (auto simp: w' consumed_of_def split: if_splits)
  qed (simp add: w')
qed

lemma claim_and_settle_wf:
  assumes wf: "accounts_wf rt w" and ok: "claim_and_settle rt tx a payment w = Inr (w', ev)"
  shows "accounts_wf rt w'"
  using ok
proof (rule claim_and_settle_Inr)
  fix adv c l pool m L' D' A' F'
  assume acc: "ClaimAndSettle_accounts rt tx a w = Inr (adv, c, l, pool, m)"
    and w': "accounts w' = settled_accounts a (l\<lparr>live_principal := L'\<rparr>)
       (pool\<lparr>deployed_amount := D', total_assets := A', accrued_protocol_fees := F'\<rparr>) (accounts w)"
  note A = ClaimAndSettle_accounts_Inr [OF acc]
  have "account_wf rt (accounts w) (cs_issuance_ledger a) (LedgerAccount l)"
    using A(5) by (intro accounts_wf_D [OF wf]) (simp add: result)
  then show ?thesis
    using accounts_wf_poolD [OF wf A(6)]
    by (intro accounts_wf_writes [OF wf claim_and_settle_evolves [OF ok],
          where ks = "[cs_issuance_ledger a, cs_pool a, cs_advance a]"])
       (auto simp: w' settled_accounts_def split: if_splits)
qed

lemma liquidate_wf:
  assumes wf: "accounts_wf rt w" and ok: "liquidate rt tx a w = Inr (w', ev)"
  shows "accounts_wf rt w'"
  using ok
proof (rule liquidate_Inr)
  fix adv l b pool L' D' A'
  assume acc: "Liquidate_accounts rt tx a w = Inr (adv, l, b, pool)"
    and w': "accounts w' = ((accounts w)(
       lq_issuance_ledger a \<mapsto> LedgerAccount (l\<lparr>live_principal := L'\<rparr>),
       lq_pool a \<mapsto> PoolAccount (pool\<lparr>deployed_amount := D', total_assets := A'\<rparr>),
       lq_tombstone a \<mapsto> TombstoneAccount (tombstone_of tx adv b)))(lq_advance a := None)"
  note A = Liquidate_accounts_Inr [OF acc]
  have "account_wf rt (accounts w) (lq_issuance_ledger a) (LedgerAccount l)"
    using A(3) by (intro accounts_wf_D [OF wf]) (simp add: result)
  then show ?thesis
    using accounts_wf_poolD [OF wf A(4)]
    by (intro accounts_wf_writes [OF wf liquidate_evolves [OF ok],
          where ks = "[lq_issuance_ledger a, lq_pool a, lq_tombstone a, lq_advance a]"])
       (auto simp: w' split: if_splits)
qed

lemma process_escrow_wf:
  assumes laws: "pda_find_law rt" "pda_collision_free rt" and wf: "accounts_wf rt w"
    and typed: "escrow_ix_typed ix" and ok: "process_escrow rt tx ix w = Inr (w', ev)"
  shows "accounts_wf rt w'"
proof (cases ix)
  case (Ix_init_pool a params)
  with ok typed show ?thesis by (auto intro: init_pool_wf [OF laws(1) wf])
next
  case (Ix_deposit a amount)
  with ok have "deposit rt tx a amount w = Inr (w', ev)" by simp
  then show ?thesis
    by (rule deposit_Inr) (erule accounts_wf_books [OF wf Deposit_accounts_Inr(2)], assumption, simp_all)
next
  case (Ix_withdraw a shares)
  with ok have "withdraw rt tx a shares w = Inr (w', ev)" by simp
  then show ?thesis
    by (rule withdraw_Inr) (erule accounts_wf_books [OF wf Deposit_accounts_Inr(2)], assumption, simp_all)
next
  case (Ix_request_advance a rid amount nonce)
  with ok typed show ?thesis by (auto intro: request_advance_wf [OF laws wf])
next
  case (Ix_claim_and_settle a payment)
  with ok show ?thesis by (auto intro: claim_and_settle_wf [OF wf])
next
  case (Ix_liquidate a)
  with ok show ?thesis by (auto intro: liquidate_wf [OF wf])
next
  case (Ix_propose_params a params)
  with ok have "propose_params rt tx a params w = Inr (w', ev)" by simp
  then show ?thesis
    by (rule propose_params_Inr) (use accounts_wf_poolD [OF wf] in \<open>auto intro!: accounts_wf_pool [OF wf]\<close>)
next
  case (Ix_execute_params a)
  with ok have "execute_params rt tx a w = Inr (w', ev)" by simp
  then show ?thesis
    by (rule execute_params_Inr) (use accounts_wf_poolD [OF wf] in \<open>auto intro!: accounts_wf_pool [OF wf]\<close>)
next
  case (Ix_skim_protocol_fees a amount)
  with ok have "skim_protocol_fees rt tx a amount w = Inr (w', ev)" by simp
  then show ?thesis
    by (rule skim_protocol_fees_Inr) (erule accounts_wf_books [OF wf SkimProtocolFees_accounts_Inr(1)], assumption, simp_all)
qed

lemma process_registry_wf:
  assumes wf: "accounts_wf rt w" and typed: "registry_ix_typed ix"
    and ok: "process_registry rt tx ix w = Inr (w', ev)"
  shows "accounts_wf rt w'"
proof (cases ix)
  case (Ix_init_registry a g)
  with ok show ?thesis
    by (auto elim!: init_registry_Inr simp: address_free_def intro!: accounts_wf_new [OF wf, of "ir_config a"])
next
  case (Ix_add_allowed_signer a s kind)
  with ok typed show ?thesis
    by (auto elim!: add_allowed_signer_Inr simp: address_free_def
        intro!: accounts_wf_new [OF wf, of "aa_allowed_signer a"])
next
  case (Ix_remove_allowed_signer a)
  with ok have "remove_allowed_signer rt tx a w = Inr (w', ev)" by simp
  then show ?thesis
    by (rule remove_allowed_signer_Inr)
       (rule accounts_wf_writes [OF wf process_registry_evolves [OF ok], where ks = "[rm_allowed_signer a]"];
        simp)
next
  case (Ix_set_governance a g)
  with ok have "set_governance rt tx a g w = Inr (w', ev)" by simp
  then show ?thesis
    by (rule set_governance_Inr)
       (rule accounts_wf_writes [OF wf process_registry_evolves [OF ok], where ks = "[sg_config a]"];
        auto)
qed

lemma step_accounts_wf:
  assumes env: "environment rt" and wf: "accounts_wf rt w" and st: "step rt w w'"
  shows "accounts_wf rt w'"
  using st
proof cases
  case (escrow tx ix ev)
  then show ?thesis using process_escrow_wf [OF environmentD(2,3) [OF env] wf] by blast
next
  case (registry ix tx ev)
  then show ?thesis using process_registry_wf [OF wf] by blast
next
  case (external ts')
  then show ?thesis using wf by (simp add: accounts_wf_def)
qed

interpretation wf_run: step_invariant "step rt" "\<lambda>w. environment rt \<and> accounts_wf rt w" for rt
  by unfold_locales (blast intro: step_accounts_wf)

lemma reachable_wf: "environment rt \<Longrightarrow> reachable rt w \<Longrightarrow> accounts_wf rt w"
  unfolding reachable_def using wf_run.run_inv accounts_wf_initial by blast

end
