(* ===== verification/Exposure.thy ===== *)
theory Exposure
  imports Account_Invariant
begin

text \<open>
  Outstanding principal.  \<open>outstanding\<close> adds up the principal of the live advances of a pool
  (of all of them, or of one agent's), read from the advance accounts themselves.  The counters
  the program keeps, a pool's \<open>deployed_amount\<close> and a ledger's \<open>live_principal\<close>, always equal
  this sum.
\<close>

section \<open>Sums over live advances\<close>

definition live :: "runtime \<Rightarrow> (pubkey \<rightharpoonup> account_data) \<Rightarrow> pubkey \<Rightarrow> (Advance \<Rightarrow> bool) \<Rightarrow> pubkey set" where
  "live rt m P Q = {k. \<exists>a. m k = Some (AdvanceAccount a) \<and> advance_at rt P k a \<and> Q a}"

definition principal_at :: "(pubkey \<rightharpoonup> account_data) \<Rightarrow> pubkey \<Rightarrow> nat" where
  "principal_at m k = (case m k of Some (AdvanceAccount a) \<Rightarrow> unat (principal a) | _ \<Rightarrow> 0)"

definition outstanding :: "runtime \<Rightarrow> (pubkey \<rightharpoonup> account_data) \<Rightarrow> pubkey \<Rightarrow> (Advance \<Rightarrow> bool) \<Rightarrow> nat" where
  "outstanding rt m P Q = (\<Sum>k\<in>live rt m P Q. principal_at m k)"

definition weight :: "runtime \<Rightarrow> pubkey \<Rightarrow> (Advance \<Rightarrow> bool) \<Rightarrow> pubkey \<Rightarrow> Advance \<Rightarrow> nat" where
  "weight rt P Q k a = (if advance_at rt P k a \<and> Q a then unat (principal a) else 0)"

lemma finite_live: "finite (dom m) \<Longrightarrow> finite (live rt m P Q)"
  by (rule finite_subset [of _ "dom m"]) (auto simp: live_def)

lemma principal_at_Some [simp]: "m k = Some (AdvanceAccount a) \<Longrightarrow> principal_at m k = unat (principal a)"
  by (simp add: principal_at_def)

lemma outstanding_remove:
  assumes fin: "finite (dom m)" and k: "m k = Some (AdvanceAccount a)"
  shows "outstanding rt m P Q = outstanding rt (m(k := None)) P Q + weight rt P Q k a"
proof -
  have live: "live rt (m(k := None)) P Q = live rt m P Q - {k}" by (auto simp: live_def)
  have same: "(\<Sum>j\<in>live rt m P Q - {k}. principal_at (m(k := None)) j) = (\<Sum>j\<in>live rt m P Q - {k}. principal_at m j)"
    by (rule sum.cong) (auto simp: principal_at_def)
  show ?thesis
  proof (cases "k \<in> live rt m P Q")
    case True
    then have "weight rt P Q k a = principal_at m k" using k by (auto simp: live_def weight_def)
    with True show ?thesis
      unfolding outstanding_def live same by (simp add: sum.remove [OF finite_live [OF fin]])
  next
    case False
    then have "weight rt P Q k a = 0" using k by (auto simp: live_def weight_def)
    with False show ?thesis
      unfolding outstanding_def live same by simp
  qed
qed

text \<open>Two maps with the same advances.\<close>

lemma outstanding_cong:
  assumes "\<And>k a. m k = Some (AdvanceAccount a) \<longleftrightarrow> m' k = Some (AdvanceAccount a)"
  shows "outstanding rt m P Q = outstanding rt m' P Q"
  unfolding outstanding_def
proof (rule sum.cong)
  show "live rt m P Q = live rt m' P Q" using assms by (simp add: live_def)
  fix k
  assume "k \<in> live rt m' P Q"
  then obtain a where "m' k = Some (AdvanceAccount a)" by (auto simp: live_def)
  moreover from this have "m k = Some (AdvanceAccount a)" using assms by blast
  ultimately show "principal_at m k = principal_at m' k" by simp
qed

lemma outstanding_add:
  assumes fin: "finite (dom m)" and k: "\<And>b. m k \<noteq> Some (AdvanceAccount b)"
  shows "outstanding rt (m(k \<mapsto> AdvanceAccount a)) P Q = outstanding rt m P Q + weight rt P Q k a"
proof -
  have "outstanding rt (m(k := None)) P Q = outstanding rt m P Q"
    by (rule outstanding_cong) (auto simp: k)
  then show ?thesis
    using outstanding_remove [where m = "m(k \<mapsto> AdvanceAccount a)" and k = k and a = a] fin by simp
qed

text \<open>An advance sits in exactly one pool.\<close>

lemma advance_at_unique:
  assumes laws: "pda_find_law rt" "pda_collision_free rt"
    and "advance_at rt P k a" and "advance_at rt P' k a"
    and "length P = 32" "length P' = 32" "length (adv_agent a) = 32"
  shows "P = P'"
  using assms find_creates [OF laws(1)] seeds_inj3 [OF laws(2)] unfolding advance_at_def
  by (metis append_Cons append_Nil)

section \<open>The counters\<close>

definition exposure_ok :: "runtime \<Rightarrow> world \<Rightarrow> bool" where
  "exposure_ok rt w \<longleftrightarrow>
     (\<forall>P p. accounts w P = Some (PoolAccount p) \<longrightarrow>
        unat (deployed_amount p) = outstanding rt (accounts w) P (\<lambda>_. True))
     \<and> (\<forall>k l. accounts w k = Some (LedgerAccount l) \<longrightarrow>
        unat (live_principal l) = outstanding rt (accounts w) (led_pool l) (\<lambda>a. adv_agent a = led_agent l))"

lemma exposure_ok_initial: "initial w \<Longrightarrow> exposure_ok rt w"
  by (simp add: exposure_ok_def initial_def)

text \<open>A step that creates, removes and changes no advance and keeps the two counters.\<close>

lemma exposure_same_advances:
  assumes "exposure_ok rt w"
    and adv: "\<And>k a. accounts w k = Some (AdvanceAccount a) \<longleftrightarrow> accounts w' k = Some (AdvanceAccount a)"
    and pools: "\<And>P p'. accounts w' P = Some (PoolAccount p') \<Longrightarrow>
          \<exists>p. accounts w P = Some (PoolAccount p) \<and> deployed_amount p' = deployed_amount p"
    and ledgers: "\<And>k l'. accounts w' k = Some (LedgerAccount l') \<Longrightarrow> accounts w k = Some (LedgerAccount l')"
  shows "exposure_ok rt w'"
  using assms(1) pools ledgers outstanding_cong [of "accounts w" "accounts w'" rt, OF adv]
  unfolding exposure_ok_def by metis

section \<open>Preservation\<close>

lemma exposureD:
  assumes "exposure_ok rt w"
  shows "accounts w P = Some (PoolAccount p) \<Longrightarrow>
           unat (deployed_amount p) = outstanding rt (accounts w) P (\<lambda>_. True)"
    and "accounts w k = Some (LedgerAccount l) \<Longrightarrow>
           unat (live_principal l) = outstanding rt (accounts w) (led_pool l) (\<lambda>a. adv_agent a = led_agent l)"
  using assms unfolding exposure_ok_def by blast+

text \<open>
  One advance enters (\<open>s = 1\<close>) or leaves (\<open>s = -1\<close>): the counters of its pool and of its agent
  move by its principal, all others stay.
\<close>

lemma exposure_move:
  fixes s :: int
  assumes laws: "pda_find_law rt" "pda_collision_free rt"
    and ex: "exposure_ok rt w" and wf': "accounts_wf rt w'"
    and adv: "advance_at rt P k a" "length P = 32" "length (adv_agent a) = 32"
    and sum: "\<And>P' Q. int (outstanding rt (accounts w') P' Q)
        = int (outstanding rt (accounts w) P' Q) + s * int (weight rt P' Q k a)"
    and pool: "accounts w P = Some (PoolAccount p)" "accounts w' P = Some (PoolAccount p')"
      "int (unat (deployed_amount p')) = int (unat (deployed_amount p)) + s * int (unat (principal a))"
    and pools: "\<And>P' q. P' \<noteq> P \<Longrightarrow> accounts w' P' = Some (PoolAccount q) \<Longrightarrow> accounts w P' = Some (PoolAccount q)"
    and led: "accounts w' kl = Some (LedgerAccount l')" "led_pool l' = P" "led_agent l' = adv_agent a"
      "int (unat (live_principal l')) =
         int (outstanding rt (accounts w) P (\<lambda>b. adv_agent b = adv_agent a)) + s * int (unat (principal a))"
    and leds: "\<And>j m. j \<noteq> kl \<Longrightarrow> accounts w' j = Some (LedgerAccount m) \<Longrightarrow> accounts w j = Some (LedgerAccount m)"
  shows "exposure_ok rt w'"
proof -
  have only: "P' = P" if "advance_at rt P' k a" "length P' = 32" for P'
    using advance_at_unique [OF laws that(1) adv(1) that(2) adv(2,3)] .
  show ?thesis
    unfolding exposure_ok_def
  proof (intro conjI allI impI)
    fix P' q
    assume q: "accounts w' P' = Some (PoolAccount q)"
    have "int (unat (deployed_amount q)) = int (outstanding rt (accounts w') P' (\<lambda>_. True))"
    proof (cases "P' = P")
      case True
      with q pool have "q = p'" by simp
      then show ?thesis using True pool(3) exposureD(1) [OF ex pool(1)] adv(1) by (simp add: sum weight_def)
    next
      case False
      have "length P' = 32" using accounts_wf_D [OF wf' q] by simp
      with only False have "weight rt P' (\<lambda>_. True) k a = 0" by (auto simp: weight_def)
      then show ?thesis using exposureD(1) [OF ex pools [OF False q]] by (simp add: sum)
    qed
    then show "unat (deployed_amount q) = outstanding rt (accounts w') P' (\<lambda>_. True)" by (simp only: of_nat_eq_iff)
  next
    fix j m
    assume m: "accounts w' j = Some (LedgerAccount m)"
    have "int (unat (live_principal m)) =
        int (outstanding rt (accounts w') (led_pool m) (\<lambda>a. adv_agent a = led_agent m))"
    proof (cases "j = kl")
      case True
      with m led have "m = l'" by simp
      then show ?thesis using led adv(1) by (simp add: sum weight_def)
    next
      case False
      have "led_pool m \<noteq> P \<or> led_agent m \<noteq> adv_agent a" and "length (led_pool m) = 32"
        using accounts_wf_D [OF wf' m] accounts_wf_D [OF wf' led(1)] False led by auto
      with only have "weight rt (led_pool m) (\<lambda>a. adv_agent a = led_agent m) k a = 0"
        by (auto simp: weight_def)
      then show ?thesis using exposureD(2) [OF ex leds [OF False m]] by (simp add: sum)
    qed
    then show "unat (live_principal m) =
        outstanding rt (accounts w') (led_pool m) (\<lambda>a. adv_agent a = led_agent m)" by (simp only: of_nat_eq_iff)
  qed
qed

text \<open>The pool that validation of a stored advance accepts is the advance's own pool.\<close>

lemma loaded_advance_at:
  assumes laws: "pda_find_law rt" "pda_collision_free rt" and wf: "accounts_wf rt w"
    and ld: "load_advance rt w P k = Inr a" and len: "length P = 32"
  shows "advance_at rt P k a" and "length (adv_agent a) = 32"
proof -
  have k: "accounts w k = Some (AdvanceAccount a)"
    and c: "create_program_address rt [ADVANCE_SEED, P, adv_agent a, adv_receivable_id a, [adv_bump a]] ESCROW = Some k"
    using ld by (simp_all add: result)
  from accounts_wf_D [OF wf k] obtain P0 where P0: "advance_wf rt (accounts w) k a P0"
    and len_a: "length (adv_agent a) = 32" by auto
  then have at: "advance_at rt P0 k a" and "length P0 = 32" by (simp_all add: advance_wf_def)
  then have "P0 = P"
    using seeds_inj3 [OF laws(2) _ c] find_creates [OF laws(1)] len len_a unfolding advance_at_def
    by (metis append_Cons append_Nil)
  with at show "advance_at rt P k a" by simp
  show "length (adv_agent a) = 32" by (rule len_a)
qed

lemma exposure_close:
  assumes laws: "pda_find_law rt" "pda_collision_free rt"
    and wf: "accounts_wf rt w" and ex: "exposure_ok rt w" and wf': "accounts_wf rt w'"
    and len: "length P = 32"
    and ld: "load_advance rt w P k = Inr a" "load_ledger rt w P a kl = Inr l"
      "accounts w P = Some (PoolAccount p)"
    and w': "\<And>j. accounts w' j = (if j = k then None else if j = P then Some (PoolAccount p')
        else if j = kl then Some (LedgerAccount (l\<lparr>live_principal := L'\<rparr>))
        else if j \<in> T then Some (TombstoneAccount t) else accounts w j)"
    and T: "\<And>j. j \<in> T \<Longrightarrow> accounts w j = None"
    and dep: "unat (deployed_amount p) = unat (deployed_amount p') + unat (principal a)"
    and liv: "unat (live_principal l) = unat L' + unat (principal a)"
  shows "exposure_ok rt w'"
proof -
  have k: "accounts w k = Some (AdvanceAccount a)" and kl: "accounts w kl = Some (LedgerAccount l)"
    and l: "led_agent l = adv_agent a" "led_pool l = P"
    using ld by (simp_all add: result)
  have fin: "finite (dom (accounts w))" using wf by (simp add: accounts_wf_def)
  have keys: "P \<noteq> k" "kl \<noteq> k" "kl \<noteq> P" "k \<notin> T" "P \<notin> T" "kl \<notin> T"
    using k kl ld(3) T by auto
  have "outstanding rt (accounts w) P' Q = outstanding rt (accounts w') P' Q + weight rt P' Q k a" for P' Q
  proof -
    have "outstanding rt (accounts w') P' Q = outstanding rt ((accounts w)(k := None)) P' Q"
      by (rule outstanding_cong) (use kl ld(3) T in \<open>auto simp: w'\<close>)
    then show ?thesis using outstanding_remove [OF fin k] by simp
  qed
  then have sum: "int (outstanding rt (accounts w') P' Q)
      = int (outstanding rt (accounts w) P' Q) + - 1 * int (weight rt P' Q k a)" for P' Q by simp
  show ?thesis
  proof (rule exposure_move [OF laws ex wf' loaded_advance_at(1) [OF laws wf ld(1) len] len
        loaded_advance_at(2) [OF laws wf ld(1) len] sum ld(3)])
    show "accounts w' kl = Some (LedgerAccount (l\<lparr>live_principal := L'\<rparr>))" using keys by (simp add: w')
    show "int (unat (live_principal (l\<lparr>live_principal := L'\<rparr>))) =
        int (outstanding rt (accounts w) P (\<lambda>b. adv_agent b = adv_agent a)) + - 1 * int (unat (principal a))"
      using exposureD(2) [OF ex kl] liv l by (simp del: of_nat_unat)
    show "int (unat (deployed_amount p')) = int (unat (deployed_amount p)) + - 1 * int (unat (principal a))"
      using dep by (simp del: of_nat_unat)
  qed (use keys l in \<open>auto simp: w' split: if_splits\<close>)
qed

text \<open>An agent without a ledger has no live advance in the pool; a pool not yet created has none.\<close>

lemma stored_advance_wf:
  assumes laws: "pda_find_law rt" "pda_collision_free rt" and wf: "accounts_wf rt w"
    and k: "accounts w k = Some (AdvanceAccount b)" and at: "advance_at rt P k b" and len: "length P = 32"
  shows "advance_wf rt (accounts w) k b P"
proof -
  obtain P0 where "advance_wf rt (accounts w) k b P0" "length (adv_agent b) = 32"
    using accounts_wf_D [OF wf k] by auto
  moreover from this have "P0 = P"
    using advance_at_unique [OF laws] at len by (auto simp: advance_wf_def)
  ultimately show ?thesis by simp
qed

lemma outstanding_none:
  assumes "\<And>k a. m k = Some (AdvanceAccount a) \<Longrightarrow> advance_at rt P k a \<Longrightarrow> Q a \<Longrightarrow> False"
  shows "outstanding rt m P Q = 0"
proof -
  have "live rt m P Q = {}" using assms by (auto simp: live_def)
  then show ?thesis by (simp add: outstanding_def)
qed

lemma no_ledger_no_exposure:
  assumes laws: "pda_find_law rt" "pda_collision_free rt" and wf: "accounts_wf rt w"
    and len: "length P = 32" and free: "accounts w (ledger_address rt P g) = None"
  shows "outstanding rt (accounts w) P (\<lambda>b. adv_agent b = g) = 0"
  by (rule outstanding_none, drule (1) stored_advance_wf [OF laws wf _ _ len])
     (use free in \<open>auto simp: advance_wf_def\<close>)

lemma no_pool_no_exposure:
  assumes laws: "pda_find_law rt" "pda_collision_free rt" and wf: "accounts_wf rt w"
    and len: "length P = 32" and free: "accounts w P = None"
  shows "outstanding rt (accounts w) P Q = 0"
  by (rule outstanding_none, drule (1) stored_advance_wf [OF laws wf _ _ len])
     (use free in \<open>auto simp: advance_wf_def\<close>)

lemma request_advance_exposure:
  assumes laws: "pda_find_law rt" "pda_collision_free rt"
    and wf: "accounts_wf rt w" and ex: "exposure_ok rt w" and wf': "accounts_wf rt w'"
    and len: "length (ra_pool a) = 32" "length (ra_agent a) = 32"
    and ok: "request_advance rt tx a rid amount nonce w = Inr (w', ev)"
  shows "exposure_ok rt w'"
  using ok
proof (rule request_advance_Inr)
  fix c att l1 l2 fee late D'
  let ?adv = "advance_of tx a c rid amount att fee late"
  assume acc: "RequestAdvance_accounts rt tx a rid w = Inr c"
    and roll: "roll_ledger (tx_now tx) (rc_ledger_bump c) (ra_agent a) (ra_pool a) (agent_window_cap (rc_pool c))
       amount (rc_ledger c) = Inr l1"
    and und: "underwrite att (max_advance_abs (rc_pool c)) amount l1 = Inr l2"
    and D': "unat D' = unat (deployed_amount (rc_pool c)) + unat amount"
    and w': "accounts w' = (accounts w)(
       ra_pool a \<mapsto> PoolAccount (rc_pool c\<lparr>deployed_amount := D'\<rparr>),
       ra_advance a \<mapsto> AdvanceAccount ?adv,
       ra_consumed a \<mapsto> ConsumedAccount (consumed_of tx a c nonce),
       ra_issuance_ledger a \<mapsto> LedgerAccount l2)"
  note A = RequestAdvance_accounts_Inr [OF acc]
  note L = ledger_if_needed_Inr [OF A(10)]
  note id = request_ledger_identity [OF laws wf len A(10) roll und]
  have fin: "finite (dom (accounts w))" using wf by (simp add: accounts_wf_def)
  have keys: "ra_advance a \<noteq> ra_pool a" "ra_consumed a \<noteq> ra_pool a" "ra_issuance_ledger a \<noteq> ra_pool a"
    "accounts w (ra_advance a) = None" "accounts w (ra_consumed a) = None"
    using A(4,6,8) L(2) by (auto simp: address_free_def)
  have old: "accounts w (ra_issuance_ledger a) \<noteq> Some (AdvanceAccount b)" for b
    using L(2) by (auto simp: address_free_def)
  have at: "advance_at rt (ra_pool a) (ra_advance a) ?adv" using A(5) by (simp add: advance_at_def advance_of_def)
  have sum: "int (outstanding rt (accounts w') P' Q)
      = int (outstanding rt (accounts w) P' Q) + 1 * int (weight rt P' Q (ra_advance a) ?adv)" for P' Q
  proof -
    have "outstanding rt (accounts w') P' Q = outstanding rt ((accounts w)(ra_advance a \<mapsto> AdvanceAccount ?adv)) P' Q"
      by (rule outstanding_cong) (use keys old A(4,9,11,12) in \<open>auto simp: w'\<close>)
    then show ?thesis using outstanding_add [OF fin, of "ra_advance a"] keys by simp
  qed
  have live: "unat (live_principal (rc_ledger c)) =
      outstanding rt (accounts w) (ra_pool a) (\<lambda>b. adv_agent b = ra_agent a)"
    using L(2) no_ledger_no_exposure [OF laws wf len(1)] L(1) exposureD(2) [OF ex] id(2)
    by (auto simp: address_free_def ledger_address_def zeroed_ledger_def)
  show ?thesis
  proof (rule exposure_move [OF laws ex wf' at len(1) _ sum A(4)])
    show "int (unat (live_principal l2)) =
        int (outstanding rt (accounts w) (ra_pool a) (\<lambda>b. adv_agent b = adv_agent ?adv)) + 1 * int (unat (principal ?adv))"
      using live roll_ledger_Inr(4) [OF roll] underwrite_Inr(6) [OF und] by (simp add: advance_of_def del: of_nat_unat)
    show "int (unat (deployed_amount (rc_pool c\<lparr>deployed_amount := D'\<rparr>))) =
        int (unat (deployed_amount (rc_pool c))) + 1 * int (unat (principal ?adv))"
      using D' by (simp add: advance_of_def del: of_nat_unat)
  qed (use keys id(1) len A(9,11,12) in \<open>auto simp: w' advance_of_def split: if_splits\<close>)
qed

lemma claim_and_settle_exposure:
  assumes laws: "pda_find_law rt" "pda_collision_free rt"
    and wf: "accounts_wf rt w" and ex: "exposure_ok rt w" and len: "length (cs_pool a) = 32"
    and ok: "claim_and_settle rt tx a payment w = Inr (w', ev)"
  shows "exposure_ok rt w'"
  using ok
proof (rule claim_and_settle_Inr)
  fix adv c l pool m L' D' A' F'
  assume acc: "ClaimAndSettle_accounts rt tx a w = Inr (adv, c, l, pool, m)"
    and L': "unat (live_principal l) = unat L' + unat (principal adv)"
    and D': "unat (deployed_amount pool) = unat D' + unat (principal adv)"
    and w': "accounts w' = settled_accounts a (l\<lparr>live_principal := L'\<rparr>)
       (pool\<lparr>deployed_amount := D', total_assets := A', accrued_protocol_fees := F'\<rparr>) (accounts w)"
  note A = ClaimAndSettle_accounts_Inr [OF acc]
  show ?thesis
    by (rule exposure_close [OF laws wf ex claim_and_settle_wf [OF wf ok] len A(3,5,6), where T = "{}"])
       (use L' D' in \<open>auto simp: w' settled_accounts_def\<close>)
qed

lemma liquidate_exposure:
  assumes laws: "pda_find_law rt" "pda_collision_free rt"
    and wf: "accounts_wf rt w" and ex: "exposure_ok rt w" and len: "length (lq_pool a) = 32"
    and ok: "liquidate rt tx a w = Inr (w', ev)"
  shows "exposure_ok rt w'"
  using ok
proof (rule liquidate_Inr)
  fix adv l b pool L' D' A'
  assume acc: "Liquidate_accounts rt tx a w = Inr (adv, l, b, pool)"
    and L': "unat (live_principal l) = unat L' + unat (principal adv)"
    and D': "unat (deployed_amount pool) = unat D' + unat (principal adv)"
    and w': "accounts w' = ((accounts w)(
       lq_issuance_ledger a \<mapsto> LedgerAccount (l\<lparr>live_principal := L'\<rparr>),
       lq_pool a \<mapsto> PoolAccount (pool\<lparr>deployed_amount := D', total_assets := A'\<rparr>),
       lq_tombstone a \<mapsto> TombstoneAccount (tombstone_of tx adv b)))(lq_advance a := None)"
  note A = Liquidate_accounts_Inr [OF acc]
  have "lq_tombstone a \<noteq> lq_pool a" "lq_tombstone a \<noteq> lq_issuance_ledger a"
    using A(3,4,6) by (auto simp: result address_free_def)
  then show ?thesis
    by (intro exposure_close [OF laws wf ex liquidate_wf [OF wf ok] len A(1,3,4), where T = "{lq_tombstone a}"])
       (use L' D' A(6) in \<open>auto simp: w' address_free_def\<close>)
qed

lemma init_pool_exposure:
  assumes laws: "pda_find_law rt" "pda_collision_free rt"
    and wf: "accounts_wf rt w" and ex: "exposure_ok rt w" and len: "length (ip_pool a) = 32"
    and ok: "init_pool rt tx a params w = Inr (w', ev)"
  shows "exposure_ok rt w'"
  using ok
proof (rule init_pool_Inr)
  fix bump ts1 ts2 pool
  assume free: "address_free w (ip_pool a)"
    and pool: "pool = \<lparr> pool_bump = bump, pool_asset_mint = ip_asset_mint a, pool_usdc_vault = ip_usdc_vault a,
       pool_share_mint = ip_share_mint a, pool_treasury_ata = ipp_treasury_ata params,
       pool_governance = ipp_governance params, total_assets = 0, total_shares = 0,
       deployed_amount = 0, accrued_protocol_fees = 0, fee_curve = ipp_fee_curve params,
       max_advance_pct_bps = ipp_max_advance_pct_bps params,
       max_advance_abs = ipp_max_advance_abs params, agent_window_cap = ipp_agent_window_cap params,
       timelock_seconds = ipp_timelock_seconds params, pool_chain_id = ipp_chain_id params,
       pending_params = None \<rparr>"
    and w': "w' = \<lparr>accounts = (accounts w)(ip_pool a \<mapsto> PoolAccount pool), tokens = ts2\<rparr>"
  have same: "outstanding rt (accounts w') P Q = outstanding rt (accounts w) P Q" for P Q
    by (rule outstanding_cong) (use free in \<open>auto simp: w' address_free_def\<close>)
  have "outstanding rt (accounts w) (ip_pool a) Q = 0" for Q
    using no_pool_no_exposure [OF laws wf len] free by (simp add: address_free_def)
  then show ?thesis
    using ex unfolding exposure_ok_def same by (auto simp: w' pool)
qed

lemma pool_update_exposure:
  assumes "exposure_ok rt w" and "accounts w k = Some (PoolAccount p)"
    and "accounts w' = (accounts w)(k \<mapsto> PoolAccount p')" and "deployed_amount p' = deployed_amount p"
  shows "exposure_ok rt w'"
  by (rule exposure_same_advances [OF assms(1)]) (use assms(2-) in \<open>auto split: if_splits\<close>)

lemma process_escrow_exposure:
  assumes laws: "pda_find_law rt" "pda_collision_free rt"
    and wf: "accounts_wf rt w" and ex: "exposure_ok rt w"
    and typed: "escrow_ix_typed ix" and ok: "process_escrow rt tx ix w = Inr (w', ev)"
  shows "exposure_ok rt w'"
proof (cases ix)
  case (Ix_init_pool a params)
  with ok typed show ?thesis by (auto intro: init_pool_exposure [OF laws wf ex])
next
  case (Ix_deposit a amount)
  with ok have "deposit rt tx a amount w = Inr (w', ev)" by simp
  then show ?thesis
    by (rule deposit_Inr) (erule pool_update_exposure [OF ex Deposit_accounts_Inr(2)], assumption, simp)
next
  case (Ix_withdraw a shares)
  with ok have "withdraw rt tx a shares w = Inr (w', ev)" by simp
  then show ?thesis
    by (rule withdraw_Inr) (erule pool_update_exposure [OF ex Deposit_accounts_Inr(2)], assumption, simp)
next
  case (Ix_request_advance a rid amount nonce)
  with ok typed show ?thesis
    using request_advance_exposure [OF laws wf ex process_escrow_wf [OF laws wf typed ok]] by auto
next
  case (Ix_claim_and_settle a payment)
  with ok typed show ?thesis by (auto intro: claim_and_settle_exposure [OF laws wf ex])
next
  case (Ix_liquidate a)
  with ok typed show ?thesis by (auto intro: liquidate_exposure [OF laws wf ex])
next
  case (Ix_propose_params a params)
  with ok have "propose_params rt tx a params w = Inr (w', ev)" by simp
  then show ?thesis
    by (rule propose_params_Inr) (auto intro: pool_update_exposure [OF ex])
next
  case (Ix_execute_params a)
  with ok have "execute_params rt tx a w = Inr (w', ev)" by simp
  then show ?thesis
    by (rule execute_params_Inr) (auto intro: pool_update_exposure [OF ex])
next
  case (Ix_skim_protocol_fees a amount)
  with ok have "skim_protocol_fees rt tx a amount w = Inr (w', ev)" by simp
  then show ?thesis
    by (rule skim_protocol_fees_Inr)
       (erule pool_update_exposure [OF ex SkimProtocolFees_accounts_Inr(1)], assumption, simp)
qed

lemma process_registry_exposure:
  assumes ex: "exposure_ok rt w" and ok: "process_registry rt tx ix w = Inr (w', ev)"
  shows "exposure_ok rt w'"
proof (rule exposure_same_advances [OF ex])
  have keep: "accounts w' k = accounts w k" if "accounts w k = Some (AdvanceAccount x) \<or> accounts w k = Some (LedgerAccount y)
      \<or> accounts w k = Some (PoolAccount z) \<or> accounts w' k = Some (AdvanceAccount x) \<or> accounts w' k = Some (LedgerAccount y)
      \<or> accounts w' k = Some (PoolAccount z)" for k x y z
    using ok that
    by (cases ix)
       (auto elim!: init_registry_Inr add_allowed_signer_Inr remove_allowed_signer_Inr set_governance_Inr
          simp: address_free_def result split: if_splits)
  then show "accounts w k = Some (AdvanceAccount x) \<longleftrightarrow> accounts w' k = Some (AdvanceAccount x)" for k x by metis
  show "\<exists>p. accounts w P = Some (PoolAccount p) \<and> deployed_amount p' = deployed_amount p"
    if "accounts w' P = Some (PoolAccount p')" for P p' using keep that by metis
  show "accounts w k = Some (LedgerAccount l')" if "accounts w' k = Some (LedgerAccount l')" for k l'
    using keep that by metis
qed

lemma step_exposure:
  assumes env: "environment rt" and wf: "accounts_wf rt w" and ex: "exposure_ok rt w" and st: "step rt w w'"
  shows "exposure_ok rt w'"
  using st
proof cases
  case (escrow tx ix ev)
  then show ?thesis using process_escrow_exposure [OF environmentD(2,3) [OF env] wf ex] by blast
next
  case (registry ix tx ev)
  then show ?thesis using process_registry_exposure [OF ex] by blast
next
  case (external ts')
  then show ?thesis using ex by (simp add: exposure_ok_def)
qed

interpretation exposure_run:
  step_invariant "step rt" "\<lambda>w. environment rt \<and> accounts_wf rt w \<and> exposure_ok rt w" for rt
  by unfold_locales (blast intro: step_accounts_wf step_exposure)

lemma reachable_exposure: "environment rt \<Longrightarrow> reachable rt w \<Longrightarrow> exposure_ok rt w"
  unfolding reachable_def using exposure_run.run_inv accounts_wf_initial exposure_ok_initial by blast

end
