(* ===== verification/Token_Effects.thy ===== *)
theory Token_Effects
  imports Account_Invariant
begin

text \<open>
  The effect of every instruction on token balances and supplies, for accounts that an address
  of the escrow owns (such as a pool's vault): nobody but the escrow moves tokens out of them.
\<close>

definition guarded :: "runtime \<Rightarrow> token_state \<Rightarrow> pubkey \<Rightarrow> bool" where
  "guarded rt ts v \<longleftrightarrow> (\<exists>ta. tok_accounts ts v = Some ta \<and> escrow_pda rt (ta_owner ta))"

lemma signer_not_guarded:
  assumes "no_pda_signer rt tx" and "g \<in> set (tx_signers tx)"
    and "\<exists>ta. tok_accounts ts k = Some ta \<and> ta_owner ta = g \<and> R ta" and "guarded rt ts v"
  shows "v \<noteq> k"
  using assms by (auto simp: guarded_def no_pda_signer_def escrow_pda_def)

lemma guarded_keeps: "keeps_tokens ts ts' \<Longrightarrow> guarded rt ts v \<Longrightarrow> guarded rt ts' v"
  unfolding guarded_def keeps_tokens_def by metis

section \<open>Deposit and withdraw\<close>

lemma deposit_tokens:
  assumes law: "spl_token_laws rt" and sig: "no_pda_signer rt tx"
    and ok: "deposit rt tx a amount w = Inr (w', Deposited P g x s)"
    and acc: "Deposit_accounts rt tx a w = Inr (pool, vault, m)"
  shows "keeps_tokens (tokens w) (tokens w')"
    and "guarded rt (tokens w) v \<Longrightarrow>
           balance (tokens w') v = balance (tokens w) v + (if v = pool_usdc_vault pool then unat amount else 0)"
    and "supply_of (tokens w') k = supply_of (tokens w) k + (if k = pool_share_mint pool then unat s else 0)"
proof -
  note D = Deposit_accounts_Inr [OF acc]
  from ok acc obtain ts1 where
    t: "transfer_checked rt tx [] (tokens w) (lp_usdc_ata a) (lp_usdc_mint a) (lp_usdc_vault a)
       (lp a) amount (mint_decimals m) = (Inr ts1 :: escrow_error + token_state)"
    and mt: "mint_to rt tx [signer_seeds pool (pool_bump pool)] ts1 (lp_share_mint a) (lp_share_ata a)
       (lp_pool a) s = (Inr (tokens w') :: escrow_error + token_state)"
    by (auto elim!: deposit_Inr)
  note T = transfer_effect [OF law t] and M = mint_effect [OF law mt]
  show "keeps_tokens (tokens w) (tokens w')" using T(1) M(1) by (rule keeps_tokens_trans)
  show "supply_of (tokens w') k = supply_of (tokens w) k + (if k = pool_share_mint pool then unat s else 0)"
    using M(3) [of k] T(2) D(6) by (simp add: supply_of_def)
  assume g: "guarded rt (tokens w) v"
  have "v \<noteq> lp_usdc_ata a" "v \<noteq> lp_share_ata a"
    using D(8,9) signer_not_guarded [OF sig D(1) _ g] by blast+
  then show "balance (tokens w') v = balance (tokens w) v + (if v = pool_usdc_vault pool then unat amount else 0)"
    using T(4) [of v] M(2) [of v] D(4) by (simp split: if_splits)
qed

lemma withdraw_tokens:
  assumes law: "spl_token_laws rt" and sig: "no_pda_signer rt tx"
    and ok: "withdraw rt tx a shares w = Inr (w', Withdrew P g x r)"
    and acc: "Deposit_accounts rt tx a w = Inr (pool, vault, m)"
  shows "keeps_tokens (tokens w) (tokens w')"
    and "guarded rt (tokens w) v \<Longrightarrow>
           balance (tokens w') v + (if v = pool_usdc_vault pool then unat r else 0) = balance (tokens w) v"
    and "supply_of (tokens w') k + (if k = pool_share_mint pool then unat shares else 0) = supply_of (tokens w) k"
proof -
  note D = Deposit_accounts_Inr [OF acc]
  from ok acc obtain ts1 where
    b: "burn rt tx [] (tokens w) (lp_share_mint a) (lp_share_ata a) (lp a) shares
       = (Inr ts1 :: escrow_error + token_state)"
    and t: "transfer_checked rt tx [signer_seeds pool (pool_bump pool)] ts1 (lp_usdc_vault a)
       (lp_usdc_mint a) (lp_usdc_ata a) (lp_pool a) r (mint_decimals m)
       = (Inr (tokens w') :: escrow_error + token_state)"
    by (auto elim!: withdraw_Inr)
  note B = burn_effect [OF law b] and T = transfer_effect [OF law t]
  show "keeps_tokens (tokens w) (tokens w')" using B(1) T(1) by (rule keeps_tokens_trans)
  show "supply_of (tokens w') k + (if k = pool_share_mint pool then unat shares else 0) = supply_of (tokens w) k"
    using B(3) [of k] T(2) D(6) by (simp add: supply_of_def)
  assume g: "guarded rt (tokens w) v"
  have "v \<noteq> lp_usdc_ata a" "v \<noteq> lp_share_ata a"
    using D(8,9) signer_not_guarded [OF sig D(1) _ g] by blast+
  then show "balance (tokens w') v + (if v = pool_usdc_vault pool then unat r else 0) = balance (tokens w) v"
    using T(4) [of v] B(2) [of v] D(4) by (simp split: if_splits)
qed

section \<open>Skim\<close>

lemma skim_tokens:
  assumes law: "spl_token_laws rt"
    and ok: "skim_protocol_fees rt tx a amount w = Inr (w', ev)"
    and acc: "SkimProtocolFees_accounts rt tx a w = Inr (pool, m)"
  shows "keeps_tokens (tokens w) (tokens w')"
    and "balance (tokens w') v + (if v = pool_usdc_vault pool then unat amount else 0)
           = balance (tokens w) v + (if v = pool_treasury_ata pool then unat amount else 0)"
    and "unat amount \<le> balance (tokens w) (pool_usdc_vault pool)"
    and "supply_of (tokens w') k = supply_of (tokens w) k"
proof -
  note S = SkimProtocolFees_accounts_Inr [OF acc]
  from ok acc have
    t: "transfer_checked rt tx [signer_seeds pool (pool_bump pool)] (tokens w) (sk_pool_usdc_vault a)
       (sk_usdc_mint a) (sk_recipient_ata a) (sk_pool a) amount (mint_decimals m)
       = (Inr (tokens w') :: escrow_error + token_state)"
    by (auto elim!: skim_protocol_fees_Inr)
  note T = transfer_effect [OF law t]
  show "keeps_tokens (tokens w) (tokens w')" by (rule T(1))
  show "supply_of (tokens w') k = supply_of (tokens w) k" using T(2) by (simp add: supply_of_def)
  show "balance (tokens w') v + (if v = pool_usdc_vault pool then unat amount else 0)
      = balance (tokens w) v + (if v = pool_treasury_ata pool then unat amount else 0)"
    "unat amount \<le> balance (tokens w) (pool_usdc_vault pool)"
    using T(3,4) S(3,4) by simp_all
qed

section \<open>Issuance and settlement\<close>

lemma request_ata_not_vault:
  assumes law: "spl_token_laws rt" and sig: "no_pda_signer rt tx"
    and acc: "RequestAdvance_accounts rt tx a rid w = Inr c" and g: "guarded rt (tokens w) v"
  shows "ra_agent_usdc_ata a \<noteq> v"
proof -
  note A = RequestAdvance_accounts_Inr [OF acc]
  note I = agent_ata_if_needed_Inr [OF law A(15)]
  have "\<exists>ta. tok_accounts (rc_tokens c) (ra_agent_usdc_ata a) = Some ta \<and> ta_owner ta = ra_agent a \<and> True"
    using I(4) by blast
  then show ?thesis
    using signer_not_guarded [OF sig A(1) _ guarded_keeps [OF I(1) g]] by blast
qed

lemma request_advance_tokens:
  assumes law: "spl_token_laws rt" and sig: "no_pda_signer rt tx"
    and ok: "request_advance rt tx a rid amount nonce w = Inr (w', ev)"
    and acc: "RequestAdvance_accounts rt tx a rid w = Inr c"
  shows "keeps_tokens (tokens w) (tokens w')"
    and "guarded rt (tokens w) v \<Longrightarrow>
           balance (tokens w') v + (if v = pool_usdc_vault (rc_pool c) then unat amount else 0) = balance (tokens w) v"
    and "unat amount \<le> balance (tokens w) (pool_usdc_vault (rc_pool c))"
    and "supply_of (tokens w') k = supply_of (tokens w) k"
    and "balance (tokens w') (ra_agent_usdc_ata a) =
           balance (tokens w) (ra_agent_usdc_ata a) + unat amount
         \<or> ra_agent_usdc_ata a = pool_usdc_vault (rc_pool c)"
proof -
  note A = RequestAdvance_accounts_Inr [OF acc]
  note I = agent_ata_if_needed_Inr [OF law A(15)]
  from ok acc have
    t: "transfer_checked rt tx [signer_seeds (rc_pool c) (pool_bump (rc_pool c))] (rc_tokens c)
       (ra_pool_usdc_vault a) (ra_usdc_mint a) (ra_agent_usdc_ata a) (ra_pool a) amount
       (mint_decimals (rc_usdc_mint c)) = (Inr (tokens w') :: escrow_error + token_state)"
    by (auto elim!: request_advance_Inr)
  note T = transfer_effect [OF law t]
  show "keeps_tokens (tokens w) (tokens w')" using I(1) T(1) by (rule keeps_tokens_trans)
  show "supply_of (tokens w') k = supply_of (tokens w) k" using T(2) I(3) by (simp add: supply_of_def)
  show "unat amount \<le> balance (tokens w) (pool_usdc_vault (rc_pool c))" using T(3) I(2) A(13) by simp
  show "balance (tokens w') (ra_agent_usdc_ata a) = balance (tokens w) (ra_agent_usdc_ata a) + unat amount
      \<or> ra_agent_usdc_ata a = pool_usdc_vault (rc_pool c)"
    using T(4) [of "ra_agent_usdc_ata a"] I(2) A(13) by (auto split: if_splits)
  assume g: "guarded rt (tokens w) v"
  have "v \<noteq> ra_agent_usdc_ata a" using request_ata_not_vault [OF law sig acc g] by simp
  then show "balance (tokens w') v + (if v = pool_usdc_vault (rc_pool c) then unat amount else 0) = balance (tokens w) v"
    using T(4) [of v] I(2) A(13) by (simp split: if_splits)
qed

text \<open>The two payments of a settlement; a payment of zero is skipped.\<close>

lemma optional_transfer_effect:
  assumes law: "spl_token_laws rt"
    and ok: "(if 0 < amount then transfer_checked rt tx seeds ts from_key mint_key to_key auth amount decs
              else Inr ts) = (Inr ts' :: 'c program_error + token_state)"
  shows "keeps_tokens ts ts'" and "tok_mints ts' = tok_mints ts"
    and "balance ts' v + (if v = from_key then unat amount else 0)
           = balance ts v + (if v = to_key then unat amount else 0)"
proof -
  have "keeps_tokens ts ts' \<and> tok_mints ts' = tok_mints ts \<and>
     balance ts' v + (if v = from_key then unat amount else 0)
       = balance ts v + (if v = to_key then unat amount else 0)" for v
  proof (cases "0 < amount")
    case True
    with ok have "transfer_checked rt tx seeds ts from_key mint_key to_key auth amount decs
        = (Inr ts' :: 'c program_error + token_state)" by simp
    from transfer_effect [OF law this] show ?thesis by blast
  next
    case False
    then have "amount = 0" by (simp add: word_gt_0)
    with ok show ?thesis by simp
  qed
  then show "keeps_tokens ts ts'" "tok_mints ts' = tok_mints ts"
    "balance ts' v + (if v = from_key then unat amount else 0)
       = balance ts v + (if v = to_key then unat amount else 0)" by blast+
qed

lemma settle_transfers:
  assumes law: "spl_token_laws rt"
    and ok: "claim_and_settle rt tx a payment w = Inr (w', ev)"
    and acc: "ClaimAndSettle_accounts rt tx a w = Inr (adv, c, l, pool, m)"
    and fall: "settlement_waterfall (tx_now tx) adv payment = Inr fall"
  shows "keeps_tokens (tokens w) (tokens w')" and "tok_mints (tokens w') = tok_mints (tokens w)"
    and "balance (tokens w') v + (if v = cs_agent_usdc_ata a then unat (wf_protocol_cut fall) + unat (wf_lp_cut fall) else 0)
           = balance (tokens w) v
             + (if v = pool_usdc_vault pool then unat (wf_lp_cut fall) else 0)
             + (if v = pool_treasury_ata pool then unat (wf_protocol_cut fall) else 0)"
proof -
  note A = ClaimAndSettle_accounts_Inr [OF acc]
  from ok acc fall obtain ts1 where
    t1: "(if 0 < wf_protocol_cut fall
      then transfer_checked rt tx [] (tokens w) (cs_agent_usdc_ata a) (cs_usdc_mint a)
             (cs_protocol_treasury_ata a) (cs_agent a) (wf_protocol_cut fall) (mint_decimals m)
      else Inr (tokens w)) = (Inr ts1 :: escrow_error + token_state)"
    and t2: "(if 0 < wf_lp_cut fall
      then transfer_checked rt tx [] ts1 (cs_agent_usdc_ata a) (cs_usdc_mint a)
             (cs_pool_usdc_vault a) (cs_agent a) (wf_lp_cut fall) (mint_decimals m)
      else Inr ts1) = (Inr (tokens w') :: escrow_error + token_state)"
    by (auto elim!: claim_and_settle_Inr)
  note T1 = optional_transfer_effect [OF law t1] and T2 = optional_transfer_effect [OF law t2]
  show "keeps_tokens (tokens w) (tokens w')" using T1(1) T2(1) by (rule keeps_tokens_trans)
  show "tok_mints (tokens w') = tok_mints (tokens w)" using T1(2) T2(2) by simp
  show "balance (tokens w') v + (if v = cs_agent_usdc_ata a then unat (wf_protocol_cut fall) + unat (wf_lp_cut fall) else 0)
      = balance (tokens w) v
        + (if v = pool_usdc_vault pool then unat (wf_lp_cut fall) else 0)
        + (if v = pool_treasury_ata pool then unat (wf_protocol_cut fall) else 0)"
    using T1(3) [of v] T2(3) [of v] A(7,9) by (simp split: if_splits)
qed

lemma claim_and_settle_tokens:
  assumes law: "spl_token_laws rt" and sig: "no_pda_signer rt tx"
    and ok: "claim_and_settle rt tx a payment w = Inr (w', ev)"
    and acc: "ClaimAndSettle_accounts rt tx a w = Inr (adv, c, l, pool, m)"
    and fall: "settlement_waterfall (tx_now tx) adv payment = Inr fall"
  shows "keeps_tokens (tokens w) (tokens w')"
    and "guarded rt (tokens w) v \<Longrightarrow>
           balance (tokens w') v = balance (tokens w) v
             + (if v = pool_usdc_vault pool then unat (wf_lp_cut fall) else 0)
             + (if v = pool_treasury_ata pool then unat (wf_protocol_cut fall) else 0)"
    and "supply_of (tokens w') k = supply_of (tokens w) k"
proof -
  note T = settle_transfers [OF law ok acc fall] and A = ClaimAndSettle_accounts_Inr [OF acc]
  show "keeps_tokens (tokens w) (tokens w')" by (rule T(1))
  show "supply_of (tokens w') k = supply_of (tokens w) k" using T(2) by (simp add: supply_of_def)
  assume g: "guarded rt (tokens w) v"
  have "v \<noteq> cs_agent_usdc_ata a" using signer_not_guarded [OF sig A(1,8) g] .
  with T(3) [of v] show "balance (tokens w') v = balance (tokens w) v
      + (if v = pool_usdc_vault pool then unat (wf_lp_cut fall) else 0)
      + (if v = pool_treasury_ata pool then unat (wf_protocol_cut fall) else 0)" by simp
qed

end
