(* ===== verification/Runs.thy ===== *)
theory Runs
  imports Transitions
begin

text \<open>
  Labelled runs of a step relation, as histories, and the interface \<open>functional_refinement\<close>: when
  every labelled step is matched by the operations its label stands for, every history is matched
  by the operations of its labels.
\<close>

text \<open>
  Labelled runs.  A history lists the steps of a run in order, each with the state before it, its
  label and the state after it.
\<close>

inductive history :: "('s \<Rightarrow> 'l \<Rightarrow> 's \<Rightarrow> bool) \<Rightarrow> 's \<Rightarrow> ('s \<times> 'l \<times> 's) list \<Rightarrow> 's \<Rightarrow> bool" for act where
  history_nil: "history act s [] s"
| history_snoc: "history act s h t \<Longrightarrow> act t l u \<Longrightarrow> history act s (h @ [(t, l, u)]) u"

lemma history_one: "act s l t \<Longrightarrow> history act s [(s, l, t)] t"
  using history_snoc [OF history_nil] by fastforce

lemma history_append: "history act t h' u \<Longrightarrow> history act s h t \<Longrightarrow> history act s (h @ h') u"
proof (induction rule: history.induct)
  case (history_snoc t h' u l v)
  then show ?case using history.history_snoc [of act s "h @ h'" u l v] by simp
qed simp

lemma history_cons: "act s l t \<Longrightarrow> history act t h u \<Longrightarrow> history act s ((s, l, t) # h) u"
  using history_append [of act t h u s "[(s, l, t)]"] history_one [of act s l t] by simp

lemma history_run: "history act s h t \<Longrightarrow> (\<lambda>s t. \<exists>l. act s l t)\<^sup>*\<^sup>* s t"
  by (induction rule: history.induct) (auto intro: rtranclp.rtrancl_into_rtrancl)

lemma run_history: "(\<lambda>s t. \<exists>l. act s l t)\<^sup>*\<^sup>* s t \<Longrightarrow> \<exists>h. history act s h t"
  by (induction rule: rtranclp_induct) (blast intro: history.intros)+

text \<open>Operations of an abstract machine, one after the other.\<close>

fun exec_all :: "('op \<Rightarrow> 'a \<Rightarrow> 'a option) \<Rightarrow> 'op list \<Rightarrow> 'a \<Rightarrow> 'a option" where
  "exec_all exec [] a = Some a"
| "exec_all exec (opn # ops) a = Option.bind (exec opn a) (exec_all exec ops)"

lemma exec_all_append:
  "exec_all exec (ops @ ops') a = Option.bind (exec_all exec ops a) (exec_all exec ops')"
  by (induction ops arbitrary: a) (simp_all split: bind_split)

text \<open>
  Functional refinement of labelled runs: when the operations that belong to a step take the
  abstraction of the state before it to the abstraction of the state after it, the operations of
  a whole history do.
\<close>

locale functional_refinement =
  fixes act :: "'s \<Rightarrow> 'l \<Rightarrow> 's \<Rightarrow> bool"
    and inv :: "'s \<Rightarrow> bool"
    and exec :: "'op \<Rightarrow> 'a \<Rightarrow> 'a option"
    and ops :: "'s \<times> 'l \<times> 's \<Rightarrow> 'op list"
    and abs :: "'s \<Rightarrow> 'a"
  assumes act_inv: "inv s \<Longrightarrow> act s l t \<Longrightarrow> inv t"
    and refine: "inv s \<Longrightarrow> act s l t \<Longrightarrow> exec_all exec (ops (s, l, t)) (abs s) = Some (abs t)"
begin

lemma history_inv: "history act s h t \<Longrightarrow> inv s \<Longrightarrow> inv t"
  by (induction rule: history.induct) (blast intro: act_inv)+

lemma history_refines:
  "history act s h t \<Longrightarrow> inv s \<Longrightarrow> exec_all exec (concat (map ops h)) (abs s) = Some (abs t)"
proof (induction rule: history.induct)
  case (history_snoc s h t l u)
  then show ?case using refine [OF history_inv [OF history_snoc.hyps(1)]] by (simp add: exec_all_append)
qed simp

end

end
