(* ===== verification/Histories.thy ===== *)
theory Histories
  imports Machine Runs
begin

text \<open>
  Runs of the two programs as histories.  A label names the transaction, the instruction and the
  event of a step; the labelled steps are the steps of theory Machine.  The log of a history is
  the sequence of events the escrow emitted, and the columns below read amounts off an event.
\<close>

datatype action =
    EscrowCall transaction escrow_ix escrow_event
  | RegistryCall transaction registry_ix registry_event
  | TokenActivity

fun performs :: "runtime \<Rightarrow> world \<Rightarrow> action \<Rightarrow> world \<Rightarrow> bool" where
  "performs rt w (EscrowCall tx ix ev) w' \<longleftrightarrow>
     no_pda_signer rt tx \<and> escrow_ix_typed ix \<and> process_escrow rt tx ix w = Inr (w', ev)"
| "performs rt w (RegistryCall tx ix ev) w' \<longleftrightarrow>
     registry_ix_typed ix \<and> process_registry rt tx ix w = Inr (w', ev)"
| "performs rt w TokenActivity w' \<longleftrightarrow>
     external_tokens rt (tokens w) (tokens w') \<and> w' = w\<lparr>tokens := tokens w'\<rparr>"

type_synonym entry = "world \<times> action \<times> world"

lemma step_performs: "step rt w w' \<longleftrightarrow> (\<exists>l. performs rt w l w')"
proof
  assume "step rt w w'"
  then show "\<exists>l. performs rt w l w'"
  proof cases
    case (escrow tx ix ev)
    then have "performs rt w (EscrowCall tx ix ev) w'" by simp
    then show ?thesis ..
  next
    case (registry ix tx ev)
    then have "performs rt w (RegistryCall tx ix ev) w'" by simp
    then show ?thesis ..
  next
    case (external ts')
    then have "performs rt w TokenActivity w'" by simp
    then show ?thesis ..
  qed
next
  assume "\<exists>l. performs rt w l w'"
  then obtain l where "performs rt w l w'" ..
  then show "step rt w w'"
    by (cases l) (auto intro: step.escrow step.registry dest: step.external)
qed

lemma performs_step: "performs rt w l w' \<Longrightarrow> step rt w w'"
  using step_performs by blast

lemma steps_history: "(step rt)\<^sup>*\<^sup>* w w' \<longleftrightarrow> (\<exists>h. history (performs rt) w h w')"
proof -
  have "step rt = (\<lambda>w w'. \<exists>l. performs rt w l w')" by (intro ext) (rule step_performs)
  then show ?thesis using history_run [of "performs rt"] run_history [of "performs rt"] by metis
qed

lemma history_reachable: "history (performs rt) w h w' \<Longrightarrow> reachable rt w \<Longrightarrow> reachable rt w'"
  using reachable_run steps_history by blast

lemma reachable_history: "reachable rt w \<longleftrightarrow> (\<exists>w0 h. initial w0 \<and> history (performs rt) w0 h w)"
  unfolding reachable_def steps_history by blast

section \<open>The log of events\<close>

fun entry_events :: "entry \<Rightarrow> escrow_event list" where
  "entry_events (w, EscrowCall tx ix ev, w') = [ev]"
| "entry_events (w, RegistryCall tx ix ev, w') = []"
| "entry_events (w, TokenActivity, w') = []"

definition events :: "entry list \<Rightarrow> escrow_event list" where
  "events h = concat (map entry_events h)"

abbreviation total :: "(escrow_event \<Rightarrow> nat) \<Rightarrow> entry list \<Rightarrow> nat" where
  "total f h \<equiv> sum_list (map f (events h))"

lemma events_simps [simp]: "events [] = []" "events (h @ h') = events h @ events h'"
    "events (e # h) = entry_events e @ events h"
  by (simp_all add: events_def)

text \<open>Advances are issued by \<open>request_advance\<close> only.\<close>

lemma issued_by_request:
  assumes "process_escrow rt tx ix w = Inr (w', AdvanceIssued P g k x fee e s)"
  shows "\<exists>a rid nonce. ix = Ix_request_advance a rid x nonce"
proof (cases ix)
  case (Ix_request_advance a rid amount nonce)
  then have "amount = x" using assms by (auto elim!: request_advance_Inr)
  with Ix_request_advance show ?thesis by blast
qed (use assms in \<open>auto elim!: deposit_Inr withdraw_Inr claim_and_settle_Inr liquidate_Inr skim_protocol_fees_Inr
      simp: init_pool_def init_pool_handler_def propose_params_def propose_params_handler_def
        execute_params_def execute_params_handler_def result Let_def\<close>)

text \<open>The amounts that an event reports for pool \<open>P\<close>.\<close>

fun deposited :: "pubkey \<Rightarrow> escrow_event \<Rightarrow> nat" where
  "deposited P (Deposited Q g x s) = (if Q = P then unat x else 0)"
| "deposited P _ = 0"

fun minted :: "pubkey \<Rightarrow> escrow_event \<Rightarrow> nat" where
  "minted P (Deposited Q g x s) = (if Q = P then unat s else 0)"
| "minted P _ = 0"

fun withdrawn :: "pubkey \<Rightarrow> escrow_event \<Rightarrow> nat" where
  "withdrawn P (Withdrew Q g s r) = (if Q = P then unat r else 0)"
| "withdrawn P _ = 0"

fun redeemed :: "pubkey \<Rightarrow> escrow_event \<Rightarrow> nat" where
  "redeemed P (Withdrew Q g s r) = (if Q = P then unat s else 0)"
| "redeemed P _ = 0"

fun issued :: "pubkey \<Rightarrow> escrow_event \<Rightarrow> nat" where
  "issued P (AdvanceIssued Q g k x fee e s) = (if Q = P then unat x else 0)"
| "issued P _ = 0"

fun repaid :: "pubkey \<Rightarrow> escrow_event \<Rightarrow> nat" where
  "repaid P (AdvanceSettled Q g k x lpc pc net late) = (if Q = P then unat x else 0)"
| "repaid P _ = 0"

fun lp_fees :: "pubkey \<Rightarrow> escrow_event \<Rightarrow> nat" where
  "lp_fees P (AdvanceSettled Q g k x lpc pc net late) = (if Q = P then unat lpc - unat x else 0)"
| "lp_fees P _ = 0"

fun protocol_cuts :: "pubkey \<Rightarrow> escrow_event \<Rightarrow> nat" where
  "protocol_cuts P (AdvanceSettled Q g k x lpc pc net late) = (if Q = P then unat pc else 0)"
| "protocol_cuts P _ = 0"

fun written_off :: "pubkey \<Rightarrow> escrow_event \<Rightarrow> nat" where
  "written_off P (AdvanceLiquidated Q g k x) = (if Q = P then unat x else 0)"
| "written_off P _ = 0"

fun skimmed :: "pubkey \<Rightarrow> escrow_event \<Rightarrow> nat" where
  "skimmed P (ProtocolFeesSkimmed Q x r) = (if Q = P then unat x else 0)"
| "skimmed P _ = 0"

end
