(* ===== verification/Books.thy ===== *)
theory Books
  imports Exposure Token_Effects Histories
begin

text \<open>
  The accounting of one pool as an abstract machine, and what a history does to it.

  A \<open>book\<close> holds the vault balance, the pool's four counters and the supply of the share token.
  An operation carries its amounts; \<open>book_exec\<close> refuses amounts that do not follow from the book
  (a deposit mints exactly the floor of the quote, a withdrawal pays exactly the floor of its
  quote).  \<open>ix_ops\<close> says which operations an instruction stands for, from its arguments and the
  state before it; \<open>event_ops\<close> reads the same operations off the event that it emits.
\<close>

section \<open>The abstract machine\<close>

record book =
  bk_vault :: nat
  bk_assets :: nat
  bk_shares :: nat
  bk_supply :: nat
  bk_deployed :: nat
  bk_fees :: nat

datatype book_op =
    BDeposit nat nat
      \<comment> \<open>amount paid, shares minted\<close>
  | BWithdraw nat nat
      \<comment> \<open>shares burned, amount paid out\<close>
  | BIssue nat
  | BSettle nat nat nat
      \<comment> \<open>principal, fee for the LPs, protocol cut\<close>
  | BLiquidate nat
  | BSkim nat
  | BReceive nat
      \<comment> \<open>tokens that reach the vault and are not booked\<close>
  | BBurn nat
      \<comment> \<open>shares that a holder burns\<close>

fun book_exec :: "book_op \<Rightarrow> book \<Rightarrow> book option" where
  "book_exec (BDeposit x s) b =
     (if 0 < x \<and> 0 < s \<and> s = shares_for x (bk_assets b) (bk_shares b)
      then Some (b\<lparr>bk_vault := bk_vault b + x, bk_assets := bk_assets b + x,
                   bk_shares := bk_shares b + s, bk_supply := bk_supply b + s\<rparr>)
      else None)"
| "book_exec (BWithdraw s r) b =
     (if 0 < s \<and> 0 < r \<and> r = assets_for s (bk_assets b) (bk_shares b)
         \<and> r \<le> bk_vault b \<and> r \<le> bk_assets b \<and> s \<le> bk_shares b \<and> s \<le> bk_supply b
      then Some (b\<lparr>bk_vault := bk_vault b - r, bk_assets := bk_assets b - r,
                   bk_shares := bk_shares b - s, bk_supply := bk_supply b - s\<rparr>)
      else None)"
| "book_exec (BIssue p) b =
     (if p \<le> bk_vault b \<and> bk_deployed b + p \<le> bk_assets b
      then Some (b\<lparr>bk_vault := bk_vault b - p, bk_deployed := bk_deployed b + p\<rparr>)
      else None)"
| "book_exec (BSettle p f c) b =
     (if p \<le> bk_deployed b
      then Some (b\<lparr>bk_vault := bk_vault b + p + f, bk_deployed := bk_deployed b - p,
                   bk_assets := bk_assets b + f, bk_fees := bk_fees b + c\<rparr>)
      else None)"
| "book_exec (BLiquidate p) b =
     (if p \<le> bk_deployed b \<and> p \<le> bk_assets b
      then Some (b\<lparr>bk_deployed := bk_deployed b - p, bk_assets := bk_assets b - p\<rparr>)
      else None)"
| "book_exec (BSkim x) b =
     (if x \<le> bk_fees b \<and> x \<le> bk_vault b
      then Some (b\<lparr>bk_vault := bk_vault b - x, bk_fees := bk_fees b - x\<rparr>)
      else None)"
| "book_exec (BReceive d) b = Some (b\<lparr>bk_vault := bk_vault b + d\<rparr>)"
| "book_exec (BBurn s) b =
     (if s \<le> bk_supply b then Some (b\<lparr>bk_supply := bk_supply b - s\<rparr>) else None)"

abbreviation book_run :: "book_op list \<Rightarrow> book \<Rightarrow> book option" where
  "book_run \<equiv> exec_all book_exec"

fun_cases book_exec_cases: "book_exec opn b = Some b'"

definition empty_book :: book where
  "empty_book = \<lparr> bk_vault = 0, bk_assets = 0, bk_shares = 0, bk_supply = 0, bk_deployed = 0, bk_fees = 0 \<rparr>"

section \<open>The book of a pool\<close>

definition pool_book :: "world \<Rightarrow> Pool \<Rightarrow> book" where
  "pool_book w p = \<lparr> bk_vault = balance (tokens w) (pool_usdc_vault p),
     bk_assets = unat (total_assets p), bk_shares = unat (total_shares p),
     bk_supply = supply_of (tokens w) (pool_share_mint p),
     bk_deployed = unat (deployed_amount p), bk_fees = unat (accrued_protocol_fees p) \<rparr>"

text \<open>A pool that does not exist has an empty book.\<close>

definition book_at :: "pubkey \<Rightarrow> world \<Rightarrow> book" where
  "book_at P w = (case accounts w P of Some (PoolAccount p) \<Rightarrow> pool_book w p | _ \<Rightarrow> empty_book)"

definition has_pool :: "world \<Rightarrow> pubkey \<Rightarrow> bool" where
  "has_pool w P \<longleftrightarrow> (\<exists>p. accounts w P = Some (PoolAccount p))"

lemma book_at_pool: "accounts w P = Some (PoolAccount p) \<Longrightarrow> book_at P w = pool_book w p"
  by (simp add: book_at_def)

lemma book_at_absent: "\<not> has_pool w P \<Longrightarrow> book_at P w = empty_book"
  unfolding book_at_def has_pool_def by (auto split: option.split account_data.split)

section \<open>What an instruction, an event, a step stands for\<close>

text \<open>
  A protocol cut or a skim goes to the treasury account that pool \<open>Q\<close> names; nothing keeps that
  account from being the vault of a pool.
\<close>

definition paid_into :: "pubkey \<Rightarrow> world \<Rightarrow> pubkey \<Rightarrow> nat \<Rightarrow> nat" where
  "paid_into P w Q x =
     (case accounts w P of
        Some (PoolAccount p) \<Rightarrow>
          (case accounts w Q of
             Some (PoolAccount q) \<Rightarrow> if pool_usdc_vault p = pool_treasury_ata q then x else 0
           | _ \<Rightarrow> 0)
      | _ \<Rightarrow> 0)"

definition on_pool :: "pubkey \<Rightarrow> pubkey \<Rightarrow> book_op \<Rightarrow> book_op list" where
  "on_pool P Q opn = (if Q = P then [opn] else [])"

fun ix_ops :: "pubkey \<Rightarrow> transaction \<Rightarrow> escrow_ix \<Rightarrow> world \<Rightarrow> book_op list" where
  "ix_ops P tx (Ix_deposit a amount) w =
     on_pool P (lp_pool a)
       (BDeposit (unat amount) (shares_for (unat amount) (bk_assets (book_at P w)) (bk_shares (book_at P w))))"
| "ix_ops P tx (Ix_withdraw a shares) w =
     on_pool P (lp_pool a)
       (BWithdraw (unat shares) (assets_for (unat shares) (bk_assets (book_at P w)) (bk_shares (book_at P w))))"
| "ix_ops P tx (Ix_request_advance a rid amount nonce) w = on_pool P (ra_pool a) (BIssue (unat amount))"
| "ix_ops P tx (Ix_claim_and_settle a payment) w =
     (case accounts w (cs_advance a) of
        Some (AdvanceAccount adv) \<Rightarrow>
          (let due = fees_due (tx_now tx) adv; cut = protocol_share due in
           on_pool P (cs_pool a) (BSettle (unat (principal adv)) (due - cut) cut)
             @ [BReceive (paid_into P w (cs_pool a) cut)])
      | _ \<Rightarrow> [])"
| "ix_ops P tx (Ix_liquidate a) w =
     (case accounts w (lq_advance a) of
        Some (AdvanceAccount adv) \<Rightarrow> on_pool P (lq_pool a) (BLiquidate (unat (principal adv)))
      | _ \<Rightarrow> [])"
| "ix_ops P tx (Ix_skim_protocol_fees a amount) w =
     on_pool P (sk_pool a) (BSkim (unat amount)) @ [BReceive (paid_into P w (sk_pool a) (unat amount))]"
| "ix_ops P tx _ w = []"

fun event_ops :: "pubkey \<Rightarrow> world \<Rightarrow> escrow_event \<Rightarrow> book_op list" where
  "event_ops P w (Deposited Q g x s) = on_pool P Q (BDeposit (unat x) (unat s))"
| "event_ops P w (Withdrew Q g s r) = on_pool P Q (BWithdraw (unat s) (unat r))"
| "event_ops P w (AdvanceIssued Q g k x fee e s) = on_pool P Q (BIssue (unat x))"
| "event_ops P w (AdvanceSettled Q g k x lpc pc net late) =
     on_pool P Q (BSettle (unat x) (unat lpc - unat x) (unat pc)) @ [BReceive (paid_into P w Q (unat pc))]"
| "event_ops P w (AdvanceLiquidated Q g k x) = on_pool P Q (BLiquidate (unat x))"
| "event_ops P w (ProtocolFeesSkimmed Q x r) =
     on_pool P Q (BSkim (unat x)) @ [BReceive (paid_into P w Q (unat x))]"
| "event_ops P w _ = []"

text \<open>Token activity outside the programs: what the vault gains, what holders burn.\<close>

definition gained_outside :: "pubkey \<Rightarrow> world \<Rightarrow> world \<Rightarrow> nat" where
  "gained_outside P w w' = (if has_pool w P then bk_vault (book_at P w') - bk_vault (book_at P w) else 0)"

definition burned_outside :: "pubkey \<Rightarrow> world \<Rightarrow> world \<Rightarrow> nat" where
  "burned_outside P w w' = (if has_pool w P then bk_supply (book_at P w) - bk_supply (book_at P w') else 0)"

fun entry_ops :: "pubkey \<Rightarrow> entry \<Rightarrow> book_op list" where
  "entry_ops P (w, EscrowCall tx ix ev, w') = ix_ops P tx ix w"
| "entry_ops P (w, RegistryCall tx ix ev, w') = []"
| "entry_ops P (w, TokenActivity, w') = [BReceive (gained_outside P w w'), BBurn (burned_outside P w w')]"

section \<open>Totals of a history\<close>

text \<open>Tokens that reached the vault without being booked, and shares burned by their holders.\<close>

fun entry_received :: "pubkey \<Rightarrow> entry \<Rightarrow> nat" where
  "entry_received P (w, EscrowCall tx ix (AdvanceSettled Q g k x lpc pc net late), w') = paid_into P w Q (unat pc)"
| "entry_received P (w, EscrowCall tx ix (ProtocolFeesSkimmed Q x r), w') = paid_into P w Q (unat x)"
| "entry_received P (w, TokenActivity, w') = gained_outside P w w'"
| "entry_received P _ = 0"

fun entry_burned :: "pubkey \<Rightarrow> entry \<Rightarrow> nat" where
  "entry_burned P (w, TokenActivity, w') = burned_outside P w w'"
| "entry_burned P _ = 0"

definition received :: "pubkey \<Rightarrow> entry list \<Rightarrow> nat" where
  "received P h = sum_list (map (entry_received P) h)"

definition burned :: "pubkey \<Rightarrow> entry list \<Rightarrow> nat" where
  "burned P h = sum_list (map (entry_burned P) h)"

text \<open>A book agrees with the log of a history.\<close>

definition tallies :: "pubkey \<Rightarrow> entry list \<Rightarrow> book \<Rightarrow> bool" where
  "tallies P h b \<longleftrightarrow>
     bk_assets b + total (withdrawn P) h + total (written_off P) h = total (deposited P) h + total (lp_fees P) h
     \<and> bk_shares b + total (redeemed P) h = total (minted P) h
     \<and> bk_deployed b + total (repaid P) h + total (written_off P) h = total (issued P) h
     \<and> bk_fees b + total (skimmed P) h = total (protocol_cuts P) h
     \<and> bk_vault b + total (withdrawn P) h + total (issued P) h + total (skimmed P) h
         = total (deposited P) h + total (repaid P) h + total (lp_fees P) h + received P h
     \<and> bk_supply b + total (redeemed P) h + burned P h = total (minted P) h"

lemma tallies_empty: "tallies P [] empty_book"
  by (simp add: tallies_def empty_book_def received_def burned_def)

text \<open>Reading one event onto the book keeps the agreement.\<close>

lemma tallies_event:
  assumes "tallies P h b" and "book_run (event_ops P w ev) b = Some b'"
  shows "tallies P (h @ [(w, EscrowCall tx ix ev, w')]) b'"
  using assms
  by (cases ev) (auto simp: tallies_def received_def burned_def on_pool_def split: if_splits)

lemma tallies_registry: "tallies P h b \<Longrightarrow> tallies P (h @ [(w, RegistryCall tx ix ev, w')]) b"
  by (simp add: tallies_def received_def burned_def)

lemma tallies_outside:
  assumes "tallies P h b"
    and "book_run [BReceive (gained_outside P w w'), BBurn (burned_outside P w w')] b = Some b'"
  shows "tallies P (h @ [(w, TokenActivity, w')]) b'"
  using assms by (auto simp: tallies_def received_def burned_def split: if_splits)

section \<open>Assets per share\<close>

text \<open>The price of a share, virtual offsets included, compared as ratios: a deposit and a withdrawal never lower it.\<close>

lemma price_le_deposit:
  "(A + 1000000) * (S + shares_for x A S + 1000000000) \<le> (A + x + 1000000) * (S + 1000000000)"
  using div_mult_le_nat [of "x * (S + 1000000000)" "A + 1000000"]
  by (simp add: shares_for_def algebra_simps)

lemma price_le_withdraw:
  assumes "assets_for s A S \<le> A" and "s \<le> S"
  shows "(A + 1000000) * (S - s + 1000000000) \<le> (A - assets_for s A S + 1000000) * (S + 1000000000)"
proof -
  obtain r where r: "r = assets_for s A S" by simp
  then have floor: "r * (S + 1000000000) \<le> s * (A + 1000000)"
    by (simp add: assets_for_def div_mult_le_nat)
  from assms r obtain A' S' where A': "A = A' + r" and S': "S = S' + s"
    by (metis add.commute le_iff_add)
  show ?thesis using floor unfolding r [symmetric] by (simp add: A' S' algebra_simps)
qed

end
