(* ===== verification/Refinement.thy ===== *)
theory Refinement
  imports Books
begin

text \<open>
  Every step of the programs does to the book of each pool what the operations of theory Books
  that the step stands for do: the book after the step is the result of running them on the book
  before it.  A history therefore determines the book, and the book agrees with the log.
\<close>

section \<open>Vaults and share mints\<close>

definition tokens_ok :: "world \<Rightarrow> bool" where
  "tokens_ok w \<longleftrightarrow>
     (\<forall>P p. accounts w P = Some (PoolAccount p) \<longrightarrow>
        (\<exists>ta. tok_accounts (tokens w) (pool_usdc_vault p) = Some ta \<and> ta_owner ta = P)
        \<and> (\<exists>m. tok_mints (tokens w) (pool_share_mint p) = Some m \<and> mint_authority m = Some P))"

lemma tokens_ok_initial: "initial w \<Longrightarrow> tokens_ok w"
  by (simp add: tokens_ok_def initial_def)

lemma pools_disjoint:
  assumes "tokens_ok w" and "accounts w P = Some (PoolAccount p)" and "accounts w Q = Some (PoolAccount q)"
    and "P \<noteq> Q"
  shows "pool_usdc_vault p \<noteq> pool_usdc_vault q" and "pool_share_mint p \<noteq> pool_share_mint q"
  using assms unfolding tokens_ok_def by (metis option.inject)+

lemma pool_is_pda:
  assumes "accounts_wf rt w" and "accounts w P = Some (PoolAccount p)"
  shows "escrow_pda rt P"
  using accounts_wf_D [OF assms] unfolding escrow_pda_def by auto

lemma vault_guarded:
  assumes "accounts_wf rt w" and "tokens_ok w" and "accounts w P = Some (PoolAccount p)"
  shows "guarded rt (tokens w) (pool_usdc_vault p)"
  using assms pool_is_pda [OF assms(1,3)] unfolding tokens_ok_def guarded_def by blast

text \<open>Pools that were there before a step keep their vault and mint.\<close>

lemma tokens_ok_keeps:
  assumes ok: "tokens_ok w" and keep: "keeps_tokens (tokens w) (tokens w')"
    and old: "\<And>P p'. accounts w' P = Some (PoolAccount p') \<Longrightarrow>
        \<exists>p. accounts w P = Some (PoolAccount p) \<and> same_identity p p'"
  shows "tokens_ok w'"
  unfolding tokens_ok_def
proof (intro allI impI)
  fix P p'
  assume "accounts w' P = Some (PoolAccount p')"
  then obtain p where p: "accounts w P = Some (PoolAccount p)" "same_identity p p'" using old by blast
  from ok p(1) have "(\<exists>ta. tok_accounts (tokens w) (pool_usdc_vault p) = Some ta \<and> ta_owner ta = P)
        \<and> (\<exists>m. tok_mints (tokens w) (pool_share_mint p) = Some m \<and> mint_authority m = Some P)"
    unfolding tokens_ok_def by blast
  with keep p(2) show "(\<exists>ta. tok_accounts (tokens w') (pool_usdc_vault p') = Some ta \<and> ta_owner ta = P)
        \<and> (\<exists>m. tok_mints (tokens w') (pool_share_mint p') = Some m \<and> mint_authority m = Some P)"
    unfolding keeps_tokens_def same_identity_def by metis
qed

section \<open>Refinement, instruction by instruction\<close>

text \<open>A pool that a step leaves alone.\<close>

lemma book_untouched:
  assumes p: "accounts w P = Some (PoolAccount p)" "accounts w' P = Some (PoolAccount p)"
    and bal: "balance (tokens w') (pool_usdc_vault p) = balance (tokens w) (pool_usdc_vault p)"
    and sup: "supply_of (tokens w') (pool_share_mint p) = supply_of (tokens w) (pool_share_mint p)"
  shows "book_at P w' = book_at P w"
  using assms by (simp add: book_at_pool pool_book_def)

lemma paid_into_pool:
  assumes "accounts w P = Some (PoolAccount p)" and "accounts w Q = Some (PoolAccount q)"
  shows "paid_into P w Q x = (if pool_usdc_vault p = pool_treasury_ata q then x else 0)"
  using assms by (simp add: paid_into_def)

lemma deposit_refines:
  assumes law: "spl_token_laws rt" and sig: "no_pda_signer rt tx"
    and wf: "accounts_wf rt w" and tok: "tokens_ok w" and p: "accounts w P = Some (PoolAccount p)"
    and ok: "deposit rt tx a amount w = Inr (w', ev)"
  shows "book_run (event_ops P w ev) (book_at P w) = Some (book_at P w')"
  using ok
proof (rule deposit_Inr)
  fix pool vault m s ts1 A' S'
  assume acc: "Deposit_accounts rt tx a w = Inr (pool, vault, m)"
    and pos: "0 < amount" "0 < s"
    and q: "preview_deposit amount (total_assets pool) (total_shares pool) = Inr s"
    and A': "unat A' = unat (total_assets pool) + unat amount"
    and S': "unat S' = unat (total_shares pool) + unat s"
    and w': "accounts w' = (accounts w)(lp_pool a \<mapsto>
       PoolAccount (pool\<lparr>total_assets := A', total_shares := S'\<rparr>))"
    and ev: "ev = Deposited (lp_pool a) (lp a) amount s"
  note D = Deposit_accounts_Inr [OF acc]
  note T = deposit_tokens [OF law sig ok [unfolded ev] acc]
  note g = vault_guarded [OF wf tok p]
  show ?thesis
  proof (cases "lp_pool a = P")
    case True
    then have pp: "pool = p" using p D(2) by simp
    have p': "accounts w' P = Some (PoolAccount (p\<lparr>total_assets := A', total_shares := S'\<rparr>))"
      using True pp by (simp add: w')
    have s: "unat s = shares_for (unat amount) (unat (total_assets p)) (unat (total_shares p))"
      using preview_deposit_Inr [OF q] pp by simp
    show ?thesis
      using True pp pos s A' S' T(2) [OF g] T(3) [of "pool_share_mint p"]
      by (simp add: ev on_pool_def book_at_pool [OF p] book_at_pool [OF p'] pool_book_def word_less_nat_alt)
  next
    case False
    then have "book_at P w' = book_at P w"
      using pools_disjoint [OF tok p D(2)] T(2) [OF g] T(3) p
      by (intro book_untouched [OF p]) (simp_all add: w')
    then show ?thesis using False by (simp add: ev on_pool_def)
  qed
qed

lemma withdraw_refines:
  assumes law: "spl_token_laws rt" and sig: "no_pda_signer rt tx"
    and wf: "accounts_wf rt w" and tok: "tokens_ok w" and p: "accounts w P = Some (PoolAccount p)"
    and ok: "withdraw rt tx a shares w = Inr (w', ev)"
  shows "book_run (event_ops P w ev) (book_at P w) = Some (book_at P w')"
  using ok
proof (rule withdraw_Inr)
  fix pool vault m x ts1 A' S'
  assume acc: "Deposit_accounts rt tx a w = Inr (pool, vault, m)"
    and pos: "0 < shares" "0 < x"
    and q: "preview_redeem shares (total_assets pool) (total_shares pool) = Inr x"
    and A': "unat (total_assets pool) = unat A' + unat x"
    and S': "unat (total_shares pool) = unat S' + unat shares"
    and w': "accounts w' = (accounts w)(lp_pool a \<mapsto>
       PoolAccount (pool\<lparr>total_assets := A', total_shares := S'\<rparr>))"
    and ev: "ev = Withdrew (lp_pool a) (lp a) shares x"
  note D = Deposit_accounts_Inr [OF acc]
  note T = withdraw_tokens [OF law sig ok [unfolded ev] acc]
  note g = vault_guarded [OF wf tok p]
  show ?thesis
  proof (cases "lp_pool a = P")
    case True
    then have pp: "pool = p" using p D(2) by simp
    have p': "accounts w' P = Some (PoolAccount (p\<lparr>total_assets := A', total_shares := S'\<rparr>))"
      using True pp by (simp add: w')
    have x: "unat x = assets_for (unat shares) (unat (total_assets p)) (unat (total_shares p))"
      using preview_redeem_Inr [OF q] pp by simp
    have bal: "balance (tokens w) (pool_usdc_vault p) = balance (tokens w') (pool_usdc_vault p) + unat x"
      "supply_of (tokens w) (pool_share_mint p) = supply_of (tokens w') (pool_share_mint p) + unat shares"
      using T(2) [OF g] T(3) [of "pool_share_mint p"] pp by simp_all
    show ?thesis
      using True pp pos x A' S' bal
      by (simp add: ev on_pool_def book_at_pool [OF p] book_at_pool [OF p'] pool_book_def word_less_nat_alt)
  next
    case False
    then have "book_at P w' = book_at P w"
      using pools_disjoint [OF tok p D(2)] T(2) [OF g] T(3) [of "pool_share_mint p"] p
      by (intro book_untouched [OF p]) (simp_all add: w')
    then show ?thesis using False by (simp add: ev on_pool_def)
  qed
qed

lemma request_advance_refines:
  assumes law: "spl_token_laws rt" and sig: "no_pda_signer rt tx"
    and wf: "accounts_wf rt w" and tok: "tokens_ok w" and p: "accounts w P = Some (PoolAccount p)"
    and ok: "request_advance rt tx a rid amount nonce w = Inr (w', ev)"
  shows "book_run (event_ops P w ev) (book_at P w) = Some (book_at P w')"
  using ok
proof (rule request_advance_Inr)
  fix c att l1 l2 fee late D'
  assume acc: "RequestAdvance_accounts rt tx a rid w = Inr c"
    and D': "unat D' = unat (deployed_amount (rc_pool c)) + unat amount"
    and le: "D' \<le> total_assets (rc_pool c)"
    and w': "accounts w' = (accounts w)(
       ra_pool a \<mapsto> PoolAccount (rc_pool c\<lparr>deployed_amount := D'\<rparr>),
       ra_advance a \<mapsto> AdvanceAccount (advance_of tx a c rid amount att fee late),
       ra_consumed a \<mapsto> ConsumedAccount (consumed_of tx a c nonce),
       ra_issuance_ledger a \<mapsto> LedgerAccount l2)"
    and ev: "ev = AdvanceIssued (ra_pool a) (ra_agent a) (ra_advance a) amount fee (att_expires_at att) (att_signer att)"
  note A = RequestAdvance_accounts_Inr [OF acc]
  note T = request_advance_tokens [OF law sig ok acc]
  note g = vault_guarded [OF wf tok p]
  have keys: "ra_advance a \<noteq> P" "ra_consumed a \<noteq> P" "ra_issuance_ledger a \<noteq> P"
    using p A(6,8) ledger_if_needed_Inr(2) [OF A(10)] by (auto simp: address_free_def)
  show ?thesis
  proof (cases "ra_pool a = P")
    case True
    then have pp: "rc_pool c = p" using p A(4) by simp
    have p': "accounts w' P = Some (PoolAccount (p\<lparr>deployed_amount := D'\<rparr>))" using True pp keys by (simp add: w')
    have "balance (tokens w) (pool_usdc_vault p) = balance (tokens w') (pool_usdc_vault p) + unat amount"
      using T(2) [OF g] pp by simp
    then show ?thesis
      using True pp le D' T(4)
      by (simp add: ev on_pool_def book_at_pool [OF p] book_at_pool [OF p'] pool_book_def word_le_nat_alt)
  next
    case False
    then have "book_at P w' = book_at P w"
      using pools_disjoint [OF tok p A(4)] T(2) [OF g] T(4) p keys
      by (intro book_untouched [OF p]) (simp_all add: w')
    then show ?thesis using False by (simp add: ev on_pool_def)
  qed
qed

lemma claim_and_settle_refines:
  assumes law: "spl_token_laws rt" and sig: "no_pda_signer rt tx"
    and wf: "accounts_wf rt w" and tok: "tokens_ok w" and p: "accounts w P = Some (PoolAccount p)"
    and ok: "claim_and_settle rt tx a payment w = Inr (w', ev)"
  shows "book_run (event_ops P w ev) (book_at P w) = Some (book_at P w')"
  using ok
proof (rule claim_and_settle_Inr)
  fix adv c l pool m x ts1 L' D' A' F'
  assume acc: "ClaimAndSettle_accounts rt tx a w = Inr (adv, c, l, pool, m)"
    and fall: "settlement_waterfall (tx_now tx) adv payment = Inr x"
    and D': "unat (deployed_amount pool) = unat D' + unat (principal adv)"
    and A': "unat A' = unat (total_assets pool) + unat (wf_lp_fee x)"
    and F': "unat F' = unat (accrued_protocol_fees pool) + unat (wf_protocol_cut x)"
    and w': "accounts w' = settled_accounts a (l\<lparr>live_principal := L'\<rparr>)
       (pool\<lparr>deployed_amount := D', total_assets := A', accrued_protocol_fees := F'\<rparr>) (accounts w)"
    and ev: "ev = AdvanceSettled (cs_pool a) (adv_agent adv) (cs_advance a) (principal adv)
       (wf_lp_cut x) (wf_protocol_cut x) (wf_agent_net x) (ucast (wf_late_days x))"
  note A = ClaimAndSettle_accounts_Inr [OF acc]
  note T = claim_and_settle_tokens [OF law sig ok acc fall]
  note W = settlement_waterfall_Inr [OF fall]
  note g = vault_guarded [OF wf tok p] and pay = paid_into_pool [OF p A(6)]
  have keys: "cs_advance a \<noteq> P" "cs_issuance_ledger a \<noteq> P" using p A(3,5) by (auto simp: result)
  show ?thesis
  proof (cases "cs_pool a = P")
    case True
    then have pp: "pool = p" using p A(6) by simp
    have p': "accounts w' P
        = Some (PoolAccount (p\<lparr>deployed_amount := D', total_assets := A', accrued_protocol_fees := F'\<rparr>))"
      using True pp keys by (simp add: w' settled_accounts_def)
    show ?thesis
      using True pp D' A' F' T(2) [OF g] T(3) W(4) pay
      by (simp add: ev on_pool_def book_at_pool [OF p] book_at_pool [OF p'] pool_book_def)
  next
    case False
    have p': "accounts w' P = Some (PoolAccount p)" using False p keys by (simp add: w' settled_accounts_def)
    show ?thesis
      using False T(2) [OF g] T(3) pools_disjoint [OF tok p A(6)] pay
      by (simp add: ev on_pool_def book_at_pool [OF p] book_at_pool [OF p'] pool_book_def)
  qed
qed

lemma skim_refines:
  assumes law: "spl_token_laws rt"
    and wf: "accounts_wf rt w" and tok: "tokens_ok w" and p: "accounts w P = Some (PoolAccount p)"
    and ok: "skim_protocol_fees rt tx a amount w = Inr (w', ev)"
  shows "book_run (event_ops P w ev) (book_at P w) = Some (book_at P w')"
  using ok
proof (rule skim_protocol_fees_Inr)
  fix pool m F'
  assume acc: "SkimProtocolFees_accounts rt tx a w = Inr (pool, m)"
    and F': "unat (accrued_protocol_fees pool) = unat F' + unat amount"
    and w': "accounts w' = (accounts w)(sk_pool a \<mapsto> PoolAccount (pool\<lparr>accrued_protocol_fees := F'\<rparr>))"
    and ev: "ev = ProtocolFeesSkimmed (sk_pool a) amount (sk_recipient_ata a)"
  note S = SkimProtocolFees_accounts_Inr [OF acc]
  note T = skim_tokens [OF law ok acc]
  note pay = paid_into_pool [OF p S(1)] and bal = T(2) [of "pool_usdc_vault p"]
  show ?thesis
  proof (cases "sk_pool a = P")
    case True
    then have pp: "pool = p" using p S(1) by simp
    have p': "accounts w' P = Some (PoolAccount (p\<lparr>accrued_protocol_fees := F'\<rparr>))" using True pp by (simp add: w')
    show ?thesis
      using True pp F' bal T(3,4) pay
      by (auto simp: ev on_pool_def book_at_pool [OF p] book_at_pool [OF p'] pool_book_def split: if_splits)
  next
    case False
    have p': "accounts w' P = Some (PoolAccount p)" using False p by (simp add: w')
    show ?thesis
      using False bal T(4) pools_disjoint [OF tok p S(1)] pay
      by (simp add: ev on_pool_def book_at_pool [OF p] book_at_pool [OF p'] pool_book_def)
  qed
qed

lemma liquidate_refines:
  assumes p: "accounts w P = Some (PoolAccount p)" and ok: "liquidate rt tx a w = Inr (w', ev)"
  shows "book_run (event_ops P w ev) (book_at P w) = Some (book_at P w')"
  using ok
proof (rule liquidate_Inr)
  fix adv l bump pool L' D' A'
  assume acc: "Liquidate_accounts rt tx a w = Inr (adv, l, bump, pool)"
    and D': "unat (deployed_amount pool) = unat D' + unat (principal adv)"
    and A': "unat (total_assets pool) = unat A' + unat (principal adv)"
    and w': "accounts w' = ((accounts w)(
       lq_issuance_ledger a \<mapsto> LedgerAccount (l\<lparr>live_principal := L'\<rparr>),
       lq_pool a \<mapsto> PoolAccount (pool\<lparr>deployed_amount := D', total_assets := A'\<rparr>),
       lq_tombstone a \<mapsto> TombstoneAccount (tombstone_of tx adv bump)))(lq_advance a := None)"
    and ts: "tokens w' = tokens w"
    and ev: "ev = AdvanceLiquidated (lq_pool a) (adv_agent adv) (lq_advance a) (principal adv)"
  note A = Liquidate_accounts_Inr [OF acc]
  have keys: "lq_advance a \<noteq> P" "lq_issuance_ledger a \<noteq> P" "lq_tombstone a \<noteq> P"
    using p A(1,3,6) by (auto simp: result address_free_def)
  show ?thesis
  proof (cases "lq_pool a = P")
    case True
    then have pp: "pool = p" using p A(4) by simp
    have p': "accounts w' P = Some (PoolAccount (p\<lparr>deployed_amount := D', total_assets := A'\<rparr>))"
      using True pp keys by (simp add: w')
    show ?thesis
      using True pp D' A'
      by (simp add: ev ts on_pool_def book_at_pool [OF p] book_at_pool [OF p'] pool_book_def)
  next
    case False
    then have "book_at P w' = book_at P w" using keys p by (intro book_untouched [OF p]) (simp_all add: w' ts)
    then show ?thesis using False by (simp add: ev on_pool_def)
  qed
qed

text \<open>The event of a successful instruction reports the operations that its arguments stand for.\<close>

lemma event_ops_deposit:
  "deposit rt tx a amount w = Inr (w', ev) \<Longrightarrow> event_ops P w ev = ix_ops P tx (Ix_deposit a amount) w"
  by (erule deposit_Inr)
     (auto dest!: Deposit_accounts_Inr(2) preview_deposit_Inr simp: on_pool_def book_at_pool pool_book_def)

lemma event_ops_withdraw:
  "withdraw rt tx a shares w = Inr (w', ev) \<Longrightarrow> event_ops P w ev = ix_ops P tx (Ix_withdraw a shares) w"
  by (erule withdraw_Inr)
     (auto dest!: Deposit_accounts_Inr(2) preview_redeem_Inr simp: on_pool_def book_at_pool pool_book_def)

lemma event_ops_settle:
  assumes "claim_and_settle rt tx a payment w = Inr (w', ev)"
  shows "event_ops P w ev = ix_ops P tx (Ix_claim_and_settle a payment) w"
  using assms
proof (rule claim_and_settle_Inr)
  fix adv c l pool m x
  assume acc: "ClaimAndSettle_accounts rt tx a w = Inr (adv, c, l, pool, m)"
    and fall: "settlement_waterfall (tx_now tx) adv payment = Inr x"
    and ev: "ev = AdvanceSettled (cs_pool a) (adv_agent adv) (cs_advance a) (principal adv)
       (wf_lp_cut x) (wf_protocol_cut x) (wf_agent_net x) (ucast (wf_late_days x))"
  note W = settlement_waterfall_Inr [OF fall]
  have "accounts w (cs_advance a) = Some (AdvanceAccount adv)"
    using ClaimAndSettle_accounts_Inr [OF acc] by (auto simp: result)
  moreover have "unat (wf_lp_cut x) - unat (principal adv)
      = fees_due (tx_now tx) adv - protocol_share (fees_due (tx_now tx) adv)"
    using W(2-4) by linarith
  ultimately show ?thesis using W(2) by (simp add: ev Let_def)
qed

text \<open>Creating a pool and changing its parameters book nothing.\<close>

lemma event_ops_quiet:
  "init_pool rt tx a params w = Inr (w', ev) \<Longrightarrow> event_ops P w ev = []"
  "propose_params rt tx a' pending w = Inr (w', ev) \<Longrightarrow> event_ops P w ev = []"
  "execute_params rt tx a'' w = Inr (w', ev) \<Longrightarrow> event_ops P w ev = []"
  by (auto simp: init_pool_def init_pool_handler_def propose_params_def propose_params_handler_def
      execute_params_def execute_params_handler_def result Let_def)

lemma event_ops_ix:
  assumes "process_escrow rt tx ix w = Inr (w', ev)"
  shows "event_ops P w ev = ix_ops P tx ix w"
proof (cases ix)
  case (Ix_request_advance a rid amount nonce)
  with assms show ?thesis by (auto elim!: request_advance_Inr)
next
  case (Ix_liquidate a)
  with assms show ?thesis by (auto elim!: liquidate_Inr dest!: Liquidate_accounts_Inr(1) simp: result)
next
  case (Ix_skim_protocol_fees a amount)
  with assms show ?thesis by (auto elim!: skim_protocol_fees_Inr)
qed (use assms in \<open>simp_all add: event_ops_quiet event_ops_deposit event_ops_withdraw event_ops_settle\<close>)

section \<open>Every step\<close>

lemma init_pool_tokens:
  assumes law: "spl_token_laws rt" and ok: "init_pool rt tx a params w = Inr (w', ev)"
  obtains pool where "accounts w (ip_pool a) = None"
    "accounts w' = (accounts w)(ip_pool a \<mapsto> PoolAccount pool)"
    "keeps_tokens (tokens w) (tokens w')"
    "\<And>v. balance (tokens w') v = balance (tokens w) v"
    "\<And>k. tok_mints (tokens w) k \<noteq> None \<Longrightarrow> supply_of (tokens w') k = supply_of (tokens w) k"
    "tok_accounts (tokens w') (pool_usdc_vault pool)
       = Some \<lparr>ta_mint = pool_asset_mint pool, ta_owner = ip_pool a, ta_amount = 0, ta_frozen = False\<rparr>"
    "tok_mints (tokens w') (pool_share_mint pool)
       = Some \<lparr>mint_decimals = 6, mint_supply = 0, mint_authority = Some (ip_pool a)\<rparr>"
    "total_assets pool = 0" "total_shares pool = 0" "deployed_amount pool = 0" "accrued_protocol_fees pool = 0"
  using ok
proof (rule init_pool_Inr)
  fix bump ts1 ts2 pool
  assume free: "address_free w (ip_pool a)" "address_free w (ip_share_mint a)"
    and m: "spl_init_mint rt (tokens w) (ip_share_mint a) 6 (ip_pool a) = Some ts1"
    and v: "spl_init_account rt ts1 (ip_usdc_vault a) (ip_asset_mint a) (ip_pool a) = Some ts2"
    and pool: "pool = \<lparr> pool_bump = bump, pool_asset_mint = ip_asset_mint a, pool_usdc_vault = ip_usdc_vault a,
       pool_share_mint = ip_share_mint a, pool_treasury_ata = ipp_treasury_ata params,
       pool_governance = ipp_governance params, total_assets = 0, total_shares = 0,
       deployed_amount = 0, accrued_protocol_fees = 0, fee_curve = ipp_fee_curve params,
       max_advance_pct_bps = ipp_max_advance_pct_bps params,
       max_advance_abs = ipp_max_advance_abs params, agent_window_cap = ipp_agent_window_cap params,
       timelock_seconds = ipp_timelock_seconds params, pool_chain_id = ipp_chain_id params,
       pending_params = None \<rparr>"
    and w': "w' = \<lparr>accounts = (accounts w)(ip_pool a \<mapsto> PoolAccount pool), tokens = ts2\<rparr>"
  note M = init_mint_effect [OF law m] and V = init_account_effect [OF law v]
  note MS = spl_init_mint_Some [OF law m]
  have "supply_of ts2 k = supply_of (tokens w) k" if "tok_mints (tokens w) k \<noteq> None" for k
    using that V(3) MS free(2) by (auto simp: supply_of_def address_free_def)
  then show ?thesis
    using M V free keeps_tokens_trans [OF M(1) V(1)]
    by (intro that [of pool]) (simp_all add: w' pool address_free_def balance_def)
qed

lemma pools_from:
  assumes ok: "process_escrow rt tx ix w = Inr (w', ev)" and "\<And>a params. ix \<noteq> Ix_init_pool a params"
    and P: "accounts w' P = Some (PoolAccount p')"
  shows "\<exists>p. accounts w P = Some (PoolAccount p) \<and> same_identity p p'"
proof -
  have "\<exists>p. accounts w P = Some (PoolAccount p)"
    using assms
    by (cases ix)
       (auto elim!: deposit_Inr withdraw_Inr request_advance_Inr claim_and_settle_Inr liquidate_Inr
          propose_params_Inr execute_params_Inr skim_protocol_fees_Inr
          dest: Deposit_accounts_Inr(2) RequestAdvance_accounts_Inr(4) ClaimAndSettle_accounts_Inr(6)
            Liquidate_accounts_Inr(4) SkimProtocolFees_accounts_Inr(1)
          simp: settled_accounts_def split: if_splits)
  then show ?thesis
    using process_escrow_evolves [OF ok] P by (auto elim!: evolves_poolE)
qed

lemma process_escrow_keeps:
  assumes law: "spl_token_laws rt" and sig: "no_pda_signer rt tx"
    and ok: "process_escrow rt tx ix w = Inr (w', ev)"
  shows "keeps_tokens (tokens w) (tokens w')"
proof (cases ix)
  case (Ix_init_pool a params)
  with ok show ?thesis by (auto elim: init_pool_tokens [OF law])
next
  case (Ix_deposit a amount)
  with ok have d: "deposit rt tx a amount w = Inr (w', ev)" by simp
  from d show ?thesis by (rule deposit_Inr) (use deposit_tokens(1) [OF law sig] d in blast)
next
  case (Ix_withdraw a shares)
  with ok have d: "withdraw rt tx a shares w = Inr (w', ev)" by simp
  from d show ?thesis by (rule withdraw_Inr) (use withdraw_tokens(1) [OF law sig] d in blast)
next
  case (Ix_request_advance a rid amount nonce)
  with ok have d: "request_advance rt tx a rid amount nonce w = Inr (w', ev)" by simp
  from d show ?thesis by (rule request_advance_Inr) (use request_advance_tokens(1) [OF law sig d] in blast)
next
  case (Ix_claim_and_settle a payment)
  with ok have d: "claim_and_settle rt tx a payment w = Inr (w', ev)" by simp
  from d show ?thesis by (rule claim_and_settle_Inr) (use claim_and_settle_tokens(1) [OF law sig d] in blast)
next
  case (Ix_liquidate a)
  with ok show ?thesis by (auto elim!: liquidate_Inr)
next
  case (Ix_propose_params a params)
  with ok show ?thesis by (auto elim!: propose_params_Inr)
next
  case (Ix_execute_params a)
  with ok show ?thesis by (auto elim!: execute_params_Inr)
next
  case (Ix_skim_protocol_fees a amount)
  with ok have d: "skim_protocol_fees rt tx a amount w = Inr (w', ev)" by simp
  from d show ?thesis by (rule skim_protocol_fees_Inr) (use skim_tokens(1) [OF law d] in blast)
qed

lemma process_escrow_tokens_ok:
  assumes law: "spl_token_laws rt" and sig: "no_pda_signer rt tx" and tok: "tokens_ok w"
    and ok: "process_escrow rt tx ix w = Inr (w', ev)"
  shows "tokens_ok w'"
proof (cases "\<exists>a params. ix = Ix_init_pool a params")
  case False
  then show ?thesis
    using tokens_ok_keeps [OF tok process_escrow_keeps [OF law sig ok]] pools_from [OF ok] by blast
next
  case True
  then obtain a params where "init_pool rt tx a params w = Inr (w', ev)" using ok by auto
  then show ?thesis
  proof (rule init_pool_tokens [OF law])
    fix pool
    assume w': "accounts w' = (accounts w)(ip_pool a \<mapsto> PoolAccount pool)"
      and keep: "keeps_tokens (tokens w) (tokens w')"
      and new: "tok_accounts (tokens w') (pool_usdc_vault pool)
         = Some \<lparr>ta_mint = pool_asset_mint pool, ta_owner = ip_pool a, ta_amount = 0, ta_frozen = False\<rparr>"
        "tok_mints (tokens w') (pool_share_mint pool)
         = Some \<lparr>mint_decimals = 6, mint_supply = 0, mint_authority = Some (ip_pool a)\<rparr>"
    have "tokens_ok (w\<lparr>tokens := tokens w'\<rparr>)"
      by (rule tokens_ok_keeps [OF tok]) (use keep in auto)
    with new show "tokens_ok w'" by (auto simp: tokens_ok_def w')
  qed
qed

lemma registry_frame:
  assumes "process_registry rt tx ix w = Inr (w', ev)"
  shows "tokens w' = tokens w"
    and "accounts w' P = Some (PoolAccount p) \<longleftrightarrow> accounts w P = Some (PoolAccount p)"
  using assms
  by (cases ix; auto elim!: init_registry_Inr add_allowed_signer_Inr remove_allowed_signer_Inr set_governance_Inr
      simp: result address_free_def split: if_splits)+

lemma external_keeps_pool:
  assumes ext: "external_tokens rt (tokens w) ts'" and wf: "accounts_wf rt w" and tok: "tokens_ok w"
    and p: "accounts w P = Some (PoolAccount p)"
  shows "\<exists>ta. tok_accounts ts' (pool_usdc_vault p) = Some ta \<and> ta_owner ta = P"
    and "\<exists>m. tok_mints ts' (pool_share_mint p) = Some m \<and> mint_authority m = Some P"
    and "balance (tokens w) (pool_usdc_vault p) \<le> balance ts' (pool_usdc_vault p)"
    and "supply_of ts' (pool_share_mint p) \<le> supply_of (tokens w) (pool_share_mint p)"
proof -
  have pda: "escrow_pda rt P" using pool_is_pda [OF wf p] .
  obtain ta m where ta: "tok_accounts (tokens w) (pool_usdc_vault p) = Some ta" "ta_owner ta = P"
    and m: "tok_mints (tokens w) (pool_share_mint p) = Some m" "mint_authority m = Some P"
    using tok p unfolding tokens_ok_def by blast
  obtain ta' where ta': "tok_accounts ts' (pool_usdc_vault p) = Some ta'" "ta_owner ta' = P"
      "unat (ta_amount ta) \<le> unat (ta_amount ta')"
    using ext ta pda unfolding external_tokens_def by blast
  obtain m' where m': "tok_mints ts' (pool_share_mint p) = Some m'" "mint_authority m' = Some P"
      "unat (mint_supply m') \<le> unat (mint_supply m)"
    using ext m pda unfolding external_tokens_def by blast
  show "\<exists>ta. tok_accounts ts' (pool_usdc_vault p) = Some ta \<and> ta_owner ta = P"
    "\<exists>m. tok_mints ts' (pool_share_mint p) = Some m \<and> mint_authority m = Some P"
    "balance (tokens w) (pool_usdc_vault p) \<le> balance ts' (pool_usdc_vault p)"
    "supply_of ts' (pool_share_mint p) \<le> supply_of (tokens w) (pool_share_mint p)"
    using ta ta' m m' by (simp_all add: balance_def supply_of_def)
qed

lemma step_tokens_ok:
  assumes env: "environment rt" and wf: "accounts_wf rt w" and tok: "tokens_ok w" and st: "step rt w w'"
  shows "tokens_ok w'"
  using st
proof cases
  case (escrow tx ix ev)
  then show ?thesis using process_escrow_tokens_ok [OF environmentD(1) [OF env] _ tok] by blast
next
  case (registry ix tx ev)
  then show ?thesis using tok registry_frame [OF registry(2)] by (simp add: tokens_ok_def)
next
  case (external ts')
  then show ?thesis using external_keeps_pool [OF _ wf tok] by (simp add: tokens_ok_def)
qed

lemma outside_refines:
  assumes ext: "external_tokens rt (tokens w) (tokens w')" and w': "w' = w\<lparr>tokens := tokens w'\<rparr>"
    and wf: "accounts_wf rt w" and tok: "tokens_ok w"
  shows "book_run [BReceive (gained_outside P w w'), BBurn (burned_outside P w w')] (book_at P w) = Some (book_at P w')"
proof -
  have acc: "accounts w' = accounts w" by (subst w') simp
  show ?thesis
  proof (cases "has_pool w P")
    case True
    then obtain p where p: "accounts w P = Some (PoolAccount p)" by (auto simp: has_pool_def)
    then have p': "accounts w' P = Some (PoolAccount p)" by (simp add: acc)
    note E = external_keeps_pool(3,4) [OF ext wf tok p]
    show ?thesis
      using True E by (simp add: gained_outside_def burned_outside_def book_at_pool [OF p] book_at_pool [OF p'] pool_book_def)
  next
    case False
    then have "\<not> has_pool w' P" by (simp add: has_pool_def acc)
    then show ?thesis using False by (simp add: gained_outside_def burned_outside_def book_at_absent)
  qed
qed

text \<open>An instruction says nothing of a pool that does not exist, and creates none but by \<open>init_pool\<close>.\<close>

lemma paid_into_absent: "\<not> has_pool w P \<Longrightarrow> paid_into P w Q x = 0"
  unfolding paid_into_def has_pool_def by (auto split: option.splits account_data.splits)

fun ix_pool :: "escrow_ix \<Rightarrow> pubkey" where
  "ix_pool (Ix_init_pool a _) = ip_pool a"
| "ix_pool (Ix_deposit a _) = lp_pool a"
| "ix_pool (Ix_withdraw a _) = lp_pool a"
| "ix_pool (Ix_request_advance a _ _ _) = ra_pool a"
| "ix_pool (Ix_claim_and_settle a _) = cs_pool a"
| "ix_pool (Ix_liquidate a) = lq_pool a"
| "ix_pool (Ix_propose_params a _) = pr_pool a"
| "ix_pool (Ix_execute_params a) = ex_pool a"
| "ix_pool (Ix_skim_protocol_fees a _) = sk_pool a"

lemma ix_pool_exists:
  assumes "process_escrow rt tx ix w = Inr (w', ev)" and "\<And>a params. ix \<noteq> Ix_init_pool a params"
  shows "has_pool w (ix_pool ix)"
  using assms
  by (cases ix)
     (auto simp: has_pool_def elim!: deposit_Inr withdraw_Inr request_advance_Inr claim_and_settle_Inr
        liquidate_Inr propose_params_Inr execute_params_Inr skim_protocol_fees_Inr
        dest: Deposit_accounts_Inr(2) RequestAdvance_accounts_Inr(4) ClaimAndSettle_accounts_Inr(6)
          Liquidate_accounts_Inr(4) SkimProtocolFees_accounts_Inr(1))

lemma ix_ops_absent:
  assumes "\<not> has_pool w P" and "ix_pool ix \<noteq> P"
  shows "book_run (ix_ops P tx ix w) b = Some b"
  using assms
  by (cases ix) (auto simp: on_pool_def paid_into_absent Let_def split: option.split account_data.split)

lemma absent_refines:
  assumes law: "spl_token_laws rt" and abs: "\<not> has_pool w P"
    and ok: "process_escrow rt tx ix w = Inr (w', ev)"
  shows "book_run (event_ops P w ev) (book_at P w) = Some (book_at P w')"
proof (cases "\<exists>a params. ix = Ix_init_pool a params")
  case True
  then obtain a params where i: "init_pool rt tx a params w = Inr (w', ev)" using ok by auto
  have "book_at P w' = empty_book"
    using init_pool_tokens [OF law i]
  proof cases
    case (1 pool)
    then show ?thesis
      using abs book_at_absent [of w' P]
      by (cases "P = ip_pool a")
         (auto simp: book_at_pool pool_book_def empty_book_def balance_def supply_of_def has_pool_def)
  qed
  then show ?thesis using abs by (simp add: event_ops_quiet(1) [OF i] book_at_absent)
next
  case False
  then have "\<not> has_pool w' P" using abs pools_from [OF ok] unfolding has_pool_def by metis
  moreover have "ix_pool ix \<noteq> P" using ix_pool_exists [OF ok] False abs by blast
  then have "book_run (event_ops P w ev) (book_at P w) = Some (book_at P w)"
    unfolding event_ops_ix [OF ok] by (rule ix_ops_absent [OF abs])
  ultimately show ?thesis using abs by (simp add: book_at_absent)
qed

lemma process_escrow_refines:
  assumes law: "spl_token_laws rt" and sig: "no_pda_signer rt tx"
    and wf: "accounts_wf rt w" and tok: "tokens_ok w"
    and ok: "process_escrow rt tx ix w = Inr (w', ev)"
  shows "book_run (event_ops P w ev) (book_at P w) = Some (book_at P w')"
proof (cases "has_pool w P")
  case False
  then show ?thesis by (rule absent_refines [OF law _ ok])
next
  case True
  then obtain p where p: "accounts w P = Some (PoolAccount p)" by (auto simp: has_pool_def)
  then have m: "tok_mints (tokens w) (pool_share_mint p) \<noteq> None" using tok by (auto simp: tokens_ok_def)
  show ?thesis
  proof (cases ix)
    case (Ix_init_pool a params)
    with ok have i: "init_pool rt tx a params w = Inr (w', ev)" by simp
    from i have "book_at P w' = book_at P w"
      by (rule init_pool_tokens [OF law]) (rule book_untouched [OF p], use p m in auto)
    then show ?thesis by (simp add: event_ops_quiet(1) [OF i])
  next
    case (Ix_propose_params a params)
    with ok have i: "propose_params rt tx a params w = Inr (w', ev)" by simp
    from i have "book_at P w' = book_at P w"
      by (rule propose_params_Inr) (use p in \<open>auto simp: book_at_def pool_book_def\<close>)
    then show ?thesis by (simp add: event_ops_quiet(2) [OF i])
  next
    case (Ix_execute_params a)
    with ok have i: "execute_params rt tx a w = Inr (w', ev)" by simp
    from i have "book_at P w' = book_at P w"
      by (rule execute_params_Inr) (use p in \<open>auto simp: book_at_def pool_book_def\<close>)
    then show ?thesis by (simp add: event_ops_quiet(3) [OF i])
  qed (use ok in \<open>auto intro: deposit_refines [OF law sig wf tok p] withdraw_refines [OF law sig wf tok p]
        request_advance_refines [OF law sig wf tok p] claim_and_settle_refines [OF law sig wf tok p]
        skim_refines [OF law wf tok p] liquidate_refines [OF p]\<close>)
qed

lemma registry_book:
  assumes "process_registry rt tx ix w = Inr (w', ev)"
  shows "book_at P w' = book_at P w"
proof (cases "has_pool w P")
  case True
  then obtain p where p: "accounts w P = Some (PoolAccount p)" by (auto simp: has_pool_def)
  then have "accounts w' P = Some (PoolAccount p)" using registry_frame(2) [OF assms] by simp
  from book_untouched [OF p this] show ?thesis using registry_frame(1) [OF assms] by simp
next
  case False
  then have "\<not> has_pool w' P" using registry_frame(2) [OF assms] by (simp add: has_pool_def)
  with False show ?thesis by (simp add: book_at_absent)
qed

section \<open>Histories\<close>

definition well_formed :: "runtime \<Rightarrow> world \<Rightarrow> bool" where
  "well_formed rt w \<longleftrightarrow> environment rt \<and> accounts_wf rt w \<and> exposure_ok rt w \<and> tokens_ok w"

lemma step_well_formed: "well_formed rt w \<Longrightarrow> step rt w w' \<Longrightarrow> well_formed rt w'"
  by (auto simp: well_formed_def intro: step_accounts_wf step_exposure step_tokens_ok)

interpretation formed: step_invariant "step rt" "well_formed rt" for rt
  by unfold_locales (rule step_well_formed)

lemma initial_well_formed: "environment rt \<Longrightarrow> initial w \<Longrightarrow> well_formed rt w"
  using accounts_wf_initial exposure_ok_initial tokens_ok_initial by (simp add: well_formed_def)

lemma reachable_well_formed: "environment rt \<Longrightarrow> reachable rt w \<Longrightarrow> well_formed rt w"
  using initial_well_formed formed.run_inv unfolding reachable_def by blast

lemma performs_refines:
  assumes wf: "well_formed rt w" and act: "performs rt w l w'"
  shows "book_run (entry_ops P (w, l, w')) (book_at P w) = Some (book_at P w')"
proof (cases l)
  case (EscrowCall tx ix ev)
  with act wf show ?thesis
    using process_escrow_refines [of rt tx w ix w' ev P] event_ops_ix [of rt tx ix w w' ev P]
    by (auto simp: well_formed_def environment_def)
next
  case (RegistryCall tx ix ev)
  with act have "book_at P w' = book_at P w" by (auto intro: registry_book)
  then show ?thesis unfolding RegistryCall by simp
next
  case TokenActivity
  with act wf show ?thesis using outside_refines [of rt w w' P] by (auto simp: well_formed_def simp del: exec_all.simps)
qed

interpretation books: functional_refinement "performs rt" "well_formed rt" book_exec "entry_ops P" "book_at P" for rt P
  by unfold_locales (blast intro: step_well_formed performs_step performs_refines)+

text \<open>The book agrees with the log throughout a history that starts on an empty chain.\<close>

lemma performs_tallies:
  assumes wf: "well_formed rt w" and act: "performs rt w l w'" and t: "tallies P h (book_at P w)"
  shows "tallies P (h @ [(w, l, w')]) (book_at P w')"
proof (cases l)
  case (EscrowCall tx ix ev)
  with act wf have "book_run (event_ops P w ev) (book_at P w) = Some (book_at P w')"
    by (auto simp: well_formed_def environment_def intro: process_escrow_refines)
  with t show ?thesis unfolding EscrowCall by (rule tallies_event)
next
  case (RegistryCall tx ix ev)
  with act have "book_at P w' = book_at P w" by (auto intro: registry_book)
  with t show ?thesis unfolding RegistryCall by (simp add: tallies_registry)
next
  case TokenActivity
  with act wf have "book_run [BReceive (gained_outside P w w'), BBurn (burned_outside P w w')] (book_at P w)
      = Some (book_at P w')"
    by (intro outside_refines) (auto simp: well_formed_def)
  with t show ?thesis unfolding TokenActivity by (rule tallies_outside)
qed

lemma history_tallies:
  assumes "history (performs rt) w0 h w" and "environment rt" and "initial w0"
  shows "tallies P h (book_at P w)"
  using assms
proof (induction rule: history.induct)
  case (history_nil w0)
  then show ?case by (simp add: initial_def book_at_def tallies_empty)
next
  case (history_snoc w0 h w l w')
  then show ?case
    using books.history_inv [OF history_snoc.hyps(1)] initial_well_formed performs_tallies by blast
qed

lemma reachable_supply_covered:
  assumes "environment rt" and "reachable rt w" and "accounts w P = Some (PoolAccount p)"
  shows "supply_of (tokens w) (pool_share_mint p) \<le> unat (total_shares p)"
proof -
  obtain w0 h where "initial w0" "history (performs rt) w0 h w" using assms(2) by (auto simp: reachable_history)
  then have "tallies P h (pool_book w p)" using history_tallies assms by (metis book_at_pool)
  then show ?thesis by (simp add: tallies_def pool_book_def)
qed

end
