(* ===== verification/Governance_Gate.thy ===== *)
theory Governance_Gate
  imports Persistence
begin

text \<open>
  The governance gate as an interface.  An operation is gated by a governance key when it
  succeeds only in a transaction that passes the Squads check for that key; the locale's
  consequences hold for the five gated instructions of the two programs.
\<close>

locale governance_gated =
  fixes op_run :: "transaction \<Rightarrow> world \<Rightarrow> 'e + 'r"
    and governance_of :: "world \<Rightarrow> pubkey option"
  assumes gate: "op_run tx w = Inr r \<Longrightarrow>
      \<exists>g. governance_of w = Some g \<and> require_squads_governance_cpi (tx_sysvar tx) g = Inr ()"
begin

text \<open>Success shows a Squads instruction with the governance vault writable, early enough to be seen.\<close>

lemma squads_instruction:
  assumes "op_run tx w = Inr r"
  shows "\<exists>g j ix. governance_of w = Some g \<and> j < 64 \<and> sv_load_at (tx_sysvar tx) j = Some ix
           \<and> ix_program_id ix = SQUADS_V4 \<and> writable_match g ix"
  using gate [OF assms] require_squads_ok_iff by blast

lemma blocked_without_squads:
  assumes "\<And>j ix. sv_load_at (tx_sysvar tx) j = Some ix \<Longrightarrow> ix_program_id ix \<noteq> SQUADS_V4"
  shows "\<exists>e. op_run tx w = Inl e"
  using squads_instruction assms by (cases "op_run tx w") blast+

end

definition pool_governance_at :: "pubkey \<Rightarrow> world \<Rightarrow> pubkey option" where
  "pool_governance_at k w =
     (case accounts w k of Some (PoolAccount p) \<Rightarrow> Some (pool_governance p) | _ \<Rightarrow> None)"

definition config_governance_at :: "pubkey \<Rightarrow> world \<Rightarrow> pubkey option" where
  "config_governance_at k w =
     (case accounts w k of Some (ConfigAccount c) \<Rightarrow> Some (cfg_governance c) | _ \<Rightarrow> None)"

interpretation gated_propose:
  governance_gated "\<lambda>tx. propose_params rt tx a params" "pool_governance_at (pr_pool a)" for rt a params
  by unfold_locales (auto elim!: propose_params_Inr simp: pool_governance_at_def)

interpretation gated_skim:
  governance_gated "\<lambda>tx. skim_protocol_fees rt tx a amount" "pool_governance_at (sk_pool a)" for rt a amount
  by unfold_locales
     (auto elim!: skim_protocol_fees_Inr dest: SkimProtocolFees_accounts_Inr(1) simp: pool_governance_at_def)

interpretation gated_add:
  governance_gated "\<lambda>tx. add_allowed_signer rt tx a signer kind" "config_governance_at (aa_config a)"
  for rt a signer kind
  by unfold_locales (auto elim!: add_allowed_signer_Inr simp: result config_governance_at_def)

interpretation gated_remove:
  governance_gated "\<lambda>tx. remove_allowed_signer rt tx a" "config_governance_at (rm_config a)" for rt a
  by unfold_locales (auto elim!: remove_allowed_signer_Inr simp: result config_governance_at_def)

interpretation gated_set:
  governance_gated "\<lambda>tx. set_governance rt tx a g" "config_governance_at (sg_config a)" for rt a g
  by unfold_locales (auto elim!: set_governance_Inr simp: result config_governance_at_def)

section \<open>Live parameters\<close>

definition same_params :: "Pool \<Rightarrow> Pool \<Rightarrow> bool" where
  "same_params p p' \<longleftrightarrow>
     fee_curve p' = fee_curve p \<and> max_advance_pct_bps p' = max_advance_pct_bps p
     \<and> max_advance_abs p' = max_advance_abs p \<and> agent_window_cap p' = agent_window_cap p"

text \<open>Only \<open>execute_params\<close> changes live parameters, and only \<open>propose_params\<close> stages new ones.\<close>

lemma process_escrow_params:
  assumes ok: "process_escrow rt tx ix w = Inr (w', ev)"
    and p: "accounts w k = Some (PoolAccount p)" and p': "accounts w' k = Some (PoolAccount p')"
  shows "same_params p p' \<and> pending_params p' = pending_params p
    \<or> (\<exists>a params t. ix = Ix_propose_params a params \<and> pr_pool a = k \<and> same_params p p'
         \<and> pending_params p' = Some (params\<lparr>pp_execute_after := t\<rparr>)
         \<and> sint t = sint (tx_now tx) + sint (timelock_seconds p)
         \<and> valid_curve (pp_fee_curve params)
         \<and> require_squads_governance_cpi (tx_sysvar tx) (pool_governance p) = Inr ())
    \<or> (\<exists>a pending. ix = Ix_execute_params a \<and> ex_pool a = k \<and> pending_params p = Some pending
         \<and> sint (pp_execute_after pending) \<le> sint (tx_now tx) \<and> pending_params p' = None
         \<and> fee_curve p' = pp_fee_curve pending \<and> max_advance_pct_bps p' = pp_max_advance_pct_bps pending
         \<and> max_advance_abs p' = pp_max_advance_abs pending
         \<and> agent_window_cap p' = pp_agent_window_cap pending)"
proof (cases ix)
  case (Ix_init_pool a params)
  with ok p p' show ?thesis
    by (auto elim!: init_pool_Inr simp: same_params_def address_free_def split: if_splits)
next
  case (Ix_deposit a amount)
  with ok have "deposit rt tx a amount w = Inr (w', ev)" by simp
  then show ?thesis
    by (rule deposit_Inr) (use p p' in \<open>auto dest: Deposit_accounts_Inr(2) simp: same_params_def split: if_splits\<close>)
next
  case (Ix_withdraw a shares)
  with ok have "withdraw rt tx a shares w = Inr (w', ev)" by simp
  then show ?thesis
    by (rule withdraw_Inr) (use p p' in \<open>auto dest: Deposit_accounts_Inr(2) simp: same_params_def split: if_splits\<close>)
next
  case (Ix_request_advance a rid amount nonce)
  with ok have "request_advance rt tx a rid amount nonce w = Inr (w', ev)" by simp
  then show ?thesis
    by (rule request_advance_Inr)
       (use p p' in \<open>auto dest: RequestAdvance_accounts_Inr(4) simp: same_params_def split: if_splits\<close>)
next
  case (Ix_claim_and_settle a payment)
  with ok have "claim_and_settle rt tx a payment w = Inr (w', ev)" by simp
  then show ?thesis
    by (rule claim_and_settle_Inr)
       (use p p' in \<open>auto dest: ClaimAndSettle_accounts_Inr(6) simp: same_params_def settled_accounts_def
          split: if_splits\<close>)
next
  case (Ix_liquidate a)
  with ok have "liquidate rt tx a w = Inr (w', ev)" by simp
  then show ?thesis
    by (rule liquidate_Inr)
       (use p p' in \<open>auto dest: Liquidate_accounts_Inr(4) simp: same_params_def split: if_splits\<close>)
next
  case (Ix_propose_params a params)
  with ok p p' show ?thesis
    by (auto elim!: propose_params_Inr simp: same_params_def split: if_splits) blast
next
  case (Ix_execute_params a)
  with ok p p' show ?thesis
    by (auto elim!: execute_params_Inr simp: same_params_def split: if_splits)
next
  case (Ix_skim_protocol_fees a amount)
  with ok have "skim_protocol_fees rt tx a amount w = Inr (w', ev)" by simp
  then show ?thesis
    by (rule skim_protocol_fees_Inr)
       (use p p' in \<open>auto dest: SkimProtocolFees_accounts_Inr(1) simp: same_params_def split: if_splits\<close>)
qed

end
