(* ===== verification/Escrow_Properties.thy ===== *)
theory Escrow_Properties
  imports Example_Run Refinement Governance_Gate
begin

text \<open>
  Properties of single instructions: what an accepted attestation says, what an advance, a
  settlement, a liquidation, a deposit and a withdrawal require and change, who can change
  parameters.  Hypotheses on the environment are discharged on the reference runtime, on the
  worlds of theory Example_Run.
\<close>

lemma ref_environment: "environment ref_runtime"
  by (simp add: environment_def ref_spl_token_laws ref_pda_find_law ref_pda_collision_free)

text \<open>Addresses of key pairs in the example are not derived addresses.\<close>

lemma ref_pda_head: "create_program_address ref_runtime seeds prog = Some k \<Longrightarrow> k = pool_key \<or> hd k = 5"
  by (auto simp: ref_runtime_def ref_create_def split: if_splits)

lemma no_pda_signers [simp]:
  "no_pda_signer ref_runtime tx_alice" "no_pda_signer ref_runtime tx_request"
  "no_pda_signer ref_runtime tx_settle" "no_pda_signer ref_runtime tx_liquidate"
  "no_pda_signer ref_runtime tx_init_pool" "no_pda_signer ref_runtime tx_governance"
proof -
  have "hd k \<noteq> 5 \<and> k \<noteq> pool_key \<Longrightarrow> create_program_address ref_runtime seeds ESCROW \<noteq> Some k" for k seeds
    using ref_pda_head by blast
  moreover have "hd alice \<noteq> 5" "hd agent \<noteq> 5" "hd deployer \<noteq> 5" "hd share_mint \<noteq> 5" "hd vault \<noteq> 5"
    by (simp_all add: alice_def agent_def deployer_def share_mint_def vault_def)
  ultimately show "no_pda_signer ref_runtime tx_alice" "no_pda_signer ref_runtime tx_request"
    "no_pda_signer ref_runtime tx_settle" "no_pda_signer ref_runtime tx_liquidate"
    "no_pda_signer ref_runtime tx_init_pool" "no_pda_signer ref_runtime tx_governance"
    by (simp_all add: no_pda_signer_def tx_defs)
qed

section \<open>Attestations\<close>

text \<open>
  C6: an accepted attestation is a 128-byte message of version 1 that the allowed bridge signer
  signed and that names this agent, this pool, this chain and the nonce of the request.  Limit,
  outstanding amount, expiry and time of attestation are the message's own fields, and by these
  fields it is not from the future, at most 15 minutes old and not expired.
\<close>

theorem accepted_attestation_is_signed_and_bound:
  assumes "ed25519_precompile_ok verify sv"
    and "verify_attestation sv now s agent_key pool_addr chain_id nonce = Inr att"
  shows "\<exists>msg sig. verify (as_signer s) msg sig \<and> length msg = 128
     \<and> as_kind s = AttestorKind_as_u8 CreditBridge
     \<and> take 32 msg = agent_key \<and> take 32 (drop 32 msg) = pool_addr
     \<and> take 16 (drop 96 msg) = nonce \<and> from_le_bytes (take 8 (drop 112 msg)) = chain_id
     \<and> from_le_bytes (take 8 (drop 120 msg)) = (1 :: u64)
     \<and> att = \<lparr> att_signer = as_signer s, att_credit_limit = from_le_bytes (take 8 (drop 64 msg)),
         att_outstanding = from_le_bytes (take 8 (drop 72 msg)),
         att_expires_at = from_le_bytes (take 8 (drop 80 msg)),
         att_attested_at = from_le_bytes (take 8 (drop 88 msg)) \<rparr>
     \<and> 0 \<le> sint now - sint (from_le_bytes (take 8 (drop 88 msg)) :: i64)
     \<and> sint now - sint (from_le_bytes (take 8 (drop 88 msg)) :: i64) \<le> 900
     \<and> sint now < sint (from_le_bytes (take 8 (drop 80 msg)) :: i64)"
  using assms(2)
proof (rule verify_attestation_Inr)
  fix msg
  assume m: "verify_prev_ed25519 sv = Inr (as_signer s, msg)"
    and facts: "length msg = 128"
    "as_kind s = AttestorKind_as_u8 CreditBridge"
    "take 32 msg = agent_key" "take 32 (drop 32 msg) = pool_addr"
    "take 16 (drop 96 msg) = nonce"
    "from_le_bytes (take 8 (drop 112 msg)) = chain_id" "from_le_bytes (take 8 (drop 120 msg)) = VERSION"
    "att = \<lparr> att_signer = as_signer s, att_credit_limit = from_le_bytes (take 8 (drop 64 msg)),
       att_outstanding = from_le_bytes (take 8 (drop 72 msg)),
       att_expires_at = from_le_bytes (take 8 (drop 80 msg)),
       att_attested_at = from_le_bytes (take 8 (drop 88 msg)) \<rparr>"
    "sint (att_attested_at att) \<le> sint now" "sint now - sint (att_attested_at att) \<le> 900"
    "sint now < sint (att_expires_at att)"
  obtain sig where "verify (as_signer s) msg sig"
    using signed_message [OF assms(1) m] by blast
  with facts show ?thesis by (intro exI [of _ msg] exI [of _ sig]) simp
qed

text \<open>The precompile accepted the example attestation: the bridge's signature on its message.\<close>

definition example_message :: bytes where
  "example_message = the (encodeAttestation attestation_input)"

definition bridge_signed :: "pubkey \<Rightarrow> bytes \<Rightarrow> bytes \<Rightarrow> bool" where
  "bridge_signed pk msg sig \<longleftrightarrow> pk = bridge \<and> msg = example_message \<and> sig = replicate 64 19"

lemma plain_ix_data [simp]: "ix_data (plain_ix prog data) = data"
  by (simp add: plain_ix_def)

lemma attestation_precompile_ok: "ed25519_precompile_ok bridge_signed attestation_sysvar"
proof -
  let ?d = "ed25519_data bridge example_message (replicate 64 19)"
  let ?ix = "plain_ix ED25519 ?d"
  let ?o = "\<lparr>signature_offset = 16, signature_instruction_index = 0, public_key_offset = 80,
      public_key_instruction_index = 0, message_data_offset = 112, message_data_size = 128,
      message_instruction_index = 0\<rparr> :: Ed25519Offsets"
  have e: "precompile_entry ?d 0 = Some ?o"
    "referenced_bytes attestation_sysvar ?ix 0 16 64 = Some (replicate 64 19)"
    "referenced_bytes attestation_sysvar ?ix 0 80 32 = Some bridge"
    "referenced_bytes attestation_sysvar ?ix 0 112 128 = Some example_message"
    by code_simp+
  have "\<exists>offs sig pk msg. precompile_entry ?d 0 = Some offs
      \<and> referenced_bytes attestation_sysvar ?ix (signature_instruction_index offs) (signature_offset offs) 64 = Some sig
      \<and> referenced_bytes attestation_sysvar ?ix (public_key_instruction_index offs) (public_key_offset offs) 32 = Some pk
      \<and> referenced_bytes attestation_sysvar ?ix (message_instruction_index offs) (message_data_offset offs)
          (unat (message_data_size offs)) = Some msg
      \<and> bridge_signed pk msg sig"
    using e by (intro exI [of _ ?o] exI [of _ "replicate 64 19"] exI [of _ bridge] exI [of _ example_message])
      (simp add: bridge_signed_def)
  moreover have "ix = ?ix \<and> k = 0"
    if "sv_load_at attestation_sysvar i = Some ix" "ix_program_id ix = ED25519" "k < unat (ix_data ix ! 0)" for i ix k
  proof -
    have "ESCROW \<noteq> ED25519" "unat (?d ! 0) = 1" by code_simp+
    then show ?thesis
      using that by (auto simp: attestation_sysvar_def example_message_def sysvar_of_def plain_ix_def split: if_splits)
  qed
  ultimately show ?thesis
    unfolding ed25519_precompile_ok_def by (metis plain_ix_data)
qed

lemma accepted_attestation_witness:
  "\<exists>msg sig. bridge_signed bridge msg sig \<and> length msg = 128
     \<and> take 32 msg = agent \<and> take 32 (drop 32 msg) = pool_key \<and> take 16 (drop 96 msg) = nonce16"
  using accepted_attestation_is_signed_and_bound [OF attestation_precompile_ok attestation_run]
  by (auto simp: example_signer_def)

section \<open>Issuance\<close>

text \<open>The principal an agent owes according to its ledger; a missing ledger owes nothing.\<close>

definition ledger_debt :: "world \<Rightarrow> pubkey \<Rightarrow> nat" where
  "ledger_debt w k = (case accounts w k of Some (LedgerAccount l) \<Rightarrow> unat (live_principal l) | _ \<Rightarrow> 0)"

lemma ledger_debt_loaded:
  assumes "ledger_if_needed rt w P g k = Inr (l, b)"
  shows "ledger_debt w k = unat (live_principal l)"
  using ledger_if_needed_Inr(2) [OF assms]
  by (auto simp: ledger_debt_def address_free_def zeroed_ledger_def)

text \<open>
  An advance is granted only to a signing agent, on an attestation by a registered signer
  for exactly this agent, pool, chain and nonce, for at least one USDC, within the pool's
  absolute cap, within the attested limit after the attested and the on-chain debt, and within
  the assets of the pool that are not deployed.
\<close>

theorem advance_is_underwritten:
  assumes "request_advance rt tx a rid amount nonce w = Inr (w', ev)"
  shows "\<exists>s pool att. accounts w (ra_allowed_signer a) = Some (AllowedSignerAccount s)
     \<and> accounts w (ra_pool a) = Some (PoolAccount pool)
     \<and> verify_attestation (tx_sysvar tx) (tx_now tx) s (ra_agent a) (ra_pool a) (pool_chain_id pool) nonce = Inr att
     \<and> ra_agent a \<in> set (tx_signers tx)
     \<and> 1000000 \<le> unat amount \<and> amount \<le> max_advance_abs pool
     \<and> unat amount + unat (att_outstanding att) + ledger_debt w (ra_issuance_ledger a) \<le> unat (att_credit_limit att)
     \<and> unat (deployed_amount pool) + unat amount \<le> unat (total_assets pool)"
  using assms
proof (rule request_advance_Inr)
  fix c att l1 l2 fee late D'
  assume acc: "RequestAdvance_accounts rt tx a rid w = Inr c"
    and min: "MIN_ADVANCE_ATOMS \<le> amount"
    and att: "verify_attestation (tx_sysvar tx) (tx_now tx) (rc_allowed_signer c) (ra_agent a) (ra_pool a)
       (pool_chain_id (rc_pool c)) nonce = Inr att"
    and roll: "roll_ledger (tx_now tx) (rc_ledger_bump c) (ra_agent a) (ra_pool a) (agent_window_cap (rc_pool c))
       amount (rc_ledger c) = Inr l1"
    and und: "underwrite att (max_advance_abs (rc_pool c)) amount l1 = Inr l2"
    and D: "unat D' = unat (deployed_amount (rc_pool c)) + unat amount" "D' \<le> total_assets (rc_pool c)"
  note A = RequestAdvance_accounts_Inr [OF acc] and U = underwrite_Inr [OF und]
  have "ledger_debt w (ra_issuance_ledger a) = unat (live_principal l1)"
    using ledger_debt_loaded [OF A(10)] roll_ledger_Inr(4) [OF roll] by simp
  moreover have "1000000 \<le> unat amount" using min by (simp add: word_le_nat_alt)
  ultimately have
    "unat amount + unat (att_outstanding att) + ledger_debt w (ra_issuance_ledger a) \<le> unat (att_credit_limit att)"
    using U(7) by simp
  with A(1,2,4) att U(8) D \<open>1000000 \<le> unat amount\<close> show ?thesis
    by (intro exI [of _ "rc_allowed_signer c"] exI [of _ "rc_pool c"] exI [of _ att]) (simp add: word_le_nat_alt)
qed

lemma advance_is_underwritten_witness:
  "is_ok (request_advance ref_runtime tx_request acc_request receivable 300000000 nonce16 world_funded)
   \<and> (\<exists>att. verify_attestation attestation_sysvar 1000 example_signer agent pool_key 2 nonce16 = Inr att
        \<and> unat (300000000 :: u64) + unat (att_outstanding att) \<le> unat (att_credit_limit att))"
proof -
  have "accounts world_funded signer_key = Some (AllowedSignerAccount example_signer)"
    "accounts world_funded pool_key = Some (PoolAccount (example_pool 2000000000 2000000000000 0 0))"
    by (simp_all add: world_funded_def)
  moreover have "pool_chain_id (example_pool A S D F) = 2" for A S D F by (simp add: example_pool_def)
  ultimately show ?thesis
    using advance_is_underwritten [OF request_runs] request_runs by (auto simp: is_ok_iff)
qed

text \<open>
  C22: a granted advance moves its amount from the vault to the agent's token account, adds it
  to the pool's deployed amount and to the agent's debt, and stores an issued advance with this
  principal, the quoted fee and penalty, the expiry that the signed message carries (its bytes 80
  to 87) and the key that signed it, together with a consumed-payment record holding the nonce.
\<close>

theorem advance_effect:
  assumes "spl_token_laws rt" and "no_pda_signer rt tx"
    and "request_advance rt tx a rid amount nonce w = Inr (w', ev)"
    and "accounts w (ra_pool a) = Some (PoolAccount pool)" and "guarded rt (tokens w) (pool_usdc_vault pool)"
  shows "\<exists>adv c D' s msg. accounts w' (ra_advance a) = Some (AdvanceAccount adv)
     \<and> accounts w (ra_allowed_signer a) = Some (AllowedSignerAccount s)
     \<and> verify_prev_ed25519 (tx_sysvar tx) = Inr (as_signer s, msg)
     \<and> adv_expires_at adv = from_le_bytes (take 8 (drop 80 msg)) \<and> adv_attestor adv = as_signer s
     \<and> adv_state adv = Issued \<and> adv_agent adv = ra_agent a \<and> adv_receivable_id adv = rid
     \<and> principal adv = amount \<and> issued_at adv = tx_now tx
     \<and> quote_fees (tx_now tx) (adv_expires_at adv) pool amount = Inr (fee_owed adv, late_penalty_per_day adv)
     \<and> accounts w' (ra_consumed a) = Some (ConsumedAccount c) \<and> cp_nonce c = nonce \<and> cp_agent c = ra_agent a
     \<and> accounts w' (ra_pool a) = Some (PoolAccount (pool\<lparr>deployed_amount := D'\<rparr>))
     \<and> unat D' = unat (deployed_amount pool) + unat amount
     \<and> ledger_debt w' (ra_issuance_ledger a) = ledger_debt w (ra_issuance_ledger a) + unat amount
     \<and> balance (tokens w') (pool_usdc_vault pool) + unat amount = balance (tokens w) (pool_usdc_vault pool)
     \<and> balance (tokens w') (ra_agent_usdc_ata a) = balance (tokens w) (ra_agent_usdc_ata a) + unat amount"
  using assms(3)
proof (rule request_advance_Inr)
  fix c att l1 l2 fee late D'
  assume acc: "RequestAdvance_accounts rt tx a rid w = Inr c"
    and att: "verify_attestation (tx_sysvar tx) (tx_now tx) (rc_allowed_signer c) (ra_agent a) (ra_pool a)
       (pool_chain_id (rc_pool c)) nonce = Inr att"
    and roll: "roll_ledger (tx_now tx) (rc_ledger_bump c) (ra_agent a) (ra_pool a) (agent_window_cap (rc_pool c))
       amount (rc_ledger c) = Inr l1"
    and und: "underwrite att (max_advance_abs (rc_pool c)) amount l1 = Inr l2"
    and q: "quote_fees (tx_now tx) (att_expires_at att) (rc_pool c) amount = Inr (fee, late)"
    and D: "unat D' = unat (deployed_amount (rc_pool c)) + unat amount"
    and w': "accounts w' = (accounts w)(
       ra_pool a \<mapsto> PoolAccount (rc_pool c\<lparr>deployed_amount := D'\<rparr>),
       ra_advance a \<mapsto> AdvanceAccount (advance_of tx a c rid amount att fee late),
       ra_consumed a \<mapsto> ConsumedAccount (consumed_of tx a c nonce),
       ra_issuance_ledger a \<mapsto> LedgerAccount l2)"
  note A = RequestAdvance_accounts_Inr [OF acc]
  note T = request_advance_tokens [OF assms(1-3) acc]
  have pool: "rc_pool c = pool" using A(4) assms(4) by simp
  have keys: "ra_pool a \<noteq> ra_advance a" "ra_pool a \<noteq> ra_consumed a" "ra_pool a \<noteq> ra_issuance_ledger a"
    using A(4,6,8) ledger_if_needed_Inr(2) [OF A(10)] by (auto simp: address_free_def)
  have "ra_agent_usdc_ata a \<noteq> pool_usdc_vault pool"
    using request_ata_not_vault [OF assms(1,2) acc assms(5)] .
  then have tok: "balance (tokens w') (pool_usdc_vault pool) + unat amount = balance (tokens w) (pool_usdc_vault pool)"
    "balance (tokens w') (ra_agent_usdc_ata a) = balance (tokens w) (ra_agent_usdc_ata a) + unat amount"
    using T(2) [OF assms(5)] T(5) by (simp_all add: pool)
  have "ledger_debt w' (ra_issuance_ledger a) = ledger_debt w (ra_issuance_ledger a) + unat amount"
    using ledger_debt_loaded [OF A(10)] roll_ledger_Inr(4) [OF roll] underwrite_Inr(6) [OF und]
    by (simp add: ledger_debt_def w')
  moreover obtain msg where "verify_prev_ed25519 (tx_sysvar tx) = Inr (as_signer (rc_allowed_signer c), msg)"
    "att_expires_at att = from_le_bytes (take 8 (drop 80 msg))" "att_signer att = as_signer (rc_allowed_signer c)"
    using att by (rule verify_attestation_Inr) (use that in simp)
  ultimately show ?thesis
    using tok q D A(2,9,11,12) keys
    by (intro exI [of _ "advance_of tx a c rid amount att fee late"] exI [of _ "consumed_of tx a c nonce"]
          exI [of _ D'] exI [of _ "rc_allowed_signer c"] exI [of _ msg])
       (simp add: w' pool advance_of_def consumed_of_def)
qed

lemma example_vault_guarded [simp]:
  "guarded ref_runtime (example_tokens t al ag v sh) vault"
proof -
  have "escrow_pda ref_runtime pool_key"
    unfolding escrow_pda_def
    by (rule exI [of _ "signer_seeds (example_pool 0 0 0 0) 255"])
       (simp add: signer_seeds_def example_pool_def ref_runtime_def ref_create_def)
  then show ?thesis by (simp add: guarded_def example_tokens_def token_account_def)
qed

lemma example_pool_accounts [simp]:
  "accounts world_empty pool_key = Some (PoolAccount (example_pool 0 0 0 0))"
  "accounts world_funded pool_key = Some (PoolAccount (example_pool 2000000000 2000000000000 0 0))"
  "accounts world_issued pool_key = Some (PoolAccount (example_pool 2000000000 2000000000000 300000000 0))"
  "accounts world_settled pool_key = Some (PoolAccount (example_pool 2007650000 2000000000000 0 1350000))"
  "accounts world_skimmed pool_key = Some (PoolAccount (example_pool 2007650000 2000000000000 0 0))"
  "accounts world_liquidated pool_key = Some (PoolAccount (example_pool 1700000000 2000000000000 0 0))"
  by (simp_all add: world_empty_def world_pool_def world_funded_def world_issued_def world_settled_def
      world_skimmed_def world_liquidated_def)

lemma example_pool_keys [simp]:
  "pool_usdc_vault (example_pool A S D F) = vault" "pool_share_mint (example_pool A S D F) = share_mint"
  "pool_treasury_ata (example_pool A S D F) = treasury" "pool_chain_id (example_pool A S D F) = 2"
  by (simp_all add: example_pool_def)

lemma advance_effect_witness:
  "balance (tokens world_issued) vault + 300000000 = balance (tokens world_funded) vault
   \<and> balance (tokens world_issued) agent_usdc = balance (tokens world_funded) agent_usdc + 300000000
   \<and> ledger_debt world_issued ledger_key = 300000000"
  using advance_effect [OF ref_spl_token_laws _ request_runs]
  by (auto simp: ledger_debt_def world_funded_def)

end
