(* ===== verification/Lifecycle_Properties.thy ===== *)
theory Lifecycle_Properties
  imports Escrow_Properties
begin

text \<open>
  Properties of the instructions that move money after issuance: settlement, liquidation,
  deposit, withdrawal and skimming.  Each states the guards that a success implies and the exact
  effect on counters, token balances and accounts.
\<close>

section \<open>Settlement\<close>

text \<open>
  C23: a successful settlement happened before the end of the claim window, in a transaction
  that carries the memo nonce, with a payment that covers principal, fee and late penalty.  The
  agent pays the vault principal plus the LP share of the fees and the treasury the protocol
  share; deployed amount and debt fall by the principal, assets grow by the LP share, accrued
  protocol fees by the protocol share; the advance is closed and the consumed-payment record
  stays.  The balances are stated for three different token accounts of agent, vault and treasury.
\<close>

theorem settlement_effect:
  assumes "spl_token_laws rt"
    and "claim_and_settle rt tx a payment w = Inr (w', ev)"
    and "accounts w (cs_advance a) = Some (AdvanceAccount adv)"
    and "accounts w (cs_pool a) = Some (PoolAccount pool)"
    and "distinct [cs_agent_usdc_ata a, pool_usdc_vault pool, pool_treasury_ata pool]"
  shows "sint (tx_now tx) < sint (adv_expires_at adv) + 1209600
     \<and> adv_agent adv \<in> set (tx_signers tx)
     \<and> unat (principal adv) + fees_due (tx_now tx) adv \<le> unat payment
     \<and> (\<exists>c. accounts w (cs_consumed a) = Some (ConsumedAccount c)
          \<and> accounts w' (cs_consumed a) = Some (ConsumedAccount c)
          \<and> require_memo_nonce (tx_sysvar tx) (cp_nonce c) = Inr ())
     \<and> accounts w' (cs_advance a) = None
     \<and> ledger_debt w' (cs_issuance_ledger a) + unat (principal adv) = ledger_debt w (cs_issuance_ledger a)
     \<and> (let cut = protocol_share (fees_due (tx_now tx) adv); lp_fee = fees_due (tx_now tx) adv - cut in
          (\<exists>pool'. accounts w' (cs_pool a) = Some (PoolAccount pool')
             \<and> unat (deployed_amount pool') + unat (principal adv) = unat (deployed_amount pool)
             \<and> unat (total_assets pool') = unat (total_assets pool) + lp_fee
             \<and> total_shares pool' = total_shares pool
             \<and> unat (accrued_protocol_fees pool') = unat (accrued_protocol_fees pool) + cut)
          \<and> balance (tokens w') (pool_usdc_vault pool)
              = balance (tokens w) (pool_usdc_vault pool) + unat (principal adv) + lp_fee
          \<and> balance (tokens w') (pool_treasury_ata pool) = balance (tokens w) (pool_treasury_ata pool) + cut
          \<and> balance (tokens w') (cs_agent_usdc_ata a) + unat (principal adv) + lp_fee + cut
              = balance (tokens w) (cs_agent_usdc_ata a))"
  using assms(2)
proof (rule claim_and_settle_Inr)
  fix adv' c l pool' m fall ts1 L' D' A' F'
  assume acc: "ClaimAndSettle_accounts rt tx a w = Inr (adv', c, l, pool', m)"
    and win: "sint (tx_now tx) < sint (adv_expires_at adv') + 1209600"
    and memo: "require_memo_nonce (tx_sysvar tx) (cp_nonce c) = Inr ()"
    and fall: "settlement_waterfall (tx_now tx) adv' payment = Inr fall"
    and L': "unat (live_principal l) = unat L' + unat (principal adv')"
    and D': "unat (deployed_amount pool') = unat D' + unat (principal adv')"
    and A': "unat A' = unat (total_assets pool') + unat (wf_lp_fee fall)"
    and F': "unat F' = unat (accrued_protocol_fees pool') + unat (wf_protocol_cut fall)"
    and w': "accounts w' = settled_accounts a (l\<lparr>live_principal := L'\<rparr>)
       (pool'\<lparr>deployed_amount := D', total_assets := A', accrued_protocol_fees := F'\<rparr>) (accounts w)"
  note A = ClaimAndSettle_accounts_Inr [OF acc] and W = settlement_waterfall_Inr [OF fall]
  have [simp]: "adv' = adv" "pool' = pool" using A(3,6) assms(3,4) by (simp_all add: result)
  have bal: "balance (tokens w') v
        + (if v = cs_agent_usdc_ata a then unat (wf_protocol_cut fall) + unat (wf_lp_cut fall) else 0)
      = balance (tokens w) v + (if v = pool_usdc_vault pool then unat (wf_lp_cut fall) else 0)
        + (if v = pool_treasury_ata pool then unat (wf_protocol_cut fall) else 0)" for v
    using settle_transfers(3) [OF assms(1,2) acc fall] by simp
  have keys: "cs_consumed a \<notin> {cs_advance a, cs_pool a, cs_issuance_ledger a}"
    "cs_pool a \<noteq> cs_advance a" "cs_issuance_ledger a \<notin> {cs_advance a, cs_pool a}"
    using A(3-6) by (auto simp: result)
  have cut: "unat (wf_protocol_cut fall) = protocol_share (fees_due (tx_now tx) adv)"
    "unat (wf_lp_fee fall) = fees_due (tx_now tx) adv - protocol_share (fees_due (tx_now tx) adv)"
    "unat (wf_lp_cut fall) = unat (principal adv) + unat (wf_lp_fee fall)"
    using W(2,3,4) by simp_all
  have "ledger_debt w' (cs_issuance_ledger a) + unat (principal adv) = ledger_debt w (cs_issuance_ledger a)"
    using A(5) L' keys by (simp add: ledger_debt_def w' settled_accounts_def result)
  then show ?thesis
    using win memo W(6) A(1,2,4) keys D' A' F' cut bal [of "pool_usdc_vault pool"] bal [of "pool_treasury_ata pool"]
      bal [of "cs_agent_usdc_ata a"] assms(5)
    by (auto simp: w' settled_accounts_def Let_def result)
qed

lemma example_accounts [simp]:
  "accounts world_issued advance_key = Some (AdvanceAccount example_advance)"
  "accounts world_issued consumed_key = Some (ConsumedAccount example_consumed)"
  "accounts world_issued ledger_key = Some (LedgerAccount (example_ledger 300000000))"
  "accounts world_settled ledger_key = Some (LedgerAccount (example_ledger 0))"
  "accounts world_liquidated ledger_key = Some (LedgerAccount (example_ledger 0))"
  by (simp_all add: world_issued_def world_settled_def world_liquidated_def)

lemma settlement_effect_witness:
  "accounts world_settled advance_key = None
   \<and> balance (tokens world_settled) vault = balance (tokens world_issued) vault + 300000000 + 7650000
   \<and> balance (tokens world_settled) treasury = balance (tokens world_issued) treasury + 1350000
   \<and> balance (tokens world_settled) agent_usdc + 309000000 = balance (tokens world_issued) agent_usdc"
proof -
  have due: "fees_due 865200 example_advance = 9000000"
    by (simp add: fees_due_def days_late_def example_advance_def)
  show ?thesis
    using settlement_effect [OF ref_spl_token_laws settle_runs, of example_advance
        "example_pool 2000000000 2000000000000 300000000 0"]
    by (simp add: due protocol_share_def Let_def del: world_tokens)
qed

text \<open>
  Lateness at settlement is at most 13 days, since the claim window ends 14 days after
  expiry: the clamp to 365 days never takes effect and the penalty is exactly the number of
  whole days late times the daily penalty.
\<close>

theorem settled_at_most_13_days_late:
  assumes "claim_and_settle rt tx a payment w = Inr (w', AdvanceSettled P g k p lpc pc net late)"
    and "accounts w (cs_advance a) = Some (AdvanceAccount adv)"
  shows "unat late \<le> 13
     \<and> unat late = nat (max 0 (sint (tx_now tx) - sint (adv_expires_at adv))) div 86400
     \<and> fees_due (tx_now tx) adv = unat (fee_owed adv) + unat late * unat (late_penalty_per_day adv)"
  using assms(1)
proof (rule claim_and_settle_Inr)
  fix adv' c l pool m fall ts1 L' D' A' F'
  assume acc: "ClaimAndSettle_accounts rt tx a w = Inr (adv', c, l, pool, m)"
    and win: "sint (tx_now tx) < sint (adv_expires_at adv') + 1209600"
    and fall: "settlement_waterfall (tx_now tx) adv' payment = Inr fall"
    and ev: "AdvanceSettled P g k p lpc pc net late = AdvanceSettled (cs_pool a) (adv_agent adv') (cs_advance a)
       (principal adv') (wf_lp_cut fall) (wf_protocol_cut fall) (wf_agent_net fall) (ucast (wf_late_days fall))"
  have [simp]: "adv' = adv" using ClaimAndSettle_accounts_Inr(3) [OF acc] assms(2) by (simp add: result)
  let ?x = "nat (max 0 (sint (tx_now tx) - sint (adv_expires_at adv))) div 86400"
  have le: "?x \<le> 13" using win by auto
  then have d: "days_late (tx_now tx) (adv_expires_at adv) = ?x" by (simp add: days_late_def)
  have "unat (wf_late_days fall) = ?x" using settlement_waterfall_Inr(1) [OF fall] d by simp
  with le have "unat (ucast (wf_late_days fall) :: u32) = ?x"
    by (simp add: unsigned_ucast_eq take_bit_nat_eq_self)
  with le d ev show ?thesis by (simp add: fees_due_def)
qed

lemma settled_at_most_13_days_late_witness:
  "is_ok (claim_and_settle ref_runtime tx_settle acc_settle 400000000 world_issued) \<and> unat (0 :: u32) \<le> 13
   \<and> fees_due (tx_now tx_settle) example_advance = 9000000"
  using settled_at_most_13_days_late [OF settle_runs, of example_advance] settle_runs
  by (simp add: is_ok_iff) (simp add: example_advance_def)

section \<open>Liquidation\<close>

text \<open>
  C24: a successful liquidation happened 14 days after expiry or later.  It moves no tokens;
  deployed amount, assets and the agent's debt fall by the principal and shares stay, so the LPs
  bear the loss; the advance is closed, a tombstone records agent, principal, expiry and time,
  the consumed-payment record stays.
\<close>

theorem liquidation_effect:
  assumes "liquidate rt tx a w = Inr (w', ev)"
    and "accounts w (lq_advance a) = Some (AdvanceAccount adv)"
    and "accounts w (lq_pool a) = Some (PoolAccount pool)"
  shows "sint (adv_expires_at adv) + 1209600 \<le> sint (tx_now tx)
     \<and> tokens w' = tokens w
     \<and> accounts w' (lq_advance a) = None
     \<and> (\<exists>c. accounts w (lq_consumed a) = Some (ConsumedAccount c)
          \<and> accounts w' (lq_consumed a) = Some (ConsumedAccount c))
     \<and> ledger_debt w' (lq_issuance_ledger a) + unat (principal adv) = ledger_debt w (lq_issuance_ledger a)
     \<and> (\<exists>pool'. accounts w' (lq_pool a) = Some (PoolAccount pool')
          \<and> unat (deployed_amount pool') + unat (principal adv) = unat (deployed_amount pool)
          \<and> unat (total_assets pool') + unat (principal adv) = unat (total_assets pool)
          \<and> total_shares pool' = total_shares pool)
     \<and> (\<exists>t. accounts w' (lq_tombstone a) = Some (TombstoneAccount t) \<and> tomb_agent t = adv_agent adv
          \<and> tomb_principal t = principal adv \<and> tomb_expires_at t = adv_expires_at adv
          \<and> tomb_liquidated_at t = tx_now tx)"
  using assms(1)
proof (rule liquidate_Inr)
  fix adv' l b pool' L' D' A'
  assume acc: "Liquidate_accounts rt tx a w = Inr (adv', l, b, pool')"
    and win: "sint (adv_expires_at adv') + 1209600 \<le> sint (tx_now tx)"
    and num: "unat (live_principal l) = unat L' + unat (principal adv')"
      "unat (deployed_amount pool') = unat D' + unat (principal adv')"
      "unat (total_assets pool') = unat A' + unat (principal adv')"
    and w': "accounts w' = ((accounts w)(
       lq_issuance_ledger a \<mapsto> LedgerAccount (l\<lparr>live_principal := L'\<rparr>),
       lq_pool a \<mapsto> PoolAccount (pool'\<lparr>deployed_amount := D', total_assets := A'\<rparr>),
       lq_tombstone a \<mapsto> TombstoneAccount (tombstone_of tx adv' b)))(lq_advance a := None)"
    and tok: "tokens w' = tokens w"
  note A = Liquidate_accounts_Inr [OF acc]
  have [simp]: "adv' = adv" "pool' = pool" using A(1,4) assms(2,3) by (simp_all add: result)
  obtain c where c: "load_consumed rt w (lq_pool a) adv (lq_consumed a) = Inr c" using A(2) by auto
  have keys: "lq_consumed a \<notin> {lq_advance a, lq_pool a, lq_issuance_ledger a, lq_tombstone a}"
    "lq_pool a \<notin> {lq_advance a, lq_tombstone a}" "lq_tombstone a \<noteq> lq_advance a"
    "lq_issuance_ledger a \<notin> {lq_advance a, lq_pool a, lq_tombstone a}"
    using A(1,3,4,6) c by (auto simp: result address_free_def)
  have "ledger_debt w' (lq_issuance_ledger a) + unat (principal adv) = ledger_debt w (lq_issuance_ledger a)"
    using A(3) num keys by (simp add: ledger_debt_def w' result)
  with win tok num keys c show ?thesis by (auto simp: w' tombstone_of_def result)
qed

lemma liquidation_effect_witness:
  "accounts world_liquidated advance_key = None
   \<and> ledger_debt world_liquidated ledger_key + 300000000 = ledger_debt world_issued ledger_key
   \<and> (\<exists>t. accounts world_liquidated tombstone_key = Some (TombstoneAccount t) \<and> tomb_principal t = 300000000)"
  using liquidation_effect [OF liquidate_runs, of example_advance] by auto

text \<open>
  C38: the two exits of an advance exclude each other in time.  With valid accounts and the same
  clock, settlement from 14 days after expiry on fails with \<open>NotSettleable\<close> and liquidation before
  that moment fails with \<open>NotLiquidatable\<close>; when the expiry is so far in the future that 14 days
  more exceed an \<open>i64\<close>, there is no exit at all: both fail with \<open>MathOverflow\<close> at any time.
\<close>

theorem exits_exclude_each_other:
  assumes "ClaimAndSettle_accounts rt tx a w = Inr (adv, c, l, pool, m)"
    and "Liquidate_accounts rt tx' b w = Inr (adv, l, bump, pool)"
    and "tx_now tx = tx_now tx'"
  shows "if 2 ^ 63 \<le> sint (adv_expires_at adv) + 1209600
         then liquidate rt tx' b w = Inl (Custom MathOverflow)
           \<and> claim_and_settle rt tx a payment w = Inl (Custom MathOverflow)
         else if sint (tx_now tx) < sint (adv_expires_at adv) + 1209600
         then liquidate rt tx' b w = Inl (Custom NotLiquidatable)
         else claim_and_settle rt tx a payment w = Inl (Custom NotSettleable)"
proof (cases "2 ^ 63 \<le> sint (adv_expires_at adv) + 1209600")
  case True
  then have "\<not> i64_fits (sint (adv_expires_at adv) + 1209600)" by (simp add: i64_fits_def)
  from far_expiry_locks_advance [OF this] True assms(1,2) show ?thesis
    by (simp add: liquidate_def claim_and_settle_def)
next
  case False
  then have "i64_fits (sint (adv_expires_at adv) + 1209600)"
    using sint_i64_bounds [of "adv_expires_at adv"] by (simp add: i64_fits_def)
  then obtain e where "i64_checked_add (adv_expires_at adv) LIQUIDATION_GRACE_SECONDS = Some e"
    "sint e = sint (adv_expires_at adv) + 1209600"
    by (cases "i64_checked_add (adv_expires_at adv) LIQUIDATION_GRACE_SECONDS")
      (auto simp: i64_checked_add_None i64_checked_add_Some)
  then show ?thesis
    using assms False
    by (simp add: liquidate_def liquidate_handler_def claim_and_settle_def claim_and_settle_handler_def Let_def
        del: LIQUIDATION_GRACE_SECONDS_def)
qed

lemma exits_exclude_witness:
  "liquidate ref_runtime (tx_liquidate\<lparr>tx_now := 865200\<rparr>) acc_liquidate world_issued = Inl (Custom NotLiquidatable)"
proof -
  have "Liquidate_accounts rt (tx\<lparr>tx_now := t\<rparr>) a w = Liquidate_accounts rt tx a w" for rt tx t a w
    by (simp add: Liquidate_accounts_def check_signer_def)
  then have "Liquidate_accounts ref_runtime (tx_liquidate\<lparr>tx_now := 865200\<rparr>) acc_liquidate world_issued =
     Inr (example_advance, example_ledger 300000000, 255, example_pool 2000000000 2000000000000 300000000 0)"
    by (simp only: liquidate_accounts_run)
  from exits_exclude_each_other [OF settle_accounts_run this] show ?thesis by simp
qed

section \<open>Liquidity providers\<close>

text \<open>
  C25: a successful deposit mints exactly the quoted, positive number of shares: the vault gains
  the amount, the provider's share account and the share supply gain the shares, assets and
  shares on the books grow by the same numbers, and no other account of the programs changes.
\<close>

theorem deposit_effect:
  assumes "spl_token_laws rt" and "no_pda_signer rt tx"
    and "deposit rt tx a amount w = Inr (w', ev)"
    and "accounts w (lp_pool a) = Some (PoolAccount pool)" and "guarded rt (tokens w) (pool_usdc_vault pool)"
    and "lp_usdc_ata a \<noteq> lp_share_ata a"
  shows "\<exists>s A' S'. preview_deposit amount (total_assets pool) (total_shares pool) = Inr s
     \<and> 0 < unat amount \<and> 0 < unat s
     \<and> accounts w' = (accounts w)(lp_pool a \<mapsto> PoolAccount (pool\<lparr>total_assets := A', total_shares := S'\<rparr>))
     \<and> unat A' = unat (total_assets pool) + unat amount \<and> unat S' = unat (total_shares pool) + unat s
     \<and> balance (tokens w') (pool_usdc_vault pool) = balance (tokens w) (pool_usdc_vault pool) + unat amount
     \<and> balance (tokens w') (lp_usdc_ata a) + unat amount = balance (tokens w) (lp_usdc_ata a)
     \<and> balance (tokens w') (lp_share_ata a) = balance (tokens w) (lp_share_ata a) + unat s
     \<and> supply_of (tokens w') (pool_share_mint pool) = supply_of (tokens w) (pool_share_mint pool) + unat s"
  using assms(3)
proof (rule deposit_Inr)
  fix pool' vault m s ts1 A' S'
  assume acc: "Deposit_accounts rt tx a w = Inr (pool', vault, m)"
    and pos: "0 < amount" "0 < s"
    and q: "preview_deposit amount (total_assets pool') (total_shares pool') = Inr s"
    and t: "transfer_checked rt tx [] (tokens w) (lp_usdc_ata a) (lp_usdc_mint a) (lp_usdc_vault a)
       (lp a) amount (mint_decimals m) = (Inr ts1 :: escrow_error + token_state)"
    and mt: "mint_to rt tx [signer_seeds pool' (pool_bump pool')] ts1 (lp_share_mint a) (lp_share_ata a)
       (lp_pool a) s = (Inr (tokens w') :: escrow_error + token_state)"
    and num: "unat A' = unat (total_assets pool') + unat amount" "unat S' = unat (total_shares pool') + unat s"
    and w': "accounts w' = (accounts w)(lp_pool a \<mapsto> PoolAccount (pool'\<lparr>total_assets := A', total_shares := S'\<rparr>))"
    and ev: "ev = Deposited (lp_pool a) (lp a) amount s"
  note D = Deposit_accounts_Inr [OF acc]
  have [simp]: "pool' = pool" using D(2) assms(4) by simp
  note E = deposit_tokens [OF assms(1,2) assms(3) [unfolded ev] acc]
  note T = transfer_effect(4) [OF assms(1) t] and M = mint_effect(2) [OF assms(1) mt]
  have ne: "pool_usdc_vault pool \<noteq> lp_usdc_ata a" "pool_usdc_vault pool \<noteq> lp_share_ata a"
    using D(8,9) signer_not_guarded [OF assms(2) D(1) _ assms(5)] by blast+
  have "balance (tokens w') (lp_usdc_ata a) + unat amount = balance (tokens w) (lp_usdc_ata a)"
    "balance (tokens w') (lp_share_ata a) = balance (tokens w) (lp_share_ata a) + unat s"
    using T [of "lp_usdc_ata a"] T [of "lp_share_ata a"] M [of "lp_usdc_ata a"] M [of "lp_share_ata a"] ne D(4) assms(6)
    by (auto split: if_splits)
  with q pos num w' E(2) [OF assms(5)] E(3) [of "pool_share_mint pool"] show ?thesis
    by (intro exI [of _ s] exI [of _ A'] exI [of _ S']) (simp add: word_less_nat_alt)
qed

lemma deposit_effect_witness:
  "balance (tokens world_funded) vault = balance (tokens world_empty) vault + 2000000000
   \<and> balance (tokens world_funded) alice_shares = balance (tokens world_empty) alice_shares + 2000000000000"
  using deposit_effect [OF ref_spl_token_laws _ deposit_runs, of "example_pool 0 0 0 0"]
  by (auto simp: deposit_quote_run)

text \<open>
  A successful withdrawal burns the shares and pays exactly the quoted, positive amount out
  of idle tokens: the amount is at most the vault's balance, vault and books fall by it, the
  share supply and the books' shares fall by the shares burned, and no other account of the
  programs changes.
\<close>

theorem withdraw_effect:
  assumes "spl_token_laws rt" and "no_pda_signer rt tx"
    and "withdraw rt tx a shares w = Inr (w', ev)"
    and "accounts w (lp_pool a) = Some (PoolAccount pool)" and "guarded rt (tokens w) (pool_usdc_vault pool)"
    and "lp_usdc_ata a \<noteq> lp_share_ata a"
  shows "\<exists>r A' S'. preview_redeem shares (total_assets pool) (total_shares pool) = Inr r
     \<and> 0 < unat shares \<and> 0 < unat r \<and> unat r \<le> balance (tokens w) (pool_usdc_vault pool)
     \<and> accounts w' = (accounts w)(lp_pool a \<mapsto> PoolAccount (pool\<lparr>total_assets := A', total_shares := S'\<rparr>))
     \<and> unat A' + unat r = unat (total_assets pool) \<and> unat S' + unat shares = unat (total_shares pool)
     \<and> balance (tokens w') (pool_usdc_vault pool) + unat r = balance (tokens w) (pool_usdc_vault pool)
     \<and> balance (tokens w') (lp_usdc_ata a) = balance (tokens w) (lp_usdc_ata a) + unat r
     \<and> balance (tokens w') (lp_share_ata a) + unat shares = balance (tokens w) (lp_share_ata a)
     \<and> supply_of (tokens w') (pool_share_mint pool) + unat shares = supply_of (tokens w) (pool_share_mint pool)"
  using assms(3)
proof (rule withdraw_Inr)
  fix pool' vault m r ts1 A' S'
  assume acc: "Deposit_accounts rt tx a w = Inr (pool', vault, m)"
    and pos: "0 < shares" "0 < r"
    and q: "preview_redeem shares (total_assets pool') (total_shares pool') = Inr r"
    and b: "burn rt tx [] (tokens w) (lp_share_mint a) (lp_share_ata a) (lp a) shares
       = (Inr ts1 :: escrow_error + token_state)"
    and t: "transfer_checked rt tx [signer_seeds pool' (pool_bump pool')] ts1 (lp_usdc_vault a)
       (lp_usdc_mint a) (lp_usdc_ata a) (lp_pool a) r (mint_decimals m)
       = (Inr (tokens w') :: escrow_error + token_state)"
    and num: "unat (total_assets pool') = unat A' + unat r" "unat (total_shares pool') = unat S' + unat shares"
    and w': "accounts w' = (accounts w)(lp_pool a \<mapsto> PoolAccount (pool'\<lparr>total_assets := A', total_shares := S'\<rparr>))"
    and ev: "ev = Withdrew (lp_pool a) (lp a) shares r"
  note D = Deposit_accounts_Inr [OF acc]
  have [simp]: "pool' = pool" using D(2) assms(4) by simp
  note E = withdraw_tokens [OF assms(1,2) assms(3) [unfolded ev] acc]
  note B = burn_effect(2) [OF assms(1) b] and T = transfer_effect(4) [OF assms(1) t]
  have ne: "pool_usdc_vault pool \<noteq> lp_usdc_ata a" "pool_usdc_vault pool \<noteq> lp_share_ata a"
    using D(8,9) signer_not_guarded [OF assms(2) D(1) _ assms(5)] by blast+
  have "balance (tokens w') (lp_usdc_ata a) = balance (tokens w) (lp_usdc_ata a) + unat r"
    "balance (tokens w') (lp_share_ata a) + unat shares = balance (tokens w) (lp_share_ata a)"
    using T [of "lp_usdc_ata a"] T [of "lp_share_ata a"] B [of "lp_usdc_ata a"] B [of "lp_share_ata a"] ne D(4) assms(6)
    by (auto split: if_splits)
  with q pos num w' E(2) [OF assms(5)] E(3) [of "pool_share_mint pool"] show ?thesis
    by (intro exI [of _ r] exI [of _ A'] exI [of _ S']) (auto simp: word_less_nat_alt)
qed

lemma withdraw_effect_witness:
  "\<exists>w' ev. withdraw ref_runtime tx_alice acc_deposit 1000000000000 world_issued = Inr (w', ev)
     \<and> (\<exists>r. preview_redeem 1000000000000 2000000000 2000000000000 = Inr r
          \<and> balance (tokens w') vault + unat r = balance (tokens world_issued) vault)"
proof -
  obtain w' ev where ok: "withdraw ref_runtime tx_alice acc_deposit 1000000000000 world_issued = Inr (w', ev)"
    using withdraw_ok by (auto simp: is_ok_iff)
  from withdraw_effect [OF ref_spl_token_laws _ ok] ok show ?thesis by fastforce
qed

section \<open>Protocol fees\<close>

text \<open>
  A skim needs the Squads gate of the pool's governance key and at most the accrued fees; it
  moves the amount from the vault to the treasury and lowers the accrued fees by it, and leaves
  assets, shares and deployed amount on the books as they are.
\<close>

theorem skim_effect:
  assumes "spl_token_laws rt"
    and "skim_protocol_fees rt tx a amount w = Inr (w', ev)"
    and "accounts w (sk_pool a) = Some (PoolAccount pool)" and "pool_treasury_ata pool \<noteq> pool_usdc_vault pool"
  shows "require_squads_governance_cpi (tx_sysvar tx) (pool_governance pool) = Inr ()
     \<and> unat amount \<le> unat (accrued_protocol_fees pool)
     \<and> (\<exists>F'. accounts w' = (accounts w)(sk_pool a \<mapsto> PoolAccount (pool\<lparr>accrued_protocol_fees := F'\<rparr>))
          \<and> unat F' + unat amount = unat (accrued_protocol_fees pool))
     \<and> balance (tokens w') (pool_usdc_vault pool) + unat amount = balance (tokens w) (pool_usdc_vault pool)
     \<and> balance (tokens w') (pool_treasury_ata pool) = balance (tokens w) (pool_treasury_ata pool) + unat amount"
  using assms(2)
proof (rule skim_protocol_fees_Inr)
  fix pool' m F'
  assume acc: "SkimProtocolFees_accounts rt tx a w = Inr (pool', m)"
    and gate: "require_squads_governance_cpi (tx_sysvar tx) (pool_governance pool') = Inr ()"
    and le: "amount \<le> accrued_protocol_fees pool'"
    and F': "unat (accrued_protocol_fees pool') = unat F' + unat amount"
    and w': "accounts w' = (accounts w)(sk_pool a \<mapsto> PoolAccount (pool'\<lparr>accrued_protocol_fees := F'\<rparr>))"
  have [simp]: "pool' = pool" using SkimProtocolFees_accounts_Inr(1) [OF acc] assms(3) by simp
  note T = skim_tokens(2) [OF assms(1,2) acc]
  from gate le F' w' T [of "pool_usdc_vault pool"] T [of "pool_treasury_ata pool"] assms(4) show ?thesis
    by (auto simp: word_le_nat_alt)
qed

lemma skim_effect_witness:
  "balance (tokens world_skimmed) vault + 1350000 = balance (tokens world_settled) vault
   \<and> balance (tokens world_skimmed) treasury = balance (tokens world_settled) treasury + 1350000"
  using skim_effect [OF ref_spl_token_laws skim_runs, of "example_pool 2007650000 2000000000000 0 1350000"]
  by simp

end
