(* ===== verification/Example_Reachable.thy ===== *)
theory Example_Reachable
  imports Escrow_Properties
begin

text \<open>The example worlds form runs of the machine, so they are reachable.\<close>

lemma example_lengths [simp]:
  "length agent = 32" "length pool_key = 32" "length receivable = 32" "length nonce16 = 16" "length bridge = 32"
  by (simp_all add: agent_def pool_key_def receivable_def nonce16_def bridge_def)

lemma genesis_reachable: "reachable ref_runtime genesis"
  by (rule reachable_initial) (simp add: initial_def genesis_def)

lemma registry_step: "step ref_runtime genesis world_registry"
  by (rule step.registry [where ix = "Ix_init_registry acc_init_registry squads_vault" and tx = tx_init_registry])
     (simp_all add: init_registry_runs)

lemma signer_step: "step ref_runtime world_registry world_signer"
  by (rule step.registry [where ix = "Ix_add_allowed_signer acc_add_signer bridge 0" and tx = tx_governance])
     (simp_all add: add_signer_runs)

lemma pool_step: "step ref_runtime world_signer world_pool"
proof -
  obtain ev where "init_pool ref_runtime tx_init_pool init_accounts example_params world_signer = Inr (world_pool, ev)"
    using init_pool_runs by blast
  then show ?thesis
    by (intro step.escrow [where ix = "Ix_init_pool init_accounts example_params" and tx = tx_init_pool]) simp_all
qed

lemma empty_step: "step ref_runtime world_pool world_empty"
  unfolding world_empty_def
  by (rule step.external)
     (auto simp: external_tokens_def world_pool_def example_tokens_def token_account_def split: if_splits)

lemma funded_step: "step ref_runtime world_empty world_funded"
  by (rule step.escrow [where ix = "Ix_deposit acc_deposit 2000000000" and tx = tx_alice])
     (simp_all add: deposit_runs)

lemma issued_step: "step ref_runtime world_funded world_issued"
  by (rule step.escrow [where ix = "Ix_request_advance acc_request receivable 300000000 nonce16" and tx = tx_request])
     (simp_all add: request_runs)

lemma settled_step: "step ref_runtime world_issued world_settled"
  by (rule step.escrow [where ix = "Ix_claim_and_settle acc_settle 400000000" and tx = tx_settle])
     (simp_all add: settle_runs)

lemma liquidated_step: "step ref_runtime world_issued world_liquidated"
  by (rule step.escrow [where ix = "Ix_liquidate acc_liquidate" and tx = tx_liquidate])
     (simp_all add: liquidate_runs)

lemma skimmed_step: "step ref_runtime world_settled world_skimmed"
  by (rule step.escrow [where ix = "Ix_skim_protocol_fees acc_skim 1350000" and tx = tx_governance])
     (simp_all add: skim_runs)

lemma examples_reachable:
  shows "reachable ref_runtime world_funded" and "reachable ref_runtime world_issued"
    and "reachable ref_runtime world_settled" and "reachable ref_runtime world_liquidated"
    and "reachable ref_runtime world_skimmed"
proof -
  show f: "reachable ref_runtime world_funded"
    using genesis_reachable registry_step signer_step pool_step empty_step funded_step by (meson reachable_step)
  then show i: "reachable ref_runtime world_issued" using issued_step by (rule reachable_step)
  then show s: "reachable ref_runtime world_settled" using settled_step by (rule reachable_step)
  from i show "reachable ref_runtime world_liquidated" using liquidated_step by (rule reachable_step)
  from s show "reachable ref_runtime world_skimmed" using skimmed_step by (rule reachable_step)
qed

section \<open>The run as a history\<close>

text \<open>
  Registry, signer, pool, token activity, a deposit of 2000 USDC, an advance of 300 USDC, its
  settlement with 9 USDC of fees, and the skim of the protocol's 1.35 USDC.
\<close>

definition example_history :: "entry list" where
  "example_history =
     [(genesis, RegistryCall tx_init_registry (Ix_init_registry acc_init_registry squads_vault)
         (AttestorRegistryInitialized squads_vault), world_registry),
      (world_registry, RegistryCall tx_governance (Ix_add_allowed_signer acc_add_signer bridge 0)
         (AllowedSignerAdded bridge 0), world_signer),
      (world_signer, EscrowCall tx_init_pool (Ix_init_pool init_accounts example_params)
         (PoolInitialized (ip_pool init_accounts) (ip_asset_mint init_accounts) (ip_share_mint init_accounts)
           (ipp_governance example_params)), world_pool),
      (world_pool, TokenActivity, world_empty),
      (world_empty, EscrowCall tx_alice (Ix_deposit acc_deposit 2000000000)
         (Deposited pool_key alice 2000000000 2000000000000), world_funded),
      (world_funded, EscrowCall tx_request (Ix_request_advance acc_request receivable 300000000 nonce16)
         (AdvanceIssued pool_key agent advance_key 300000000 9000000 865300 bridge), world_issued),
      (world_issued, EscrowCall tx_settle (Ix_claim_and_settle acc_settle 400000000)
         (AdvanceSettled pool_key agent advance_key 300000000 307650000 1350000 91000000 0), world_settled),
      (world_settled, EscrowCall tx_governance (Ix_skim_protocol_fees acc_skim 1350000)
         (ProtocolFeesSkimmed pool_key 1350000 treasury), world_skimmed)]"

lemma init_pool_event:
  assumes "init_pool rt tx a params w = Inr (w', ev)"
  shows "ev = PoolInitialized (ip_pool a) (ip_asset_mint a) (ip_share_mint a) (ipp_governance params)"
  using assms by (auto simp: init_pool_def init_pool_handler_def result Let_def)

lemma pool_performs:
  "performs ref_runtime world_signer (EscrowCall tx_init_pool (Ix_init_pool init_accounts example_params)
     (PoolInitialized (ip_pool init_accounts) (ip_asset_mint init_accounts) (ip_share_mint init_accounts)
       (ipp_governance example_params))) world_pool"
proof -
  obtain ev where e: "init_pool ref_runtime tx_init_pool init_accounts example_params world_signer = Inr (world_pool, ev)"
    using init_pool_runs by blast
  from e init_pool_event [OF e] show ?thesis by simp
qed

lemma empty_performs: "performs ref_runtime world_pool TokenActivity world_empty"
  by (auto simp: external_tokens_def world_empty_def world_pool_def example_tokens_def token_account_def split: if_splits)

lemma example_history: "history (performs ref_runtime) genesis example_history world_skimmed"
  unfolding example_history_def
  by (intro history_cons history_nil pool_performs empty_performs)
     (simp_all add: init_registry_runs add_signer_runs deposit_runs request_runs settle_runs skim_runs)

lemma genesis_initial: "initial genesis"
  by (simp add: initial_def genesis_def)

end
