(* ===== verification/Governance_Properties.thy ===== *)
theory Governance_Properties
  imports Example_Reachable
begin

text \<open>
  Who can change what: live parameters move only through a matured proposal, proposals and the
  registry only behind the Squads gate, and a revoked signer underwrites nothing.
\<close>

section \<open>Parameters\<close>

text \<open>
  C33: an instruction that changes a pool's live parameters is \<open>execute_params\<close> on that pool,
  after the time its pending parameters carry; it installs exactly those and clears the slot.
\<close>

theorem live_params_change_only_when_matured:
  assumes "process_escrow rt tx ix w = Inr (w', ev)"
    and "accounts w k = Some (PoolAccount p)" and "accounts w' k = Some (PoolAccount p')"
    and "\<not> same_params p p'"
  shows "\<exists>a pending. ix = Ix_execute_params a \<and> ex_pool a = k \<and> pending_params p = Some pending
     \<and> sint (pp_execute_after pending) \<le> sint (tx_now tx) \<and> pending_params p' = None
     \<and> fee_curve p' = pp_fee_curve pending \<and> max_advance_pct_bps p' = pp_max_advance_pct_bps pending
     \<and> max_advance_abs p' = pp_max_advance_abs pending \<and> agent_window_cap p' = pp_agent_window_cap pending"
  using process_escrow_params [OF assms(1-3)] assms(4) by blast

text \<open>
  C34: an instruction that stages parameters is \<open>propose_params\<close> on that pool, in a transaction
  that passes the Squads gate of the pool's governance key; the staged fee curve is valid and the
  time of execution is now plus the pool's timelock, whatever the proposer put there.
\<close>

theorem proposals_are_gated_and_timelocked:
  assumes "process_escrow rt tx ix w = Inr (w', ev)"
    and "accounts w k = Some (PoolAccount p)" and "accounts w' k = Some (PoolAccount p')"
    and "pending_params p' = Some pending" and "pending_params p \<noteq> Some pending"
  shows "(\<exists>a params. ix = Ix_propose_params a params \<and> pr_pool a = k)
     \<and> require_squads_governance_cpi (tx_sysvar tx) (pool_governance p) = Inr ()
     \<and> FeeCurve_validate (pp_fee_curve pending) = Inr ()
     \<and> sint (pp_execute_after pending) = sint (tx_now tx) + sint (timelock_seconds p)
     \<and> same_params p p'"
  using process_escrow_params [OF assms(1-3)] assms(4,5) by (auto simp: FeeCurve_validate_ok_iff)

text \<open>A proposal and its execution, on the funded pool of the example.\<close>

definition staged :: PendingParams where
  "staged = example_pending\<lparr>pp_execute_after := 86600\<rparr>"

definition proposed_pool :: Pool where
  "proposed_pool = (example_pool 2000000000 2000000000000 0 0)\<lparr>pending_params := Some staged\<rparr>"

definition executed_pool :: Pool where
  "executed_pool = (example_pool 2000000000 2000000000000 0 0)\<lparr>max_advance_pct_bps := 2000,
     max_advance_abs := 600000000, agent_window_cap := 900000000\<rparr>"

definition world_proposed :: world where
  "world_proposed = world_funded\<lparr>accounts := (accounts world_funded)(pool_key \<mapsto> PoolAccount proposed_pool)\<rparr>"

definition world_executed :: world where
  "world_executed = world_funded\<lparr>accounts := (accounts world_funded)(pool_key \<mapsto> PoolAccount executed_pool)\<rparr>"

lemma propose_accounts_run:
  "ProposeParams_accounts ref_runtime tx_governance acc_propose world_funded
     = Inr (example_pool 2000000000 2000000000000 0 0)"
  by code_simp

lemma example_curve_valid: "FeeCurve_validate example_curve = Inr ()"
  by code_simp

lemma propose_runs:
  "propose_params ref_runtime tx_governance acc_propose example_pending world_funded
     = Inr (world_proposed, ParamsProposed pool_key 86600)"
proof -
  have "pp_fee_curve example_pending = example_curve" "timelock_seconds (example_pool A S D F) = 86400" for A S D F
    by (simp_all add: example_pending_def example_pool_def)
  then show ?thesis
    by (simp add: propose_params_def propose_accounts_run propose_params_handler_def squads_run example_curve_valid
        i64_checked_add_def i64_fits_def world_proposed_def proposed_pool_def staged_def)
qed

lemma execute_accounts_run:
  "ExecuteParams_accounts ref_runtime tx_execute acc_execute world_proposed = Inr proposed_pool"
  by code_simp

lemma execute_runs:
  "execute_params ref_runtime tx_execute acc_execute world_proposed
     = Inr (world_executed, ParamsExecuted pool_key 2000 600000000 900000000)"
proof -
  have "execute_params_handler tx_execute acc_execute proposed_pool world_proposed
      = Inr (world_executed, ParamsExecuted pool_key 2000 600000000 900000000)"
    by (simp add: execute_params_handler_def proposed_pool_def staged_def example_pending_def Let_def
        world_executed_def world_proposed_def executed_pool_def example_pool_def)
  then show ?thesis by (simp add: execute_params_def execute_accounts_run)
qed

lemma live_params_witness:
  "\<exists>pending. pending_params proposed_pool = Some pending
     \<and> sint (pp_execute_after pending) \<le> sint (tx_now tx_execute)
     \<and> max_advance_abs executed_pool = pp_max_advance_abs pending"
proof -
  have "process_escrow ref_runtime tx_execute (Ix_execute_params acc_execute) world_proposed
      = Inr (world_executed, ParamsExecuted pool_key 2000 600000000 900000000)"
    by (simp add: execute_runs)
  moreover have "\<not> same_params proposed_pool executed_pool"
    by (simp add: same_params_def proposed_pool_def executed_pool_def example_pool_def)
  moreover have "accounts world_proposed pool_key = Some (PoolAccount proposed_pool)"
    "accounts world_executed pool_key = Some (PoolAccount executed_pool)"
    by (simp_all add: world_proposed_def world_executed_def)
  ultimately show ?thesis
    using live_params_change_only_when_matured by blast
qed

lemma proposals_witness:
  "require_squads_governance_cpi (tx_sysvar tx_governance) squads_vault = Inr ()
   \<and> sint (pp_execute_after staged) = sint (tx_now tx_governance) + 86400"
proof -
  have run: "process_escrow ref_runtime tx_governance (Ix_propose_params acc_propose example_pending) world_funded
      = Inr (world_proposed, ParamsProposed pool_key 86600)"
    by (simp add: propose_runs)
  have "pending_params proposed_pool = Some staged"
    "pending_params (example_pool A S D F) \<noteq> Some staged"
    "timelock_seconds (example_pool A S D F) = 86400" for A S D F
    by (simp_all add: proposed_pool_def example_pool_def)
  moreover have "accounts world_proposed pool_key = Some (PoolAccount proposed_pool)"
    by (simp add: world_proposed_def)
  ultimately show ?thesis
    using proposals_are_gated_and_timelocked [OF run, of pool_key "example_pool 2000000000 2000000000000 0 0"
        proposed_pool staged]
    by simp
qed

section \<open>The Squads gate\<close>

text \<open>
  C35: in a transaction without a Squads instruction all five governance operations fail:
  proposing parameters, skimming fees, adding and removing a signer, changing the registry's
  governance key.
\<close>

theorem no_governance_without_squads:
  assumes "\<And>j ix. sv_load_at (tx_sysvar tx) j = Some ix \<Longrightarrow> ix_program_id ix \<noteq> SQUADS_V4"
  shows "(\<exists>e. propose_params rt tx a params w = Inl e)
     \<and> (\<exists>e. skim_protocol_fees rt tx b amount w = Inl e)
     \<and> (\<exists>e. add_allowed_signer rt tx c signer kind w = Inl e)
     \<and> (\<exists>e. remove_allowed_signer rt tx d w = Inl e)
     \<and> (\<exists>e. set_governance rt tx f g w = Inl e)"
  by (intro conjI gated_propose.blocked_without_squads gated_skim.blocked_without_squads
      gated_add.blocked_without_squads gated_remove.blocked_without_squads gated_set.blocked_without_squads)
     (erule assms)+

lemma no_governance_without_squads_witness:
  "\<exists>e. skim_protocol_fees ref_runtime tx_alice acc_skim 1350000 world_settled = Inl e"
  using no_governance_without_squads [of tx_alice]
  by (simp add: tx_defs no_instructions_def)

section \<open>Revocation\<close>

text \<open>A signer without an entry in the registry, and the one instruction that makes an entry.\<close>

definition unlisted :: "pubkey \<Rightarrow> world \<Rightarrow> bool" where
  "unlisted s w \<longleftrightarrow> (\<forall>k r. accounts w k = Some (AllowedSignerAccount r) \<longrightarrow> as_signer r \<noteq> s)"

fun lists_signer :: "pubkey \<Rightarrow> action \<Rightarrow> bool" where
  "lists_signer s (RegistryCall tx (Ix_add_allowed_signer a signer kind) ev) \<longleftrightarrow> signer = s"
| "lists_signer s _ \<longleftrightarrow> False"

lemma escrow_keeps_signers:
  assumes ok: "process_escrow rt tx ix w = Inr (w', ev)"
    and k: "accounts w' k = Some (AllowedSignerAccount r)"
  shows "accounts w k = Some (AllowedSignerAccount r)"
  using assms
  by (cases ix)
     (auto elim!: init_pool_Inr deposit_Inr withdraw_Inr request_advance_Inr claim_and_settle_Inr liquidate_Inr
        propose_params_Inr execute_params_Inr skim_protocol_fees_Inr
        simp: settled_accounts_def split: if_splits)

lemma registry_keeps_signers:
  assumes ok: "process_registry rt tx ix w = Inr (w', ev)"
    and k: "accounts w' k = Some (AllowedSignerAccount r)"
  shows "accounts w k = Some (AllowedSignerAccount r) \<or> (\<exists>a kind. ix = Ix_add_allowed_signer a (as_signer r) kind)"
  using assms
  by (cases ix)
     (auto elim!: init_registry_Inr add_allowed_signer_Inr remove_allowed_signer_Inr set_governance_Inr split: if_splits)

lemma performs_unlisted:
  assumes "unlisted s w" and "performs rt w l w'" and "\<not> lists_signer s l"
  shows "unlisted s w'"
proof (cases l)
  case (EscrowCall tx ix ev)
  with assms(1,2) show ?thesis unfolding unlisted_def by (auto dest: escrow_keeps_signers)
next
  case (RegistryCall tx ix ev)
  with assms show ?thesis unfolding unlisted_def by (auto dest!: registry_keeps_signers)
next
  case TokenActivity
  then obtain ts where "w' = w\<lparr>tokens := ts\<rparr>" using assms(2) by fastforce
  with assms(1) show ?thesis by (simp add: unlisted_def)
qed

lemma unlisted_grants_nothing:
  assumes "unlisted s w" and "process_escrow rt tx ix w = Inr (w', AdvanceIssued P g k x fee e t)"
  shows "t \<noteq> s"
proof -
  obtain a rid nonce where r: "request_advance rt tx a rid x nonce w = Inr (w', AdvanceIssued P g k x fee e t)"
    using assms(2) issued_by_request [OF assms(2)] by auto
  then obtain c att where "RequestAdvance_accounts rt tx a rid w = Inr c"
    and "verify_attestation (tx_sysvar tx) (tx_now tx) (rc_allowed_signer c) (ra_agent a) (ra_pool a)
       (pool_chain_id (rc_pool c)) nonce = Inr att" "att_signer att = t"
    by (auto elim!: request_advance_Inr)
  then have "accounts w (ra_allowed_signer a) = Some (AllowedSignerAccount (rc_allowed_signer c))"
    "as_signer (rc_allowed_signer c) = t"
    by (auto dest: RequestAdvance_accounts_Inr(2) elim!: verify_attestation_Inr)
  then show ?thesis using assms(1) by (auto simp: unlisted_def)
qed

lemma removed_signer_unlisted:
  assumes wf: "accounts_wf rt w" and s: "accounts w (rm_allowed_signer d) = Some (AllowedSignerAccount s)"
    and ok: "remove_allowed_signer rt tx d w = Inr (w', ev)"
  shows "unlisted (as_signer s) w'"
  unfolding unlisted_def
proof (intro allI impI notI)
  fix k r
  assume k: "accounts w' k = Some (AllowedSignerAccount r)" and same: "as_signer r = as_signer s"
  have w': "accounts w' = (accounts w)(rm_allowed_signer d := None)"
    using ok by (auto elim!: remove_allowed_signer_Inr)
  have old: "accounts w k = Some (AllowedSignerAccount r)" "k \<noteq> rm_allowed_signer d"
    using k by (auto simp: w' split: if_splits)
  from accounts_wf_D [OF wf old(1)] accounts_wf_D [OF wf s] same have "k = rm_allowed_signer d" by auto
  with old(2) show False by simp
qed

lemma unlisted_history:
  assumes "history (performs rt) w h w'" and "unlisted s w" and "\<forall>(v, l, u)\<in>set h. \<not> lists_signer s l"
  shows "unlisted s w' \<and> (\<forall>P g k x fee e t. AdvanceIssued P g k x fee e t \<in> set (events h) \<longrightarrow> t \<noteq> s)"
  using assms
proof (induction rule: history.induct)
  case (history_snoc w h v l u)
  then have IH: "unlisted s v" "\<And>P g k x fee e t. AdvanceIssued P g k x fee e t \<in> set (events h) \<Longrightarrow> t \<noteq> s"
    and no: "\<not> lists_signer s l"
    by auto
  have "t \<noteq> s" if "AdvanceIssued P g k x fee e t \<in> set (entry_events (v, l, u))" for P g k x fee e t
    using that history_snoc.hyps(2) by (cases l) (auto dest: unlisted_grants_nothing [OF IH(1)])
  with IH performs_unlisted [OF IH(1) history_snoc.hyps(2) no] show ?case by auto
qed simp

text \<open>
  C36: once a signer is removed from the registry, no advance is issued on an attestation signed
  with its key, whatever instructions of both programs and whatever token activity follow, as long
  as no \<open>add_allowed_signer\<close> for that key is among them; nothing else lists the key again.
\<close>

theorem revoked_signer_cannot_underwrite:
  assumes "environment rt" and "reachable rt w"
    and "accounts w (rm_allowed_signer d) = Some (AllowedSignerAccount s)"
    and "remove_allowed_signer rt tx d w = Inr (w1, ev)"
    and "history (performs rt) w1 h w2"
    and "\<forall>(v, l, u)\<in>set h. \<not> lists_signer (as_signer s) l"
  shows "AdvanceIssued P g k x fee e (as_signer s) \<notin> set (events h)
     \<and> (\<forall>j r. accounts w2 j = Some (AllowedSignerAccount r) \<longrightarrow> as_signer r \<noteq> as_signer s)"
  using unlisted_history [OF assms(5) removed_signer_unlisted [OF reachable_wf [OF assms(1,2)] assms(3,4)] assms(6)]
  unfolding unlisted_def by blast

text \<open>The bridge's key is removed, then the governance of the registry changes: the key stays unlisted.\<close>

lemma revoke_then_govern:
  "case remove_allowed_signer ref_runtime tx_governance acc_remove_signer world_funded of
     Inr (w1, _) \<Rightarrow> is_ok (set_governance ref_runtime tx_governance acc_set_governance deployer w1)
   | Inl _ \<Rightarrow> False"
  by code_simp

lemma revoked_signer_witness:
  "\<exists>w1 ev w2 ev' h. remove_allowed_signer ref_runtime tx_governance acc_remove_signer world_funded = Inr (w1, ev)
     \<and> set_governance ref_runtime tx_governance acc_set_governance deployer w1 = Inr (w2, ev')
     \<and> history (performs ref_runtime) w1 h w2 \<and> h \<noteq> []
     \<and> (\<forall>j r. accounts w2 j = Some (AllowedSignerAccount r) \<longrightarrow> as_signer r \<noteq> bridge)"
proof -
  obtain w1 ev w2 ev' where r: "remove_allowed_signer ref_runtime tx_governance acc_remove_signer world_funded = Inr (w1, ev)"
    and g: "set_governance ref_runtime tx_governance acc_set_governance deployer w1 = Inr (w2, ev')"
    using revoke_then_govern by (auto simp: is_ok_iff split: sum.splits)
  have s: "accounts world_funded (rm_allowed_signer acc_remove_signer) = Some (AllowedSignerAccount example_signer)"
    "as_signer example_signer = bridge"
    by (simp_all add: world_funded_def example_signer_def)
  let ?h = "[(w1, RegistryCall tx_governance (Ix_set_governance acc_set_governance deployer) ev', w2)]"
  have h: "history (performs ref_runtime) w1 ?h w2" by (rule history_one) (simp add: g)
  have "\<forall>(v, l, u)\<in>set ?h. \<not> lists_signer (as_signer example_signer) l" by simp
  from revoked_signer_cannot_underwrite [OF ref_environment examples_reachable(1) s(1) r h this] r g h s(2)
  show ?thesis by auto
qed

end
