(* ===== verification/Liveness.thy ===== *)
theory Liveness
  imports Refinement Token_Progress
begin

text \<open>
  Every advance can end.  In a well-formed state the agent can settle until the grace period is
  over, if the tokens are there; from then on anybody can liquidate.  The subtractions of the
  handlers cannot fail on the agent's ledger and on the deployed amount, since both count the
  advance.
\<close>

section \<open>Liquidation\<close>

text \<open>The accounts a cranker passes for a given pool and advance.\<close>

definition liquidate_accounts_for :: "runtime \<Rightarrow> pubkey \<Rightarrow> pubkey \<Rightarrow> pubkey \<Rightarrow> Advance \<Rightarrow> Liquidate" where
  "liquidate_accounts_for rt cranker P k adv =
     \<lparr> lq_cranker = cranker, lq_advance = k,
       lq_consumed = consumed_address rt P (adv_agent adv) (adv_receivable_id adv),
       lq_issuance_ledger = ledger_address rt P (adv_agent adv),
       lq_tombstone = fst (find_program_address rt
         [LIQUIDATION_TOMBSTONE_SEED, P, adv_agent adv, adv_receivable_id adv] ESCROW),
       lq_pool = P \<rparr>"

lemma grace_end:
  assumes "i64_fits (sint x + 1209600)"
  obtains e where "i64_checked_add x LIQUIDATION_GRACE_SECONDS = Some e" "sint e = sint x + 1209600"
  using assms by (cases "i64_checked_add x LIQUIDATION_GRACE_SECONDS")
    (auto simp: i64_checked_add_None i64_checked_add_Some)

lemma principal_le_outstanding:
  assumes "finite (dom m)" and "m k = Some (AdvanceAccount a)" and "advance_at rt P k a" and "Q a"
  shows "unat (principal a) \<le> outstanding rt m P Q"
  using outstanding_remove [OF assms(1,2), of rt P Q] assms(3,4) by (simp add: weight_def)

lemma stored_ledger:
  assumes laws: "pda_find_law rt" "pda_collision_free rt" and wf: "accounts_wf rt w"
    and len: "length P = 32" "length g = 32"
    and l: "accounts w (ledger_address rt P g) = Some (LedgerAccount l)"
  shows "led_agent l = g" and "led_pool l = P"
    and "create_program_address rt [ISSUANCE_LEDGER_SEED, P, g, [led_bump l]] ESCROW = Some (ledger_address rt P g)"
proof -
  have find: "find_program_address rt [ISSUANCE_LEDGER_SEED, led_pool l, led_agent l] ESCROW
      = (ledger_address rt P g, led_bump l)"
    and ll: "length (led_pool l) = 32" "length (led_agent l) = 32"
    using accounts_wf_D [OF wf l] by simp_all
  obtain b where "find_program_address rt [ISSUANCE_LEDGER_SEED, P, g] ESCROW = (ledger_address rt P g, b)"
    by (metis ledger_address_def prod.collapse)
  then have "led_pool l = P \<and> led_agent l = g \<and> led_bump l = b"
    using seeds_inj2 [OF laws(2) _ _ ll len] find_creates [OF laws(1) find] find_creates [OF laws(1)]
    by (metis append_Cons append_Nil)
  then show "led_agent l = g" "led_pool l = P"
    "create_program_address rt [ISSUANCE_LEDGER_SEED, P, g, [led_bump l]] ESCROW = Some (ledger_address rt P g)"
    using find_creates [OF laws(1) find] by simp_all
qed

lemma stored_advance_loads:
  assumes laws: "pda_find_law rt" "pda_collision_free rt" and wf: "accounts_wf rt w" and len: "length P = 32"
    and k: "accounts w k = Some (AdvanceAccount adv)" and at: "advance_at rt P k adv"
  obtains c l p where
    "load_advance rt w P k = Inr adv"
    "load_consumed rt w P adv (consumed_address rt P (adv_agent adv) (adv_receivable_id adv)) = Inr c"
    "load_ledger rt w P adv (ledger_address rt P (adv_agent adv)) = Inr l"
    "load_pool rt w P = Inr p"
proof -
  have wfa: "advance_wf rt (accounts w) k adv P" by (rule stored_advance_wf [OF laws wf k at len])
  have adv: "adv_state adv = Issued" "length (adv_agent adv) = 32" using accounts_wf_D [OF wf k] by simp_all
  from wfa obtain p l c where
    p: "accounts w P = Some (PoolAccount p)"
    and l: "accounts w (ledger_address rt P (adv_agent adv)) = Some (LedgerAccount l)"
    and c: "accounts w (consumed_address rt P (adv_agent adv) (adv_receivable_id adv)) = Some (ConsumedAccount c)"
      "cp_agent c = adv_agent adv"
      "cp_bump c = snd (find_program_address rt [CONSUMED_SEED, P, adv_agent adv, adv_receivable_id adv] ESCROW)"
    by (auto simp: advance_wf_def)
  have find: "find_program_address rt [CONSUMED_SEED, P, adv_agent adv, adv_receivable_id adv] ESCROW
      = (consumed_address rt P (adv_agent adv) (adv_receivable_id adv), cp_bump c)"
    by (simp add: consumed_address_def c(3))
  show ?thesis
  proof (rule that)
    show "load_advance rt w P k = Inr adv"
      using k adv(1) find_creates [OF laws(1) at [unfolded advance_at_def]] by (simp add: result)
    show "load_consumed rt w P adv (consumed_address rt P (adv_agent adv) (adv_receivable_id adv)) = Inr c"
      using c(1,2) find_creates [OF laws(1) find] by (simp add: result)
    show "load_ledger rt w P adv (ledger_address rt P (adv_agent adv)) = Inr l"
      using l stored_ledger [OF laws wf len adv(2) l] by (simp add: result)
    show "load_pool rt w P = Inr p" using p accounts_wf_D [OF wf p] by (simp add: result)
  qed
qed

lemma liquidation_possible:
  assumes env: "environment rt" and wf: "accounts_wf rt w" and ex: "exposure_ok rt w" and len: "length P = 32"
    and k: "accounts w k = Some (AdvanceAccount adv)" and at: "advance_at rt P k adv"
    and fits: "i64_fits (sint (adv_expires_at adv) + 1209600)"
    and due: "sint (adv_expires_at adv) + 1209600 \<le> sint (tx_now tx)"
    and sig: "cranker \<in> set (tx_signers tx)"
    and free: "address_free w (lq_tombstone (liquidate_accounts_for rt cranker P k adv))"
    and P: "accounts w P = Some (PoolAccount pool)" and assets: "principal adv \<le> total_assets pool"
  shows "\<exists>w'. liquidate rt tx (liquidate_accounts_for rt cranker P k adv) w
           = Inr (w', AdvanceLiquidated P (adv_agent adv) k (principal adv))"
proof -
  note laws = environmentD(2,3) [OF env]
  from stored_advance_loads [OF laws wf len k at] obtain c l p where
    ld: "load_advance rt w P k = Inr adv"
    "load_consumed rt w P adv (consumed_address rt P (adv_agent adv) (adv_receivable_id adv)) = Inr c"
    "load_ledger rt w P adv (ledger_address rt P (adv_agent adv)) = Inr l"
    "load_pool rt w P = Inr p" .
  have [simp]: "p = pool" using ld(4) P by (simp add: result)
  have fin: "finite (dom (accounts w))" using wf by (simp add: accounts_wf_def)
  have "unat (principal adv) \<le> unat (deployed_amount pool)"
    using principal_le_outstanding [OF fin k at] exposureD(1) [OF ex P] by simp
  then obtain D' where D: "checked_sub (deployed_amount pool) (principal adv) = Some D'" by (rule checked_subE)
  have "unat (principal adv) \<le> unat (live_principal l)"
    using principal_le_outstanding [OF fin k at] exposureD(2) [OF ex] ld(3) by (auto simp: result)
  then obtain L' where L: "checked_sub (live_principal l) (principal adv) = Some L'" by (rule checked_subE)
  have "unat (principal adv) \<le> unat (total_assets pool)" using assets by (simp add: word_le_nat_alt)
  then obtain A' where A: "checked_sub (total_assets pool) (principal adv) = Some A'" by (rule checked_subE)
  obtain e where e: "i64_checked_add (adv_expires_at adv) LIQUIDATION_GRACE_SECONDS = Some e"
    "sint e = sint (adv_expires_at adv) + 1209600"
    using fits by (rule grace_end)
  have t: "init_pda rt ESCROW [LIQUIDATION_TOMBSTONE_SEED, P, adv_agent adv, adv_receivable_id adv] w
      (lq_tombstone (liquidate_accounts_for rt cranker P k adv))
      = (Inr (snd (find_program_address rt [LIQUIDATION_TOMBSTONE_SEED, P, adv_agent adv, adv_receivable_id adv] ESCROW))
          :: escrow_error + u8)"
    using free by (simp add: init_pda_def liquidate_accounts_for_def)
  have sg: "check_signer tx cranker = (Inr () :: escrow_error + unit)" using sig by (simp add: check_signer_def)
  have "Liquidate_accounts rt tx (liquidate_accounts_for rt cranker P k adv) w = Inr (adv, l,
      snd (find_program_address rt [LIQUIDATION_TOMBSTONE_SEED, P, adv_agent adv, adv_receivable_id adv] ESCROW), pool)"
    using t by (simp add: Liquidate_accounts_def liquidate_accounts_for_def sg ld)
  then show ?thesis
    using due by (simp add: liquidate_def liquidate_handler_def Let_def e L D A liquidate_accounts_for_def
        del: LIQUIDATION_GRACE_SECONDS_def)
qed

section \<open>Settlement\<close>

text \<open>The agent's account can pay what is owed, and vault and treasury can receive it.\<close>

definition settlement_payable :: "token_state \<Rightarrow> Pool \<Rightarrow> pubkey \<Rightarrow> pubkey \<Rightarrow> nat \<Rightarrow> bool" where
  "settlement_payable ts pool g ata owed \<longleftrightarrow>
     usable ts (pool_asset_mint pool) ata \<and> usable ts (pool_asset_mint pool) (pool_usdc_vault pool)
     \<and> usable ts (pool_asset_mint pool) (pool_treasury_ata pool) \<and> owned_by ts g ata
     \<and> tok_mints ts (pool_asset_mint pool) \<noteq> None \<and> owed \<le> balance ts ata
     \<and> balance ts (pool_usdc_vault pool) + owed < 2 ^ 64 \<and> balance ts (pool_treasury_ata pool) + owed < 2 ^ 64"

definition settle_accounts_for ::
  "runtime \<Rightarrow> pubkey \<Rightarrow> Pool \<Rightarrow> pubkey \<Rightarrow> Advance \<Rightarrow> pubkey \<Rightarrow> ClaimAndSettle" where
  "settle_accounts_for rt P pool k adv ata =
     \<lparr> cs_agent = adv_agent adv, cs_advance = k,
       cs_consumed = consumed_address rt P (adv_agent adv) (adv_receivable_id adv),
       cs_issuance_ledger = ledger_address rt P (adv_agent adv), cs_pool = P,
       cs_pool_usdc_vault = pool_usdc_vault pool, cs_agent_usdc_ata = ata,
       cs_protocol_treasury_ata = pool_treasury_ata pool, cs_usdc_mint = pool_asset_mint pool \<rparr>"

lemma settlement_payments_possible:
  assumes law: "spl_token_laws rt" and prog: "spl_progress rt" and sig: "adv_agent adv \<in> set (tx_signers tx)"
    and fall: "settlement_waterfall now adv payment = Inr fall"
    and pay: "settlement_payable ts pool (adv_agent adv) ata (unat (principal adv) + fees_due now adv)"
    and m: "tok_mints ts (pool_asset_mint pool) = Some m"
  shows "\<exists>ts'. settlement_payments rt tx (settle_accounts_for rt P pool k adv ata) fall (mint_decimals m) ts = Inr ts'"
proof -
  note W = settlement_waterfall_Inr [OF fall]
  let ?M = "pool_asset_mint pool" and ?T = "pool_treasury_ata pool" and ?V = "pool_usdc_vault pool"
  have owed: "unat (wf_protocol_cut fall) + unat (wf_lp_cut fall) = unat (principal adv) + fees_due now adv"
    using W(3,4) by simp
  note p = pay [unfolded settlement_payable_def, folded owed]
  have mint: "map_option mint_decimals (tok_mints ts ?M) = Some (mint_decimals m)" by (simp add: m)
  have signed: "cpi_signed rt tx [] (adv_agent adv)" using sig by (simp add: cpi_signed_def)
  show ?thesis
  proof (cases "0 < wf_protocol_cut fall")
    case True
    have "can_transfer ts ata ?M ?T (adv_agent adv) (wf_protocol_cut fall) (mint_decimals m)"
      unfolding can_transfer_def using p mint by simp
    then obtain ts1 where t1: "transfer_checked rt tx [] ts ata ?M ?T (adv_agent adv) (wf_protocol_cut fall)
        (mint_decimals m) = (Inr ts1 :: escrow_error + token_state)"
      by (rule transfer_progress [OF prog signed])
    have "can_transfer ts1 ata ?M ?V (adv_agent adv) (wf_lp_cut fall) (mint_decimals m)"
      using p by (intro second_transfer [OF law t1 _ _ _ mint]) simp_all
    then obtain ts2 where "transfer_checked rt tx [] ts1 ata ?M ?V (adv_agent adv) (wf_lp_cut fall)
        (mint_decimals m) = (Inr ts2 :: escrow_error + token_state)"
      by (rule transfer_progress [OF prog signed])
    with t1 True show ?thesis by (simp add: settlement_payments_def settle_accounts_for_def)
  next
    case False
    have "can_transfer ts ata ?M ?V (adv_agent adv) (wf_lp_cut fall) (mint_decimals m)"
      unfolding can_transfer_def using p mint by simp
    then obtain ts2 where "transfer_checked rt tx [] ts ata ?M ?V (adv_agent adv) (wf_lp_cut fall)
        (mint_decimals m) = (Inr ts2 :: escrow_error + token_state)"
      by (rule transfer_progress [OF prog signed])
    with False show ?thesis by (simp add: settlement_payments_def settle_accounts_for_def)
  qed
qed

lemma settle_books_possible:
  assumes "unat (principal adv) \<le> unat (live_principal l)" and "unat (principal adv) \<le> unat (deployed_amount pool)"
    and "unat (total_assets pool) + unat (wf_lp_fee fall) < 2 ^ 64"
    and "unat (accrued_protocol_fees pool) + unat (wf_protocol_cut fall) < 2 ^ 64"
  shows "\<exists>x. settle_books adv fall l pool = Inr x"
proof -
  obtain L' where "checked_sub (live_principal l) (principal adv) = Some L'"
    using assms(1) by (rule checked_subE)
  moreover obtain D' where "checked_sub (deployed_amount pool) (principal adv) = Some D'"
    using assms(2) by (rule checked_subE)
  moreover obtain A' where "checked_add (total_assets pool) (wf_lp_fee fall) = Some A'"
    using assms(3) by (cases "checked_add (total_assets pool) (wf_lp_fee fall)") (auto simp: checked_None)
  moreover obtain F' where "checked_add (accrued_protocol_fees pool) (wf_protocol_cut fall) = Some F'"
    using assms(4) by (cases "checked_add (accrued_protocol_fees pool) (wf_protocol_cut fall)") (auto simp: checked_None)
  ultimately show ?thesis by (simp add: settle_books_def)
qed

lemma settlement_possible:
  assumes env: "environment rt" and prog: "spl_progress rt"
    and wf: "accounts_wf rt w" and ex: "exposure_ok rt w" and len: "length P = 32"
    and P: "accounts w P = Some (PoolAccount pool)"
    and k: "accounts w k = Some (AdvanceAccount adv)" and at: "advance_at rt P k adv"
    and c: "accounts w (consumed_address rt P (adv_agent adv) (adv_receivable_id adv)) = Some (ConsumedAccount c)"
    and memo: "require_memo_nonce (tx_sysvar tx) (cp_nonce c) = Inr ()"
    and sig: "adv_agent adv \<in> set (tx_signers tx)"
    and fits: "i64_fits (sint (adv_expires_at adv) + 1209600)" and now: "0 \<le> sint (tx_now tx)"
    and timely: "sint (tx_now tx) < sint (adv_expires_at adv) + 1209600"
    and pays: "unat (principal adv) + fees_due (tx_now tx) adv \<le> unat payment"
    and funds: "settlement_payable (tokens w) pool (adv_agent adv) ata (unat (principal adv) + fees_due (tx_now tx) adv)"
    and room: "unat (total_assets pool) + fees_due (tx_now tx) adv < 2 ^ 64"
      "unat (accrued_protocol_fees pool) + fees_due (tx_now tx) adv < 2 ^ 64"
  shows "\<exists>w' ev. claim_and_settle rt tx (settle_accounts_for rt P pool k adv ata) payment w = Inr (w', ev)
           \<and> accounts w' k = None"
proof -
  note laws = environmentD(2,3) [OF env]
  let ?a = "settle_accounts_for rt P pool k adv ata"
  from stored_advance_loads [OF laws wf len k at] obtain c' l p where
    ld: "load_advance rt w P k = Inr adv"
    "load_consumed rt w P adv (consumed_address rt P (adv_agent adv) (adv_receivable_id adv)) = Inr c'"
    "load_ledger rt w P adv (ledger_address rt P (adv_agent adv)) = Inr l"
    "load_pool rt w P = Inr p" .
  have [simp]: "p = pool" "c' = c" using ld(2,4) P c by (simp_all add: result)
  have fin: "finite (dom (accounts w))" using wf by (simp add: accounts_wf_def)
  from funds obtain m where m: "tok_mints (tokens w) (pool_asset_mint pool) = Some m"
    by (auto simp: settlement_payable_def)
  have acc: "ClaimAndSettle_accounts rt tx ?a w = Inr (adv, c, l, pool, m)"
    using funds m sig by (auto simp: ClaimAndSettle_accounts_def settle_accounts_for_def ld settlement_payable_def
        usable_def owned_by_def check_signer_def load_token_def load_mint_def check_address_def check_token_def
        split: option.splits)
  have "i64_fits (sint (tx_now tx) - sint (adv_expires_at adv))"
    using now timely sint_range_size [of "adv_expires_at adv"] by (simp add: i64_fits_def word_size)
  then obtain fall where fall: "settlement_waterfall (tx_now tx) adv payment = Inr fall"
    using settlement_waterfall_ok pays by blast
  note W = settlement_waterfall_Inr [OF fall]
  obtain ts' where ts': "settlement_payments rt tx ?a fall (mint_decimals m) (tokens w) = Inr ts'"
    using settlement_payments_possible [OF environmentD(1) [OF env] prog sig fall funds m] by blast
  have "unat (principal adv) \<le> unat (live_principal l)"
    using principal_le_outstanding [OF fin k at] exposureD(2) [OF ex] ld(3) by (auto simp: result)
  moreover have "unat (principal adv) \<le> unat (deployed_amount pool)"
    using principal_le_outstanding [OF fin k at] exposureD(1) [OF ex P] by simp
  ultimately obtain l' pool' where books: "settle_books adv fall l pool = Inr (l', pool')"
    using settle_books_possible [of adv l pool fall] room W(3) by fastforce
  obtain e where e: "i64_checked_add (adv_expires_at adv) LIQUIDATION_GRACE_SECONDS = Some e"
    "sint e = sint (adv_expires_at adv) + 1209600"
    using fits by (rule grace_end)
  have "cs_advance ?a = k" by (simp add: settle_accounts_for_def)
  then show ?thesis
    using timely by (simp add: claim_and_settle_def acc claim_and_settle_handler_def Let_def e memo fall ts' books
        settled_accounts_def del: LIQUIDATION_GRACE_SECONDS_def)
qed

section \<open>Withdrawal\<close>

definition lp_accounts_for :: "pubkey \<Rightarrow> Pool \<Rightarrow> pubkey \<Rightarrow> pubkey \<Rightarrow> pubkey \<Rightarrow> Withdraw" where
  "lp_accounts_for P pool g usdc_ata share_ata =
     \<lparr> lp = g, lp_pool = P, lp_usdc_vault = pool_usdc_vault pool, lp_usdc_ata = usdc_ata,
       lp_share_mint = pool_share_mint pool, lp_share_ata = share_ata, lp_usdc_mint = pool_asset_mint pool \<rparr>"

text \<open>The provider holds the shares, the vault holds their value, and all accounts can be used.\<close>

definition withdrawal_payable ::
  "token_state \<Rightarrow> Pool \<Rightarrow> pubkey \<Rightarrow> pubkey \<Rightarrow> pubkey \<Rightarrow> nat \<Rightarrow> nat \<Rightarrow> bool" where
  "withdrawal_payable ts pool g usdc_ata share_ata s r \<longleftrightarrow>
     usable ts (pool_asset_mint pool) usdc_ata \<and> usable ts (pool_asset_mint pool) (pool_usdc_vault pool)
     \<and> usable ts (pool_share_mint pool) share_ata \<and> owned_by ts g usdc_ata \<and> owned_by ts g share_ata
     \<and> tok_mints ts (pool_asset_mint pool) \<noteq> None
     \<and> s \<le> balance ts share_ata \<and> s \<le> supply_of ts (pool_share_mint pool)
     \<and> r \<le> balance ts (pool_usdc_vault pool) \<and> balance ts usdc_ata + r < 2 ^ 64"

text \<open>Burn, then pay from the vault, which the burn does not touch.\<close>

lemma withdrawal_payments_possible:
  assumes law: "spl_token_laws rt" and prog: "spl_progress rt"
    and sig: "g \<in> set (tx_signers tx)" "no_pda_signer rt tx"
    and seeds: "create_program_address rt seeds ESCROW = Some P"
    and vault: "owned_by ts P (pool_usdc_vault pool)"
    and pay: "withdrawal_payable ts pool g usdc_ata share_ata (unat s) (unat r)"
    and mints: "tok_mints ts (pool_asset_mint pool) = Some m" "tok_mints ts (pool_share_mint pool) \<noteq> None"
  obtains ts1 ts2 where
    "burn rt tx [] ts (pool_share_mint pool) share_ata g s = (Inr ts1 :: escrow_error + token_state)"
    "transfer_checked rt tx [seeds] ts1 (pool_usdc_vault pool) (pool_asset_mint pool) usdc_ata P r (mint_decimals m)
       = (Inr ts2 :: escrow_error + token_state)"
proof -
  note p = pay [unfolded withdrawal_payable_def]
  have "cpi_signed rt tx [] g" using sig(1) by (simp add: cpi_signed_def)
  moreover have "can_burn ts (pool_share_mint pool) share_ata g s" unfolding can_burn_def using p mints(2) by simp
  ultimately obtain ts1 where b: "burn rt tx [] ts (pool_share_mint pool) share_ata g s = (Inr ts1 :: escrow_error + token_state)"
    by (rule burn_progress [OF prog])
  note B = burn_effect [OF law b]
  have "pool_usdc_vault pool \<noteq> share_ata"
    using p vault sig seeds by (auto simp: owned_by_def no_pda_signer_def split: option.splits)
  then have "balance ts1 (pool_usdc_vault pool) = balance ts (pool_usdc_vault pool)"
    using B(2) [of "pool_usdc_vault pool"] by simp
  moreover have "balance ts1 usdc_ata \<le> balance ts usdc_ata" using B(2) [of usdc_ata] by simp
  ultimately have "can_transfer ts1 (pool_usdc_vault pool) (pool_asset_mint pool) usdc_ata P r (mint_decimals m)"
    unfolding can_transfer_def burn_keeps_usable [OF law b] using p vault mints(1) by simp
  moreover have "cpi_signed rt tx [seeds] P" using seeds by (simp add: cpi_signed_def)
  ultimately obtain ts2 where "transfer_checked rt tx [seeds] ts1 (pool_usdc_vault pool) (pool_asset_mint pool)
      usdc_ata P r (mint_decimals m) = (Inr ts2 :: escrow_error + token_state)"
    by (metis transfer_progress [OF prog])
  with b show ?thesis by (rule that)
qed

lemma withdrawal_possible:
  assumes env: "environment rt" and prog: "spl_progress rt" and re: "reachable rt w"
    and P: "accounts w P = Some (PoolAccount pool)"
    and sig: "g \<in> set (tx_signers tx)" "no_pda_signer rt tx"
    and r: "r = assets_for (unat s) (unat (total_assets pool)) (unat (total_shares pool))" "0 < r"
    and assets: "r \<le> unat (total_assets pool)" "unat (total_assets pool) + 1000000 \<le> 2 ^ 64"
    and pay: "withdrawal_payable (tokens w) pool g usdc_ata share_ata (unat s) r"
  shows "\<exists>w'. withdraw rt tx (lp_accounts_for P pool g usdc_ata share_ata) s w = Inr (w', Withdrew P g s (word_of_nat r))"
proof -
  have wf: "accounts_wf rt w" "tokens_ok w"
    using reachable_well_formed [OF env re] by (simp_all add: well_formed_def)
  from wf(2) P obtain va sm where va: "tok_accounts (tokens w) (pool_usdc_vault pool) = Some va" "ta_owner va = P"
    and sm: "tok_mints (tokens w) (pool_share_mint pool) = Some sm"
    unfolding tokens_ok_def by blast
  from pay obtain m where m: "tok_mints (tokens w) (pool_asset_mint pool) = Some m"
    by (auto simp: withdrawal_payable_def)
  have s_le: "unat s \<le> unat (total_shares pool)"
    using reachable_supply_covered [OF env re P] pay by (auto simp: withdrawal_payable_def)
  have s_pos: "0 < s" using r by (cases "s = 0") (auto simp: assets_for_def word_gt_0)
  have fit: "r < 2 ^ 64" using assets(1) unat_u64_less [of "total_assets pool"] by simp
  then obtain x :: u64 where x: "unat x = r" using ex_unat [of r, where 'a = 64] by auto
  have wx: "word_of_nat r = x" by (simp flip: x)
  have "unat s * (unat (total_assets pool) + 1000000) < 2 ^ 64 * 2 ^ 64"
    using assets(2) unat_u64_less [of s] by (intro mult_less_le_imp_less) simp_all
  then have quote: "preview_redeem s (total_assets pool) (total_shares pool) = Inr x"
    using fit wx by (simp add: preview_redeem_eq flip: r(1))
  have create: "create_program_address rt (signer_seeds pool (pool_bump pool)) ESCROW = Some P"
    using accounts_wf_D [OF wf(1) P] by (simp add: signer_seeds_def)
  obtain ts1 ts2 where ts: "burn rt tx [] (tokens w) (pool_share_mint pool) share_ata g s = (Inr ts1 :: escrow_error + token_state)"
    "transfer_checked rt tx [signer_seeds pool (pool_bump pool)] ts1 (pool_usdc_vault pool) (pool_asset_mint pool)
       usdc_ata P x (mint_decimals m) = (Inr ts2 :: escrow_error + token_state)"
    by (rule withdrawal_payments_possible [OF environmentD(1) [OF env] prog sig create _ pay [folded x] m])
       (simp_all add: owned_by_def va sm)
  obtain A' where A: "checked_sub (total_assets pool) x = Some A'"
    by (rule checked_subE [of x "total_assets pool"]) (simp_all add: x assets)
  obtain S' where S: "checked_sub (total_shares pool) s = Some S'" using s_le by (rule checked_subE)
  have ld: "load_pool rt w P = Inr pool" using P accounts_wf_D [OF wf(1) P] by (simp add: result)
  have acc: "Withdraw_accounts rt tx (lp_accounts_for P pool g usdc_ata share_ata) w = Inr (pool, va, m)"
    using pay sig(1) by (auto simp: Withdraw_accounts_def Deposit_accounts_def lp_accounts_for_def ld
        withdrawal_payable_def usable_def owned_by_def check_signer_def load_token_def load_mint_def
        check_address_def check_token_def va sm m split: option.splits)
  have "0 < x" "x \<le> ta_amount va"
    using r(2) x pay va by (simp_all add: word_less_nat_alt word_le_nat_alt withdrawal_payable_def balance_def)
  then show ?thesis
    using s_pos wx by (simp add: withdraw_def acc [unfolded lp_accounts_for_def] withdraw_handler_def quote ts A S lp_accounts_for_def)
qed

end
