(* ===== verification/Origination.thy ===== *)
theory Origination
  imports Liveness Escrow_Properties
begin

text \<open>
  When an advance is granted.  The guards of \<open>request_advance\<close> are collected in one predicate on
  the state; in a well-formed state they suffice: neither the arithmetic of the ledger, of the
  fees and of the pool's counters nor the derivation of addresses can fail then.
\<close>

section \<open>The accounts an agent passes\<close>

definition request_accounts_for ::
  "runtime \<Rightarrow> pubkey \<Rightarrow> Pool \<Rightarrow> pubkey \<Rightarrow> bytes \<Rightarrow> pubkey \<Rightarrow> RequestAdvance" where
  "request_accounts_for rt P pool g rid signer =
     \<lparr> ra_agent = g,
       ra_allowed_signer = fst (find_program_address rt [ALLOWED_SIGNER_SEED, signer] ATTESTOR_REGISTRY),
       ra_pool = P,
       ra_advance = fst (find_program_address rt [ADVANCE_SEED, P, g, rid] ESCROW),
       ra_consumed = consumed_address rt P g rid,
       ra_issuance_ledger = ledger_address rt P g,
       ra_pool_usdc_vault = pool_usdc_vault pool,
       ra_agent_usdc_ata = get_associated_token_address rt g (pool_asset_mint pool),
       ra_usdc_mint = pool_asset_mint pool \<rparr>"

lemma request_accounts_for_sel [simp]:
  "ra_agent (request_accounts_for rt P pool g rid s) = g"
  "ra_pool (request_accounts_for rt P pool g rid s) = P"
  "ra_allowed_signer (request_accounts_for rt P pool g rid s)
     = fst (find_program_address rt [ALLOWED_SIGNER_SEED, s] ATTESTOR_REGISTRY)"
  "ra_advance (request_accounts_for rt P pool g rid s) = fst (find_program_address rt [ADVANCE_SEED, P, g, rid] ESCROW)"
  "ra_consumed (request_accounts_for rt P pool g rid s) = consumed_address rt P g rid"
  "ra_issuance_ledger (request_accounts_for rt P pool g rid s) = ledger_address rt P g"
  "ra_pool_usdc_vault (request_accounts_for rt P pool g rid s) = pool_usdc_vault pool"
  "ra_agent_usdc_ata (request_accounts_for rt P pool g rid s) = get_associated_token_address rt g (pool_asset_mint pool)"
  "ra_usdc_mint (request_accounts_for rt P pool g rid s) = pool_asset_mint pool"
  by (simp_all add: request_accounts_for_def)

section \<open>Conditions\<close>

text \<open>What the ledger at an address counts as issued in the window at a given time.\<close>

definition issued_in_current_window :: "world \<Rightarrow> pubkey \<Rightarrow> i64 \<Rightarrow> nat" where
  "issued_in_current_window w k now = (case accounts w k of
     Some (LedgerAccount l) \<Rightarrow> if 86400 \<le> sint now - sint (window_start l) then 0 else unat (issued_in_window l)
   | _ \<Rightarrow> 0)"

definition window_has_room :: "world \<Rightarrow> pubkey \<Rightarrow> i64 \<Rightarrow> u64 \<Rightarrow> u64 \<Rightarrow> bool" where
  "window_has_room w k now cap amount \<longleftrightarrow>
     issued_in_current_window w k now + unat amount < 2 ^ 64
     \<and> (cap = 0 \<or> issued_in_current_window w k now + unat amount \<le> unat cap)"

text \<open>The receivable is new: none of the addresses it determines is in use.\<close>

definition receivable_is_new :: "runtime \<Rightarrow> world \<Rightarrow> pubkey \<Rightarrow> pubkey \<Rightarrow> bytes \<Rightarrow> bool" where
  "receivable_is_new rt w P g rid \<longleftrightarrow>
     address_free w (fst (find_program_address rt [ADVANCE_SEED, P, g, rid] ESCROW))
     \<and> address_free w (consumed_address rt P g rid)
     \<and> (address_free w (ledger_address rt P g)
          \<or> (case accounts w (ledger_address rt P g) of Some (LedgerAccount l) \<Rightarrow> True | _ \<Rightarrow> False))"

text \<open>The vault can pay the agent's associated token account.\<close>

definition advance_payable :: "runtime \<Rightarrow> world \<Rightarrow> pubkey \<Rightarrow> Pool \<Rightarrow> pubkey \<Rightarrow> nat \<Rightarrow> bool" where
  "advance_payable rt w P pool g amount \<longleftrightarrow>
     (let ata = get_associated_token_address rt g (pool_asset_mint pool) in
      usable (tokens w) (pool_asset_mint pool) (pool_usdc_vault pool) \<and> usable (tokens w) (pool_asset_mint pool) ata
      \<and> owned_by (tokens w) P (pool_usdc_vault pool) \<and> owned_by (tokens w) g ata \<and> ata \<noteq> ledger_address rt P g
      \<and> tok_mints (tokens w) (pool_asset_mint pool) \<noteq> None
      \<and> amount \<le> balance (tokens w) (pool_usdc_vault pool) \<and> balance (tokens w) ata + amount < 2 ^ 64)"

section \<open>Distinct addresses\<close>

lemma find_fst_creates:
  assumes "pda_find_law rt"
  shows "create_program_address rt (seeds @ [[snd (find_program_address rt seeds prog)]]) prog
    = Some (fst (find_program_address rt seeds prog))"
  using assms by (simp add: pda_find_law_def)

lemma derived_distinct:
  assumes laws: "pda_find_law rt" "pda_collision_free rt" and "concat (s @ [[b]]) \<noteq> concat (t @ [[c]])"
    and "b = snd (find_program_address rt s prog)" "c = snd (find_program_address rt t prog)"
  shows "fst (find_program_address rt s prog) \<noteq> fst (find_program_address rt t prog)"
  using find_fst_creates [OF laws(1), of s prog] find_fst_creates [OF laws(1), of t prog] assms(3-5) laws(2)
  unfolding pda_collision_free_def by metis

lemma origination_addresses_distinct:
  assumes laws: "pda_find_law rt" "pda_collision_free rt"
  shows "consumed_address rt P g rid \<noteq> fst (find_program_address rt [ADVANCE_SEED, P, g, rid] ESCROW)"
    and "ledger_address rt P g \<noteq> fst (find_program_address rt [ADVANCE_SEED, P, g, rid] ESCROW)"
    and "ledger_address rt P g \<noteq> consumed_address rt P g rid"
  unfolding consumed_address_def ledger_address_def
  by (rule derived_distinct [OF laws _ refl refl],
      simp add: CONSUMED_SEED_def ADVANCE_SEED_def ISSUANCE_LEDGER_SEED_def)+

section \<open>The steps of the handler\<close>

lemma quote_fees_possible:
  assumes "valid_curve (fee_curve pool)" and "unat (deployed_amount pool) \<le> unat (total_assets pool)"
  obtains fee late where "quote_fees now e pool amount = Inr (fee, late)"
proof -
  obtain u where u: "compute_utilization_bps pool = Inr u" "unat u \<le> 10000"
    using utilization_ok [OF assms(2)] by blast
  obtain fee where "compute_fee_amount amount (i64_max (i64_saturating_sub e now) 0) u 0 (fee_curve pool) = Inr fee"
    using compute_fee_ok [OF assms(1) u(2)] by blast
  moreover obtain late where "compute_late_penalty_per_day amount (fee_curve pool) = Inr late"
    using late_penalty_ok by blast
  ultimately show ?thesis using that u(1) by (simp add: quote_fees_def Let_def)
qed

lemma ledger_step_possible:
  assumes room: "window_has_room w k now cap amount"
    and ld: "ledger_if_needed rt w P g k = Inr (l, b)"
    and credit: "unat amount + unat (att_outstanding att) + ledger_debt w k \<le> unat (att_credit_limit att)"
    and cap: "amount \<le> max_abs"
  obtains l1 l2 where "roll_ledger now b g P cap amount l = Inr l1" "underwrite att max_abs amount l1 = Inr l2"
proof -
  have debt: "ledger_debt w k = unat (live_principal l)" by (rule ledger_debt_loaded [OF ld])
  let ?issued = "if led_bump l = 0 \<or> 86400 \<le> sint now - sint (window_start l) then 0 else unat (issued_in_window l)"
  have "?issued \<le> issued_in_current_window w k now"
    using ledger_if_needed_Inr(2) [OF ld]
    by (auto simp: issued_in_current_window_def zeroed_ledger_def)
  then have "?issued + unat amount < 2 ^ 64" "cap = 0 \<or> ?issued + unat amount \<le> unat cap"
    using room unfolding window_has_room_def by linarith+
  moreover have "unat (att_outstanding att) + unat (live_principal l) < 2 ^ 64"
    "\<not> unat (att_credit_limit att) - (unat (att_outstanding att) + unat (live_principal l)) < unat amount"
    using credit debt unat_u64_less [of "att_credit_limit att"] by simp_all
  moreover have "\<not> unat max_abs < unat amount" using cap by (simp add: word_le_nat_alt)
  ultimately have "\<exists>l2. and_then (roll_ledger now b g P cap amount l) (underwrite att max_abs amount) = Inr l2"
    unfolding roll_ledger_def charge_window_eq current_window_eq
    by (auto simp: underwrite_eq Let_def unat_eq_0 not_le not_less)
  then show ?thesis using that by (auto simp: result)
qed

section \<open>An advance is granted\<close>

lemma ledger_if_needed_possible:
  assumes "address_free w (ledger_address rt P g)
    \<or> (case accounts w (ledger_address rt P g) of Some (LedgerAccount l) \<Rightarrow> True | _ \<Rightarrow> False)"
  obtains l where "ledger_if_needed rt w P g (ledger_address rt P g)
    = Inr (l, snd (find_program_address rt [ISSUANCE_LEDGER_SEED, P, g] ESCROW))"
proof -
  obtain k b where f: "find_program_address rt [ISSUANCE_LEDGER_SEED, P, g] ESCROW = (k, b)" by fastforce
  then have "ledger_address rt P g = k" by (simp add: ledger_address_def)
  with assms f that show ?thesis
    by (cases "address_free w k")
       (auto simp: ledger_if_needed_def load_account_def split: option.splits account_data.splits)
qed

lemma request_accounts_possible:
  assumes laws: "pda_find_law rt" "pda_collision_free rt" and wf: "accounts_wf rt w"
    and P: "accounts w P = Some (PoolAccount pool)"
    and s: "accounts w (fst (find_program_address rt [ALLOWED_SIGNER_SEED, as_signer s] ATTESTOR_REGISTRY))
        = Some (AllowedSignerAccount s)"
    and sig: "g \<in> set (tx_signers tx)"
    and new: "receivable_is_new rt w P g rid" and pay: "advance_payable rt w P pool g amount"
  obtains c where "RequestAdvance_accounts rt tx (request_accounts_for rt P pool g rid (as_signer s)) rid w = Inr c"
    "rc_allowed_signer c = s" "rc_pool c = pool" "rc_tokens c = tokens w"
    "tok_mints (tokens w) (pool_asset_mint pool) = Some (rc_usdc_mint c)"
    "ledger_if_needed rt w P g (ledger_address rt P g) = Inr (rc_ledger c, rc_ledger_bump c)"
proof -
  let ?A = "request_accounts_for rt P pool g rid (as_signer s)" and ?L = "ledger_address rt P g"
  let ?ata = "get_associated_token_address rt g (pool_asset_mint pool)"
  let ?k = "fst (find_program_address rt [ADVANCE_SEED, P, g, rid] ESCROW)"
  have "find_program_address rt [ALLOWED_SIGNER_SEED, as_signer s] ATTESTOR_REGISTRY
      = (fst (find_program_address rt [ALLOWED_SIGNER_SEED, as_signer s] ATTESTOR_REGISTRY), as_bump s)"
    using accounts_wf_D [OF wf s] by simp
  from find_creates [OF laws(1) this]
  have seeds: "check_seeds rt ATTESTOR_REGISTRY [ALLOWED_SIGNER_SEED, as_signer s] (as_bump s)
      (fst (find_program_address rt [ALLOWED_SIGNER_SEED, as_signer s] ATTESTOR_REGISTRY)) = (Inr () :: escrow_error + unit)"
    by (simp add: check_seeds_def)
  have ld: "load_pool rt w P = Inr pool" using P accounts_wf_D [OF wf P] by (simp add: result)
  obtain m where m: "tok_mints (tokens w) (pool_asset_mint pool) = Some m"
    using pay by (auto simp: advance_payable_def Let_def)
  obtain va ta where va: "tok_accounts (tokens w) (pool_usdc_vault pool) = Some va"
    and ta: "tok_accounts (tokens w) ?ata = Some ta" "ta_mint ta = pool_asset_mint pool" "ta_owner ta = g"
    using pay by (auto simp: advance_payable_def Let_def usable_def owned_by_def split: option.splits)
  have free: "address_free w ?k" "address_free w (consumed_address rt P g rid)"
    using new by (simp_all add: receivable_is_new_def)
  obtain l where l: "ledger_if_needed rt w P g ?L = Inr (l, snd (find_program_address rt [ISSUANCE_LEDGER_SEED, P, g] ESCROW))"
    by (rule ledger_if_needed_possible) (use new in \<open>unfold receivable_is_new_def, blast\<close>)
  have "?ata \<notin> {?k, consumed_address rt P g rid, ?L}"
    using free ta(1) pay by (auto simp: address_free_def advance_payable_def Let_def)
  note distinct = this origination_addresses_distinct [OF laws, of P g rid]
  have checks: "check_signer tx g = (Inr () :: escrow_error + unit)"
    "load_account as_AllowedSigner w (fst (find_program_address rt [ALLOWED_SIGNER_SEED, as_signer s] ATTESTOR_REGISTRY))
       = (Inr s :: escrow_error + AllowedSigner)"
    "check_address x x = (Inr () :: escrow_error + unit)"
    "load_token (tokens w) (pool_usdc_vault pool) = (Inr va :: escrow_error + TokenAccount)"
    "load_mint (tokens w) (pool_asset_mint pool) = (Inr m :: escrow_error + Mint)"
    "agent_ata_if_needed rt (tokens w) g (pool_asset_mint pool) ?ata = Inr (tokens w)" for x
    using sig s va m ta by (simp_all add: result agent_ata_if_needed_def)
  have inits: "init_pda rt ESCROW [ADVANCE_SEED, P, g, rid] w ?k
      = (Inr (snd (find_program_address rt [ADVANCE_SEED, P, g, rid] ESCROW)) :: escrow_error + u8)"
    "init_pda rt ESCROW [CONSUMED_SEED, P, g, rid] w (consumed_address rt P g rid)
      = (Inr (snd (find_program_address rt [CONSUMED_SEED, P, g, rid] ESCROW)) :: escrow_error + u8)"
    using free by (simp_all add: init_pda_def consumed_address_def)
  have req: "require True e = (Inr () :: escrow_error + unit)" for e by simp
  have "RequestAdvance_accounts rt tx ?A rid w = Inr \<lparr> rc_allowed_signer = s, rc_pool = pool,
      rc_advance_bump = snd (find_program_address rt [ADVANCE_SEED, P, g, rid] ESCROW),
      rc_consumed_bump = snd (find_program_address rt [CONSUMED_SEED, P, g, rid] ESCROW), rc_ledger = l,
      rc_ledger_bump = snd (find_program_address rt [ISSUANCE_LEDGER_SEED, P, g] ESCROW),
      rc_usdc_mint = m, rc_tokens = tokens w \<rparr>"
    unfolding RequestAdvance_accounts_def request_accounts_for_sel
    using distinct by (simp only: checks seeds ld inits l and_then_simps prod.case req insert_iff empty_iff
        simp_thms not_False_eq_True)
  from that [OF this] show ?thesis using l m by simp
qed

lemma advance_possible:
  assumes env: "environment rt" and prog: "spl_progress rt" and wf: "accounts_wf rt w"
    and P: "accounts w P = Some (PoolAccount pool)"
    and s: "accounts w (fst (find_program_address rt [ALLOWED_SIGNER_SEED, as_signer s] ATTESTOR_REGISTRY))
        = Some (AllowedSignerAccount s)"
    and att: "verify_attestation (tx_sysvar tx) (tx_now tx) s g P (pool_chain_id pool) nonce = Inr att"
    and sig: "g \<in> set (tx_signers tx)"
    and new: "receivable_is_new rt w P g rid" and pay: "advance_payable rt w P pool g (unat amount)"
    and size: "1000000 \<le> unat amount" "amount \<le> max_advance_abs pool"
    and credit: "unat amount + unat (att_outstanding att) + ledger_debt w (ledger_address rt P g) \<le> unat (att_credit_limit att)"
    and room: "window_has_room w (ledger_address rt P g) (tx_now tx) (agent_window_cap pool) amount"
    and idle: "unat (deployed_amount pool) + unat amount \<le> unat (total_assets pool)"
  shows "\<exists>w' fee. request_advance rt tx (request_accounts_for rt P pool g rid (as_signer s)) rid amount nonce w
     = Inr (w', AdvanceIssued P g (fst (find_program_address rt [ADVANCE_SEED, P, g, rid] ESCROW)) amount fee
         (att_expires_at att) (att_signer att))"
proof -
  let ?A = "request_accounts_for rt P pool g rid (as_signer s)"
  note laws = environmentD(2,3) [OF env]
  obtain c where c: "RequestAdvance_accounts rt tx ?A rid w = Inr c"
    "rc_allowed_signer c = s" "rc_pool c = pool" "rc_tokens c = tokens w"
    and m: "tok_mints (tokens w) (pool_asset_mint pool) = Some (rc_usdc_mint c)"
    and ld: "ledger_if_needed rt w P g (ledger_address rt P g) = Inr (rc_ledger c, rc_ledger_bump c)"
    by (rule request_accounts_possible [OF laws wf P s sig new pay])
  obtain l1 l2 where roll: "roll_ledger (tx_now tx) (rc_ledger_bump c) g P (agent_window_cap pool) amount (rc_ledger c) = Inr l1"
    "underwrite att (max_advance_abs pool) amount l1 = Inr l2"
    by (rule ledger_step_possible [OF room ld credit size(2)])
  have curve: "valid_curve (fee_curve pool)" and
    create: "create_program_address rt (signer_seeds pool (pool_bump pool)) ESCROW = Some P"
    using accounts_wf_D [OF wf P] by (simp_all add: signer_seeds_def)
  obtain fee late where fees: "quote_fees (tx_now tx) (att_expires_at att) pool amount = Inr (fee, late)"
    by (rule quote_fees_possible [OF curve]) (use idle in simp)
  have "cpi_signed rt tx [signer_seeds pool (pool_bump pool)] P"
    using create by (simp add: cpi_signed_def)
  moreover have "can_transfer (tokens w) (pool_usdc_vault pool) (pool_asset_mint pool)
      (get_associated_token_address rt g (pool_asset_mint pool)) P amount (mint_decimals (rc_usdc_mint c))"
    using pay m by (simp add: advance_payable_def can_transfer_def Let_def)
  ultimately obtain ts where ts: "transfer_checked rt tx [signer_seeds pool (pool_bump pool)] (tokens w) (pool_usdc_vault pool)
      (pool_asset_mint pool) (get_associated_token_address rt g (pool_asset_mint pool)) P amount
      (mint_decimals (rc_usdc_mint c)) = (Inr ts :: escrow_error + token_state)"
    by (rule transfer_progress [OF prog])
  obtain D where D: "checked_add (deployed_amount pool) amount = Some D" "unat D = unat (deployed_amount pool) + unat amount"
    using idle unat_u64_less [of "total_assets pool"] by (auto intro: checked_addE [of "deployed_amount pool" amount])
  then have "D \<le> total_assets pool" using idle by (simp add: word_le_nat_alt)
  moreover have "MIN_ADVANCE_ATOMS \<le> amount" using size(1) by (simp add: word_le_nat_alt)
  ultimately show ?thesis
    by (simp add: request_advance_def c request_advance_handler_def Let_def att roll fees disburse_def ts expose_pool_def D(1))
qed

end
