(* ===== verification/Attestation_Reuse.thy ===== *)
theory Attestation_Reuse
  imports Origination Example_Reachable
begin

text \<open>
  The nonce of an attestation binds it to a request, not to a receivable: nothing on chain
  records that an attestation was used.  A second advance, for another receivable, goes through
  on the signed message of the first as long as limit and age allow it.
\<close>

lemma verify_attestation_again:
  assumes "verify_attestation sv now r g P cid nonce = Inr att"
    and "verify_prev_ed25519 sv' = verify_prev_ed25519 sv"
    and "as_signer s = att_signer att" and "as_kind s = AttestorKind_as_u8 CreditBridge"
    and "sint (att_attested_at att) \<le> sint now'" and "sint now' - sint (att_attested_at att) \<le> 900"
    and "sint now' < sint (att_expires_at att)"
  shows "verify_attestation sv' now' s g P cid nonce = Inr att"
proof -
  have fresh: "(\<exists>x. r = Inr x \<and> x) \<longleftrightarrow> r = Inr True" for r :: "escrow_error + bool" by auto
  show ?thesis using assms by (auto simp: verify_attestation_def result fresh simp del: VERSION_def)
qed

lemma history_pool_identity:
  assumes "history (performs rt) w h w'" and "accounts w P = Some (PoolAccount p)" and "accounts w' P = Some (PoolAccount p')"
  shows "same_identity p p'"
proof -
  have "(step rt)\<^sup>*\<^sup>* w w'" using assms(1) steps_history by blast
  then have "evolves (accounts w) (accounts w')" by (rule persistence.run_le) simp
  with assms(2,3) show ?thesis by (auto elim!: evolves_poolE)
qed

text \<open>
  C40: one signed message and one nonce serve more than one advance.  After an advance was granted
  and whatever happened since, a transaction that carries the same signed message and nonce, signed
  by the agent, obtains an advance for another receivable, as long as the message is at most 15
  minutes old and not expired, its signer is still listed, and the second amount passes the checks
  on its own: at least one USDC and within the pool's cap, window, idle assets and vault balance,
  and within the attested limit less the attested and the on-chain debt.
\<close>

theorem attestation_serves_two_receivables:
  assumes "environment rt" and "spl_progress rt" and "reachable rt w"
    and "performs rt w (EscrowCall tx (Ix_request_advance a rid amount nonce) ev) w1"
    and "history (performs rt) w1 h w2"
    and "verify_prev_ed25519 (tx_sysvar tx) = Inr (as_signer s, msg)"
    and "verify_prev_ed25519 (tx_sysvar tx') = Inr (as_signer s, msg)" and "ra_agent a \<in> set (tx_signers tx')"
    and "sint (tx_now tx) \<le> sint (tx_now tx')"
    and "sint (tx_now tx') - sint (from_le_bytes (take 8 (drop 88 msg)) :: i64) \<le> 900"
    and "sint (tx_now tx') < sint (from_le_bytes (take 8 (drop 80 msg)) :: i64)"
    and "accounts w2 (fst (find_program_address rt [ALLOWED_SIGNER_SEED, as_signer s] ATTESTOR_REGISTRY))
        = Some (AllowedSignerAccount s)"
    and "accounts w2 (ra_pool a) = Some (PoolAccount pool)"
    and "receivable_is_new rt w2 (ra_pool a) (ra_agent a) rid'"
    and "advance_payable rt w2 (ra_pool a) pool (ra_agent a) (unat amount')"
    and "1000000 \<le> unat amount'" and "amount' \<le> max_advance_abs pool"
    and "unat amount' + unat (from_le_bytes (take 8 (drop 72 msg)) :: u64)
          + ledger_debt w2 (ledger_address rt (ra_pool a) (ra_agent a))
        \<le> unat (from_le_bytes (take 8 (drop 64 msg)) :: u64)"
    and "window_has_room w2 (ledger_address rt (ra_pool a) (ra_agent a)) (tx_now tx') (agent_window_cap pool) amount'"
    and "unat (deployed_amount pool) + unat amount' \<le> unat (total_assets pool)"
  shows "\<exists>w3 fee. request_advance rt tx' (request_accounts_for rt (ra_pool a) pool (ra_agent a) rid' (as_signer s))
       rid' amount' nonce w2
     = Inr (w3, AdvanceIssued (ra_pool a) (ra_agent a)
         (fst (find_program_address rt [ADVANCE_SEED, ra_pool a, ra_agent a, rid'] ESCROW)) amount' fee
         (from_le_bytes (take 8 (drop 80 msg))) (as_signer s))"
proof -
  from assms(4) have ok: "request_advance rt tx a rid amount nonce w = Inr (w1, ev)" by simp
  then obtain c att where acc: "RequestAdvance_accounts rt tx a rid w = Inr c"
    and ver: "verify_attestation (tx_sysvar tx) (tx_now tx) (rc_allowed_signer c) (ra_agent a) (ra_pool a)
       (pool_chain_id (rc_pool c)) nonce = Inr att"
    by (auto elim!: request_advance_Inr)
  have re: "reachable rt w1" "reachable rt w2"
    using reachable_step [OF assms(3) performs_step [OF assms(4)]] history_reachable [OF assms(5)] by blast+
  note wf = reachable_wf [OF assms(1) re(2)]
  have att: "att = \<lparr> att_signer = as_signer s, att_credit_limit = from_le_bytes (take 8 (drop 64 msg)),
       att_outstanding = from_le_bytes (take 8 (drop 72 msg)), att_expires_at = from_le_bytes (take 8 (drop 80 msg)),
       att_attested_at = from_le_bytes (take 8 (drop 88 msg)) \<rparr>"
    "sint (att_attested_at att) \<le> sint (tx_now tx)"
    using ver assms(6) by (auto elim!: verify_attestation_Inr)
  have "history (performs rt) w ([(w, EscrowCall tx (Ix_request_advance a rid amount nonce) ev, w1)] @ h) w2"
    by (rule history_append [OF assms(5)], rule history_one, rule assms(4))
  from history_pool_identity [OF this RequestAdvance_accounts_Inr(4) [OF acc] assms(13)]
  have chain: "pool_chain_id (rc_pool c) = pool_chain_id pool" by (simp add: same_identity_def)
  have "as_kind s = AttestorKind_as_u8 CreditBridge" using accounts_wf_D [OF wf assms(12)] by simp
  moreover have "as_signer s = att_signer att" "sint (att_attested_at att) \<le> sint (tx_now tx')"
    "sint (tx_now tx') - sint (att_attested_at att) \<le> 900" "sint (tx_now tx') < sint (att_expires_at att)"
    using att(2) assms(9-11) unfolding att(1) by simp_all
  moreover have "verify_prev_ed25519 (tx_sysvar tx') = verify_prev_ed25519 (tx_sysvar tx)" by (simp only: assms(6,7))
  ultimately have again: "verify_attestation (tx_sysvar tx') (tx_now tx') s (ra_agent a) (ra_pool a) (pool_chain_id pool)
      nonce = Inr att"
    using verify_attestation_again [OF ver] unfolding chain by blast
  from advance_possible [OF assms(1,2) wf assms(13,12) again assms(8,14-17) _ assms(19,20)] assms(18)
  show ?thesis by (simp add: att(1))
qed

text \<open>After an advance of 300 USDC, the same message obtains 40 USDC more for another receivable.\<close>

definition receivable2 :: bytes where
  "receivable2 = replicate 32 20"

lemma attestation_serves_two_receivables_witness:
  "\<exists>w3 fee. request_advance ref_runtime tx_request (request_accounts_for ref_runtime pool_key
       (example_pool 2000000000 2000000000000 300000000 0) agent receivable2 bridge) receivable2 40000000 nonce16 world_issued
     = Inr (w3, AdvanceIssued pool_key agent (fst (find_program_address ref_runtime
         [ADVANCE_SEED, pool_key, agent, receivable2] ESCROW)) 40000000 fee 865300 bridge)"
proof -
  let ?p = "example_pool 2000000000 2000000000000 300000000 0"
  have sg: "as_signer example_signer = bridge" by (simp add: example_signer_def)
  have st: "receivable_is_new ref_runtime world_issued pool_key agent receivable2"
    "accounts world_issued (fst (find_program_address ref_runtime [ALLOWED_SIGNER_SEED, as_signer example_signer] ATTESTOR_REGISTRY))
       = Some (AllowedSignerAccount example_signer)"
    "ledger_debt world_issued (ledger_address ref_runtime pool_key agent) = 300000000"
    "window_has_room world_issued (ledger_address ref_runtime pool_key agent) (tx_now tx_request) (agent_window_cap ?p) 40000000"
    by code_simp+
  have msg: "verify_prev_ed25519 (tx_sysvar tx_request) = Inr (as_signer example_signer, example_message)"
    "(from_le_bytes (take 8 (drop 64 example_message)) :: u64) = 400000000"
    "(from_le_bytes (take 8 (drop 72 example_message)) :: u64) = 50000000"
    "(from_le_bytes (take 8 (drop 80 example_message)) :: i64) = 865300"
    "(from_le_bytes (take 8 (drop 88 example_message)) :: i64) = 900"
    by code_simp+
  have p: "agent \<in> set (tx_signers tx_request)" "unat (40000000 :: u64) = 40000000" "40000000 \<le> max_advance_abs ?p"
    "unat (deployed_amount ?p) + 40000000 \<le> unat (total_assets ?p)"
    by (simp_all add: example_pool_def tx_defs)
  have "ledger_address ref_runtime pool_key agent = ledger_key"
    by (simp add: ledger_address_def ledger_key_def ref_runtime_def)
  then have pay: "advance_payable ref_runtime world_issued pool_key ?p agent 40000000"
    by (simp add: advance_payable_def Let_def usable_def owned_by_def balance_def example_tokens_def token_account_def
        example_pool_def ref_runtime_def agent_usdc_def [symmetric])
  have first: "performs ref_runtime world_funded (EscrowCall tx_request (Ix_request_advance acc_request receivable 300000000 nonce16)
      (AdvanceIssued pool_key agent advance_key 300000000 9000000 865300 bridge)) world_issued"
    by (simp add: request_runs)
  show ?thesis
    using attestation_serves_two_receivables [OF ref_environment ref_spl_progress examples_reachable(1) first history_nil
        msg(1,1), of ?p receivable2 40000000] st p pay msg
    by (simp add: sg)
qed

end
