(* ===== verification/Solvency.thy ===== *)
theory Solvency
  imports Refinement
begin

text \<open>
  The surplus of a pool is what backs its assets beyond the books: vault balance and deployed
  principal, less the assets.  Skims are the only instructions that lower it.  The price of a
  share, virtual offsets included, falls only in liquidations.
\<close>

definition surplus :: "world \<Rightarrow> Pool \<Rightarrow> int" where
  "surplus w p = int (balance (tokens w) (pool_usdc_vault p)) + int (unat (deployed_amount p))
     - int (unat (total_assets p))"

fun skimmed_from :: "pubkey \<Rightarrow> escrow_ix \<Rightarrow> nat" where
  "skimmed_from P (Ix_skim_protocol_fees a amount) = (if sk_pool a = P then unat amount else 0)"
| "skimmed_from P _ = 0"

section \<open>Surplus\<close>

lemma surplus_mono:
  assumes "balance (tokens w) (pool_usdc_vault p) + unat (deployed_amount p) + unat (total_assets p')
      \<le> balance (tokens w') (pool_usdc_vault p') + unat (deployed_amount p') + unat (total_assets p) + x"
  shows "surplus w p - int x \<le> surplus w' p'"
  using assms unfolding surplus_def by linarith

lemma deposit_surplus:
  assumes law: "spl_token_laws rt" and sig: "no_pda_signer rt tx" and wf: "accounts_wf rt w" and tok: "tokens_ok w"
    and ok: "deposit rt tx a amount w = Inr (w', ev)"
    and p: "accounts w P = Some (PoolAccount p)" "accounts w' P = Some (PoolAccount p')"
  shows "surplus w p \<le> surplus w' p'"
  using ok
proof (rule deposit_Inr)
  fix pool vault m s ts1 A' S'
  assume acc: "Deposit_accounts rt tx a w = Inr (pool, vault, m)"
    and A': "unat A' = unat (total_assets pool) + unat amount"
    and w': "accounts w' = (accounts w)(lp_pool a \<mapsto> PoolAccount (pool\<lparr>total_assets := A', total_shares := S'\<rparr>))"
    and ev: "ev = Deposited (lp_pool a) (lp a) amount s"
  note D = Deposit_accounts_Inr [OF acc]
  have "surplus w p - int 0 \<le> surplus w' p'"
    by (rule surplus_mono, cases "lp_pool a = P")
       (use deposit_tokens(2) [OF law sig ok [unfolded ev] acc vault_guarded [OF wf tok p(1)]]
          pools_disjoint [OF tok p(1) D(2)] D(2) A' p in \<open>auto simp: w'\<close>)
  then show ?thesis by simp
qed

lemma withdraw_surplus:
  assumes law: "spl_token_laws rt" and sig: "no_pda_signer rt tx" and wf: "accounts_wf rt w" and tok: "tokens_ok w"
    and ok: "withdraw rt tx a shares w = Inr (w', ev)"
    and p: "accounts w P = Some (PoolAccount p)" "accounts w' P = Some (PoolAccount p')"
  shows "surplus w p \<le> surplus w' p'"
  using ok
proof (rule withdraw_Inr)
  fix pool vault m r ts1 A' S'
  assume acc: "Deposit_accounts rt tx a w = Inr (pool, vault, m)"
    and A': "unat (total_assets pool) = unat A' + unat r"
    and w': "accounts w' = (accounts w)(lp_pool a \<mapsto> PoolAccount (pool\<lparr>total_assets := A', total_shares := S'\<rparr>))"
    and ev: "ev = Withdrew (lp_pool a) (lp a) shares r"
  note D = Deposit_accounts_Inr [OF acc]
  have "surplus w p - int 0 \<le> surplus w' p'"
    by (rule surplus_mono, cases "lp_pool a = P")
       (use withdraw_tokens(2) [OF law sig ok [unfolded ev] acc vault_guarded [OF wf tok p(1)]]
          pools_disjoint [OF tok p(1) D(2)] D(2) A' p in \<open>auto simp: w'\<close>)
  then show ?thesis by simp
qed

lemma request_advance_surplus:
  assumes law: "spl_token_laws rt" and sig: "no_pda_signer rt tx" and wf: "accounts_wf rt w" and tok: "tokens_ok w"
    and ok: "request_advance rt tx a rid amount nonce w = Inr (w', ev)"
    and p: "accounts w P = Some (PoolAccount p)" "accounts w' P = Some (PoolAccount p')"
  shows "surplus w p \<le> surplus w' p'"
  using ok
proof (rule request_advance_Inr)
  fix c att l1 l2 fee late D'
  assume acc: "RequestAdvance_accounts rt tx a rid w = Inr c"
    and D': "unat D' = unat (deployed_amount (rc_pool c)) + unat amount"
    and w': "accounts w' = (accounts w)(
       ra_pool a \<mapsto> PoolAccount (rc_pool c\<lparr>deployed_amount := D'\<rparr>),
       ra_advance a \<mapsto> AdvanceAccount (advance_of tx a c rid amount att fee late),
       ra_consumed a \<mapsto> ConsumedAccount (consumed_of tx a c nonce),
       ra_issuance_ledger a \<mapsto> LedgerAccount l2)"
  note A = RequestAdvance_accounts_Inr [OF acc]
  have "surplus w p - int 0 \<le> surplus w' p'"
    by (rule surplus_mono, cases "ra_pool a = P")
       (use request_advance_tokens(2) [OF law sig ok acc vault_guarded [OF wf tok p(1)]]
          pools_disjoint [OF tok p(1) A(4)] A(4) D' p in \<open>auto simp: w' split: if_splits\<close>)
  then show ?thesis by simp
qed

lemma claim_and_settle_surplus:
  assumes law: "spl_token_laws rt" and sig: "no_pda_signer rt tx" and wf: "accounts_wf rt w" and tok: "tokens_ok w"
    and ok: "claim_and_settle rt tx a payment w = Inr (w', ev)"
    and p: "accounts w P = Some (PoolAccount p)" "accounts w' P = Some (PoolAccount p')"
  shows "surplus w p \<le> surplus w' p'"
  using ok
proof (rule claim_and_settle_Inr)
  fix adv c l pool m x ts1 L' D' A' F'
  assume acc: "ClaimAndSettle_accounts rt tx a w = Inr (adv, c, l, pool, m)"
    and fall: "settlement_waterfall (tx_now tx) adv payment = Inr x"
    and num: "unat (deployed_amount pool) = unat D' + unat (principal adv)"
      "unat A' = unat (total_assets pool) + unat (wf_lp_fee x)"
    and w': "accounts w' = settled_accounts a (l\<lparr>live_principal := L'\<rparr>)
       (pool\<lparr>deployed_amount := D', total_assets := A', accrued_protocol_fees := F'\<rparr>) (accounts w)"
  note A = ClaimAndSettle_accounts_Inr [OF acc]
  have "surplus w p - int 0 \<le> surplus w' p'"
    by (rule surplus_mono, cases "cs_pool a = P")
       (use claim_and_settle_tokens(2) [OF law sig ok acc fall vault_guarded [OF wf tok p(1)]]
          settlement_waterfall_Inr(4) [OF fall] pools_disjoint [OF tok p(1) A(6)] A(6) num p
        in \<open>auto simp: w' settled_accounts_def split: if_splits\<close>)
  then show ?thesis by simp
qed

lemma liquidate_surplus:
  assumes ok: "liquidate rt tx a w = Inr (w', ev)"
    and p: "accounts w P = Some (PoolAccount p)" "accounts w' P = Some (PoolAccount p')"
  shows "surplus w p \<le> surplus w' p'"
  using ok
proof (rule liquidate_Inr)
  fix adv l b pool L' D' A'
  assume acc: "Liquidate_accounts rt tx a w = Inr (adv, l, b, pool)"
    and num: "unat (deployed_amount pool) = unat D' + unat (principal adv)"
      "unat (total_assets pool) = unat A' + unat (principal adv)"
    and w': "accounts w' = ((accounts w)(
       lq_issuance_ledger a \<mapsto> LedgerAccount (l\<lparr>live_principal := L'\<rparr>),
       lq_pool a \<mapsto> PoolAccount (pool\<lparr>deployed_amount := D', total_assets := A'\<rparr>),
       lq_tombstone a \<mapsto> TombstoneAccount (tombstone_of tx adv b)))(lq_advance a := None)"
    and t: "tokens w' = tokens w"
  note A = Liquidate_accounts_Inr [OF acc]
  have "surplus w p - int 0 \<le> surplus w' p'"
    by (rule surplus_mono, cases "lq_pool a = P") (use A(4) num p t in \<open>auto simp: w' split: if_splits\<close>)
  then show ?thesis by simp
qed

lemma skim_surplus:
  assumes law: "spl_token_laws rt" and tok: "tokens_ok w"
    and ok: "skim_protocol_fees rt tx a amount w = Inr (w', ev)"
    and p: "accounts w P = Some (PoolAccount p)" "accounts w' P = Some (PoolAccount p')"
  shows "surplus w p - int (skimmed_from P (Ix_skim_protocol_fees a amount)) \<le> surplus w' p'"
  using ok
proof (rule skim_protocol_fees_Inr)
  fix pool m F'
  assume acc: "SkimProtocolFees_accounts rt tx a w = Inr (pool, m)"
    and w': "accounts w' = (accounts w)(sk_pool a \<mapsto> PoolAccount (pool\<lparr>accrued_protocol_fees := F'\<rparr>))"
  note S = SkimProtocolFees_accounts_Inr [OF acc]
  show ?thesis
    by (rule surplus_mono, cases "sk_pool a = P")
       (use skim_tokens(2) [OF law ok acc, of "pool_usdc_vault p"] pools_disjoint [OF tok p(1) S(1)] S(1) p
        in \<open>auto simp: w' split: if_splits\<close>)
qed

lemma process_escrow_surplus:
  assumes law: "spl_token_laws rt" and sig: "no_pda_signer rt tx" and wf: "accounts_wf rt w" and tok: "tokens_ok w"
    and ok: "process_escrow rt tx ix w = Inr (w', ev)"
    and p: "accounts w P = Some (PoolAccount p)" "accounts w' P = Some (PoolAccount p')"
  shows "surplus w p - int (skimmed_from P ix) \<le> surplus w' p'"
proof (cases ix)
  case (Ix_init_pool a params)
  with ok have "init_pool rt tx a params w = Inr (w', ev)" by simp
  then show ?thesis
    by (rule init_pool_tokens [OF law]) (use Ix_init_pool p in \<open>auto simp: surplus_def split: if_splits\<close>)
next
  case (Ix_propose_params a params)
  with ok have "propose_params rt tx a params w = Inr (w', ev)" by simp
  then show ?thesis
    by (rule propose_params_Inr) (use Ix_propose_params p in \<open>auto simp: surplus_def split: if_splits\<close>)
next
  case (Ix_execute_params a)
  with ok have "execute_params rt tx a w = Inr (w', ev)" by simp
  then show ?thesis
    by (rule execute_params_Inr) (use Ix_execute_params p in \<open>auto simp: surplus_def split: if_splits\<close>)
next
  case (Ix_skim_protocol_fees a amount)
  with ok have "skim_protocol_fees rt tx a amount w = Inr (w', ev)" by simp
  from skim_surplus [OF law tok this p] Ix_skim_protocol_fees show ?thesis by simp
qed (use ok deposit_surplus [OF law sig wf tok _ p] withdraw_surplus [OF law sig wf tok _ p]
      request_advance_surplus [OF law sig wf tok _ p] claim_and_settle_surplus [OF law sig wf tok _ p]
      liquidate_surplus [OF _ p] in auto)

text \<open>
  A settlement keeps the surplus of its pool and pays the protocol cut to the treasury; it also
  books the cut as accrued.  Skimming that amount pays it again, out of the vault.
\<close>

lemma settlement_keeps_surplus:
  assumes law: "spl_token_laws rt" and sig: "no_pda_signer rt tx" and wf: "accounts_wf rt w" and tok: "tokens_ok w"
    and ok: "claim_and_settle rt tx a payment w = Inr (w', AdvanceSettled P g k x lpc pc net late)"
    and p: "accounts w P = Some (PoolAccount p)"
    and apart: "pool_treasury_ata p \<noteq> pool_usdc_vault p" "cs_agent_usdc_ata a \<noteq> pool_treasury_ata p"
  obtains p' where "accounts w' P = Some (PoolAccount p')" "same_identity p p'" "surplus w' p' = surplus w p"
    "unat (accrued_protocol_fees p') = unat (accrued_protocol_fees p) + unat pc"
    "balance (tokens w') (pool_treasury_ata p) = balance (tokens w) (pool_treasury_ata p) + unat pc"
  using ok
proof (rule claim_and_settle_Inr)
  fix adv c l pool m y ts1 L' D' A' F'
  assume acc: "ClaimAndSettle_accounts rt tx a w = Inr (adv, c, l, pool, m)"
    and fall: "settlement_waterfall (tx_now tx) adv payment = Inr y"
    and num: "unat (deployed_amount pool) = unat D' + unat (principal adv)"
      "unat A' = unat (total_assets pool) + unat (wf_lp_fee y)"
      "unat F' = unat (accrued_protocol_fees pool) + unat (wf_protocol_cut y)"
    and w': "accounts w' = settled_accounts a (l\<lparr>live_principal := L'\<rparr>)
       (pool\<lparr>deployed_amount := D', total_assets := A', accrued_protocol_fees := F'\<rparr>) (accounts w)"
    and ev: "AdvanceSettled P g k x lpc pc net late = AdvanceSettled (cs_pool a) (adv_agent adv) (cs_advance a)
       (principal adv) (wf_lp_cut y) (wf_protocol_cut y) (wf_agent_net y) (ucast (wf_late_days y))"
  note A = ClaimAndSettle_accounts_Inr [OF acc]
  have P: "cs_pool a = P" "pc = wf_protocol_cut y" using ev by simp_all
  have pool: "pool = p" using A(6) p P by simp
  have keys: "cs_advance a \<noteq> P" "cs_issuance_ledger a \<noteq> P" using p A(3,5) by (auto simp: result)
  let ?p = "p\<lparr>deployed_amount := D', total_assets := A', accrued_protocol_fees := F'\<rparr>"
  have "balance (tokens w') (pool_usdc_vault p) = balance (tokens w) (pool_usdc_vault p) + unat (wf_lp_cut y)"
    using claim_and_settle_tokens(2) [OF law sig ok acc fall vault_guarded [OF wf tok p]] apart(1) by (simp add: pool)
  then have "surplus w' ?p = surplus w p"
    using num settlement_waterfall_Inr(4) [OF fall] by (simp add: surplus_def pool)
  moreover have "balance (tokens w') (pool_treasury_ata p) = balance (tokens w) (pool_treasury_ata p) + unat pc"
    using settle_transfers(3) [OF law ok acc fall, of "pool_treasury_ata p"] apart by (simp add: pool P)
  ultimately show ?thesis
    using P pool keys num by (intro that [of ?p]) (simp_all add: w' settled_accounts_def same_identity_def)
qed

lemma skim_takes_surplus:
  assumes law: "spl_token_laws rt"
    and ok: "skim_protocol_fees rt tx a amount w = Inr (w', ev)"
    and p: "accounts w (sk_pool a) = Some (PoolAccount p)"
    and apart: "pool_treasury_ata p \<noteq> pool_usdc_vault p"
  obtains p' where "accounts w' (sk_pool a) = Some (PoolAccount p')" "surplus w' p' = surplus w p - int (unat amount)"
    "unat (accrued_protocol_fees p) = unat (accrued_protocol_fees p') + unat amount"
    "balance (tokens w') (pool_treasury_ata p) = balance (tokens w) (pool_treasury_ata p) + unat amount"
  using ok
proof (rule skim_protocol_fees_Inr)
  fix pool m F'
  assume acc: "SkimProtocolFees_accounts rt tx a w = Inr (pool, m)"
    and F': "unat (accrued_protocol_fees pool) = unat F' + unat amount"
    and w': "accounts w' = (accounts w)(sk_pool a \<mapsto> PoolAccount (pool\<lparr>accrued_protocol_fees := F'\<rparr>))"
  have pool: "pool = p" using SkimProtocolFees_accounts_Inr(1) [OF acc] p by simp
  note T = skim_tokens(2) [OF law ok acc, unfolded pool]
  have "balance (tokens w) (pool_usdc_vault p) = balance (tokens w') (pool_usdc_vault p) + unat amount"
    using T [of "pool_usdc_vault p"] apart by simp
  then have "surplus w' (p\<lparr>accrued_protocol_fees := F'\<rparr>) = surplus w p - int (unat amount)"
    by (simp add: surplus_def)
  then show ?thesis
    using F' T [of "pool_treasury_ata p"] apart
    by (intro that [of "p\<lparr>accrued_protocol_fees := F'\<rparr>"]) (simp_all add: w' pool)
qed

section \<open>The price of a share\<close>

definition share_price_le :: "Pool \<Rightarrow> Pool \<Rightarrow> bool" where
  "share_price_le p p' \<longleftrightarrow>
     (unat (total_assets p) + 1000000) * (unat (total_shares p') + 1000000000)
       \<le> (unat (total_assets p') + 1000000) * (unat (total_shares p) + 1000000000)"

lemma share_price_grows:
  assumes "unat (total_assets p) \<le> unat (total_assets p')" and "total_shares p' = total_shares p"
  shows "share_price_le p p'"
  using assms unfolding share_price_le_def by simp

lemma process_escrow_price:
  assumes ok: "process_escrow rt tx ix w = Inr (w', ev)"
    and p: "accounts w P = Some (PoolAccount p)" "accounts w' P = Some (PoolAccount p')"
    and no: "\<And>a. ix \<noteq> Ix_liquidate a"
  shows "share_price_le p p'"
proof (cases ix)
  case (Ix_init_pool a params)
  with ok p show ?thesis
    by (auto elim!: init_pool_Inr simp: address_free_def intro!: share_price_grows split: if_splits)
next
  case (Ix_deposit a amount)
  with ok have "deposit rt tx a amount w = Inr (w', ev)" by simp
  then show ?thesis
  proof (rule deposit_Inr)
    fix pool vault m s ts1 A' S'
    assume acc: "Deposit_accounts rt tx a w = Inr (pool, vault, m)"
      and q: "preview_deposit amount (total_assets pool) (total_shares pool) = Inr s"
      and num: "unat A' = unat (total_assets pool) + unat amount" "unat S' = unat (total_shares pool) + unat s"
      and w': "accounts w' = (accounts w)(lp_pool a \<mapsto> PoolAccount (pool\<lparr>total_assets := A', total_shares := S'\<rparr>))"
    show ?thesis
      using Deposit_accounts_Inr(2) [OF acc] p num preview_deposit_Inr [OF q]
        price_le_deposit [of "unat (total_assets pool)" "unat (total_shares pool)" "unat amount"]
      by (auto simp: w' share_price_le_def split: if_splits)
  qed
next
  case (Ix_withdraw a shares)
  with ok have "withdraw rt tx a shares w = Inr (w', ev)" by simp
  then show ?thesis
  proof (rule withdraw_Inr)
    fix pool vault m r ts1 A' S'
    assume acc: "Deposit_accounts rt tx a w = Inr (pool, vault, m)"
      and q: "preview_redeem shares (total_assets pool) (total_shares pool) = Inr r"
      and num: "unat (total_assets pool) = unat A' + unat r" "unat (total_shares pool) = unat S' + unat shares"
      and w': "accounts w' = (accounts w)(lp_pool a \<mapsto> PoolAccount (pool\<lparr>total_assets := A', total_shares := S'\<rparr>))"
    have r: "assets_for (unat shares) (unat (total_assets pool)) (unat (total_shares pool)) = unat r"
      using preview_redeem_Inr [OF q] by simp
    have "(unat (total_assets pool) + 1000000) * (unat S' + 1000000000)
        \<le> (unat A' + 1000000) * (unat (total_shares pool) + 1000000000)"
      using price_le_withdraw [of "unat shares" "unat (total_assets pool)" "unat (total_shares pool)", unfolded r] num
      by simp
    then show ?thesis
      using Deposit_accounts_Inr(2) [OF acc] p by (auto simp: w' share_price_le_def split: if_splits)
  qed
next
  case (Ix_request_advance a rid amount nonce)
  with ok have "request_advance rt tx a rid amount nonce w = Inr (w', ev)" by simp
  then show ?thesis
    by (rule request_advance_Inr)
       (use p in \<open>auto dest: RequestAdvance_accounts_Inr(4) intro!: share_price_grows split: if_splits\<close>)
next
  case (Ix_claim_and_settle a payment)
  with ok have "claim_and_settle rt tx a payment w = Inr (w', ev)" by simp
  then show ?thesis
    by (rule claim_and_settle_Inr)
       (use p in \<open>auto dest: ClaimAndSettle_accounts_Inr(6) simp: settled_accounts_def intro!: share_price_grows
          split: if_splits\<close>)
next
  case (Ix_liquidate a)
  then show ?thesis using no [of a] by simp
next
  case (Ix_propose_params a params)
  with ok p show ?thesis
    by (auto elim!: propose_params_Inr intro!: share_price_grows split: if_splits)
next
  case (Ix_execute_params a)
  with ok p show ?thesis
    by (auto elim!: execute_params_Inr intro!: share_price_grows split: if_splits)
next
  case (Ix_skim_protocol_fees a amount)
  with ok have "skim_protocol_fees rt tx a amount w = Inr (w', ev)" by simp
  then show ?thesis
    by (rule skim_protocol_fees_Inr)
       (use p in \<open>auto dest: SkimProtocolFees_accounts_Inr(1) intro!: share_price_grows split: if_splits\<close>)
qed

end
