(* ===== verification/Issuance_Window.thy ===== *)
theory Issuance_Window
  imports Refinement
begin

text \<open>
  The issuance window of a (pool, agent) ledger over whole histories.  Each window of a ledger
  issues at most the cap that was in force; windows start at least 24 hours apart; so a stretch
  of 24 hours, which meets at most two windows, sees at most twice the largest cap.
\<close>

section \<open>Windows and draws\<close>

definition spent :: "(int \<times> nat) list \<Rightarrow> (int \<Rightarrow> bool) \<Rightarrow> nat" where
  "spent ds Q = sum_list (map (\<lambda>(t, x). if Q t then x else 0) ds)"

lemma spent_simps [simp]: "spent [] Q = 0" "spent (ds @ ds') Q = spent ds Q + spent ds' Q"
    "spent [(t, x)] Q = (if Q t then x else 0)"
  by (simp_all add: spent_def)

lemma spent_mono: "(\<And>t. t \<in> fst ` set ds \<Longrightarrow> Q t \<Longrightarrow> R t) \<Longrightarrow> spent ds Q \<le> spent ds R"
  unfolding spent_def by (induction ds) fastforce+

lemma spent_none: "(\<And>t. t \<in> fst ` set ds \<Longrightarrow> \<not> Q t) \<Longrightarrow> spent ds Q = 0"
  unfolding spent_def by (induction ds) fastforce+

lemma spent_split: "spent ds Q \<le> spent ds (\<lambda>t. Q t \<and> t < s) + spent ds (\<lambda>t. s \<le> t)"
  unfolding spent_def by (induction ds) auto

text \<open>
  What the current window (its start, what it issued) says about the draws so far, for caps of at
  most \<open>C\<close>.
\<close>

fun window_ok :: "nat \<Rightarrow> (int \<times> nat) list \<Rightarrow> (int \<times> nat) option \<Rightarrow> bool" where
  "window_ok C ds None \<longleftrightarrow> ds = []"
| "window_ok C ds (Some (ws, iw)) \<longleftrightarrow>
     ws \<in> fst ` set ds \<and> (\<forall>t\<in>fst ` set ds. t < ws + 86400)
     \<and> spent ds (\<lambda>t. ws \<le> t) \<le> iw \<and> iw \<le> C
     \<and> spent ds (\<lambda>t. ws - 86400 < t \<and> t < ws) \<le> C
     \<and> (\<forall>T. spent ds (\<lambda>t. T \<le> t \<and> t < T + 86400) \<le> 2 * C)"

fun charged :: "int \<Rightarrow> nat \<Rightarrow> (int \<times> nat) option \<Rightarrow> int \<times> nat" where
  "charged t x None = (t, x)"
| "charged t x (Some (ws, iw)) = (if 86400 \<le> t - ws then (t, x) else (ws, iw + x))"

lemma window_ok_charged:
  assumes ok: "window_ok C ds v" and last: "\<forall>t'\<in>fst ` set ds. t' \<le> t" and le: "snd (charged t x v) \<le> C"
  shows "window_ok C (ds @ [(t, x)]) (Some (charged t x v))"
proof (cases v)
  case None
  then show ?thesis using ok le by auto
next
  case (Some p)
  obtain ws iw where p: "p = (ws, iw)" by (cases p)
  have W: "ws \<in> fst ` set ds" "\<forall>t\<in>fst ` set ds. t < ws + 86400"
    "spent ds (\<lambda>t. ws \<le> t) \<le> iw" "iw \<le> C" "spent ds (\<lambda>t. ws - 86400 < t \<and> t < ws) \<le> C"
    "\<And>T. spent ds (\<lambda>t. T \<le> t \<and> t < T + 86400) \<le> 2 * C"
    using ok by (simp_all add: Some p)
  then have tws: "ws \<le> t" using last by blast
  show ?thesis
  proof (cases "86400 \<le> t - ws")
    case True
    have recent: "spent ds Q \<le> C" if "\<And>t'. Q t' \<Longrightarrow> ws \<le> t'" for Q
      using spent_mono [of ds Q "\<lambda>t. ws \<le> t"] that W(3,4) by fastforce
    have none: "spent ds (\<lambda>t'. t \<le> t') = 0" using W(2) True by (intro spent_none) fastforce
    have x: "x \<le> C" using le True by (simp add: Some p)
    have stretch: "spent (ds @ [(t, x)]) (\<lambda>t. T \<le> t \<and> t < T + 86400) \<le> 2 * C" for T
    proof (cases "T \<le> t \<and> t < T + 86400")
      case inside: True
      have "spent ds (\<lambda>t. T \<le> t \<and> t < T + 86400) \<le> C" using inside True by (intro recent) linarith
      then show ?thesis using inside x by simp
    qed (use W(6) [of T] in auto)
    have "spent ds (\<lambda>t'. t - 86400 < t' \<and> t' < t) \<le> C" using True by (intro recent) linarith
    then show ?thesis using True none x stretch W(2) by (auto simp: Some p simp del: spent_simps(2)) (auto simp: none)
  next
    case False
    have x: "iw + x \<le> C" using le False by (simp add: Some p)
    have stretch: "spent (ds @ [(t, x)]) (\<lambda>t. T \<le> t \<and> t < T + 86400) \<le> 2 * C" for T
    proof (cases "T \<le> t \<and> t < T + 86400")
      case inside: True
      have "spent ds (\<lambda>t. (T \<le> t \<and> t < T + 86400) \<and> t < ws) \<le> spent ds (\<lambda>t. ws - 86400 < t \<and> t < ws)"
        using inside tws by (intro spent_mono) linarith
      then show ?thesis
        using inside x W(3,5) spent_split [of ds "\<lambda>t. T \<le> t \<and> t < T + 86400" ws] by simp
    qed (use W(6) [of T] in auto)
    show ?thesis using False x stretch W(1-5) tws by (auto simp: Some p simp del: spent_simps(2)) auto
  qed
qed

lemma window_ok_stretch: "window_ok C ds v \<Longrightarrow> spent ds (\<lambda>t. T \<le> t \<and> t < T + 86400) \<le> 2 * C"
  by (cases "(C, ds, v)" rule: window_ok.cases) auto

section \<open>The window of a ledger account\<close>

definition window_at :: "world \<Rightarrow> pubkey \<Rightarrow> (int \<times> nat) option" where
  "window_at w k =
     (case accounts w k of
        Some (LedgerAccount l) \<Rightarrow> Some (sint (window_start l), unat (issued_in_window l))
      | _ \<Rightarrow> None)"

lemma window_at_ledger [simp]:
  "accounts w k = Some (LedgerAccount l) \<Longrightarrow> window_at w k = Some (sint (window_start l), unat (issued_in_window l))"
  by (simp add: window_at_def)

lemma window_at_cong:
  assumes "\<And>l. accounts w k = Some (LedgerAccount l) \<Longrightarrow>
      \<exists>l'. accounts w' k = Some (LedgerAccount l') \<and> window_start l' = window_start l \<and> issued_in_window l' = issued_in_window l"
    and "\<And>l'. accounts w' k = Some (LedgerAccount l') \<Longrightarrow> \<exists>l. accounts w k = Some (LedgerAccount l)"
  shows "window_at w' k = window_at w k"
proof (cases "\<exists>l. accounts w k = Some (LedgerAccount l)")
  case True
  then show ?thesis using assms(1) by fastforce
next
  case False
  then have "\<nexists>l'. accounts w' k = Some (LedgerAccount l')" using assms(2) by blast
  with False show ?thesis by (auto simp: window_at_def split: option.split account_data.split)
qed

text \<open>The draws of an agent on a pool: time and principal of each advance issued.\<close>

fun entry_draws :: "pubkey \<Rightarrow> pubkey \<Rightarrow> entry \<Rightarrow> (int \<times> nat) list" where
  "entry_draws P g (w, EscrowCall tx ix (AdvanceIssued Q a k x fee e s), w') =
     (if Q = P \<and> a = g then [(sint (tx_now tx), unat x)] else [])"
| "entry_draws P g _ = []"

definition draws :: "pubkey \<Rightarrow> pubkey \<Rightarrow> entry list \<Rightarrow> (int \<times> nat) list" where
  "draws P g h = concat (map (entry_draws P g) h)"

lemma draws_simps [simp]: "draws P g [] = []" "draws P g (h @ h') = draws P g h @ draws P g h'"
    "draws P g (e # h) = entry_draws P g e @ draws P g h"
  by (simp_all add: draws_def)

text \<open>A request of the agent on the pool charges the window; it starts one if there is none.\<close>

lemma roll_fresh_ledger:
  assumes "roll_ledger now b g P cap amount l = Inr l'" and "led_bump l = 0"
  shows "window_start l' = now" and "unat (issued_in_window l') = unat amount" and "0 < cap \<Longrightarrow> issued_in_window l' \<le> cap"
  using assms unfolding roll_ledger_def charge_window_def reset_window_def init_ledger_fields_def window_expired
  by (auto simp: result checked split: if_splits)

lemma request_charges_window:
  assumes laws: "pda_find_law rt" "pda_collision_free rt" and wf: "accounts_wf rt w"
    and len: "length P = 32" "length g = 32"
    and find: "find_program_address rt [ISSUANCE_LEDGER_SEED, P, g] ESCROW = (K, b)" and b: "b \<noteq> 0"
    and ok: "request_advance rt tx a rid amount nonce w = Inr (w', AdvanceIssued P g k x fee e s)"
    and p: "accounts w P = Some (PoolAccount p)" "0 < agent_window_cap p"
  shows "window_at w' K = Some (charged (sint (tx_now tx)) (unat x) (window_at w K))"
    and "snd (charged (sint (tx_now tx)) (unat x) (window_at w K)) \<le> unat (agent_window_cap p)"
proof -
  from ok obtain c att l1 l2 fee' late D' where acc: "RequestAdvance_accounts rt tx a rid w = Inr c"
    and roll: "roll_ledger (tx_now tx) (rc_ledger_bump c) (ra_agent a) (ra_pool a) (agent_window_cap (rc_pool c))
       amount (rc_ledger c) = Inr l1"
    and und: "underwrite att (max_advance_abs (rc_pool c)) amount l1 = Inr l2"
    and w': "accounts w' = (accounts w)(
       ra_pool a \<mapsto> PoolAccount (rc_pool c\<lparr>deployed_amount := D'\<rparr>),
       ra_advance a \<mapsto> AdvanceAccount (advance_of tx a c rid amount att fee' late),
       ra_consumed a \<mapsto> ConsumedAccount (consumed_of tx a c nonce),
       ra_issuance_ledger a \<mapsto> LedgerAccount l2)"
    and ev: "ra_pool a = P" "ra_agent a = g" "amount = x"
    by (auto elim!: request_advance_Inr)
  note A = RequestAdvance_accounts_Inr [OF acc]
  note L = ledger_if_needed_Inr [OF A(10), unfolded ev]
  have K: "ra_issuance_ledger a = K" using L(1) find by simp
  have pool: "rc_pool c = p" using A(4) p(1) ev by simp
  have new: "window_at w' K = Some (sint (window_start l1), unat (issued_in_window l1))"
    using underwrite_Inr(4,5) [OF und] by (simp add: w' K)
  show "window_at w' K = Some (charged (sint (tx_now tx)) (unat x) (window_at w K))"
    and "snd (charged (sint (tx_now tx)) (unat x) (window_at w K)) \<le> unat (agent_window_cap p)"
  proof (atomize (full), cases "accounts w K = Some (LedgerAccount (rc_ledger c))")
    case True
    then have "account_wf rt (accounts w) K (LedgerAccount (rc_ledger c))" using wf unfolding accounts_wf_def by blast
    then have "find_program_address rt [ISSUANCE_LEDGER_SEED, led_pool (rc_ledger c), led_agent (rc_ledger c)] ESCROW
        = (K, led_bump (rc_ledger c))" "length (led_pool (rc_ledger c)) = 32" "length (led_agent (rc_ledger c)) = 32"
      by simp_all
    then have "led_bump (rc_ledger c) = b"
      using seeds_inj2 [OF laws(2)] find_creates [OF laws(1)] find len by (metis append_Cons append_Nil list.inject)
    then have bump: "led_bump (rc_ledger c) \<noteq> 0" using b by simp
    note R = roll_ledger_window [OF roll bump]
    show "window_at w' K = Some (charged (sint (tx_now tx)) (unat x) (window_at w K))
        \<and> snd (charged (sint (tx_now tx)) (unat x) (window_at w K)) \<le> unat (agent_window_cap p)"
      using R p(2) True by (auto simp: new pool ev word_le_nat_alt)
  next
    case False
    then have free: "address_free w K" and z: "rc_ledger c = zeroed_ledger" using L(2) K by auto
    then have "window_at w K = None" by (simp add: window_at_def address_free_def)
    then show "window_at w' K = Some (charged (sint (tx_now tx)) (unat x) (window_at w K))
        \<and> snd (charged (sint (tx_now tx)) (unat x) (window_at w K)) \<le> unat (agent_window_cap p)"
      using roll_fresh_ledger [OF roll] p(2) by (auto simp: new pool ev z zeroed_ledger_def word_le_nat_alt)
  qed
qed

text \<open>Every other step leaves the window alone.\<close>

lemma ledger_address_inj:
  assumes laws: "pda_find_law rt" "pda_collision_free rt"
    and "find_program_address rt [ISSUANCE_LEDGER_SEED, P, g] ESCROW = (K, b)"
    and "find_program_address rt [ISSUANCE_LEDGER_SEED, Q, a] ESCROW = (K, c)"
    and "length P = 32" "length g = 32" "length Q = 32" "length a = 32"
  shows "Q = P \<and> a = g"
  using seeds_inj2 [OF laws(2)] find_creates [OF laws(1)] assms(3-) by (metis append_Cons append_Nil)

lemma request_other_window:
  assumes laws: "pda_find_law rt" "pda_collision_free rt"
    and len: "length P = 32" "length g = 32" "length (ra_pool a) = 32" "length (ra_agent a) = 32"
    and find: "find_program_address rt [ISSUANCE_LEDGER_SEED, P, g] ESCROW = (K, b)"
    and ok: "request_advance rt tx a rid amount nonce w = Inr (w', ev)"
    and other: "ra_pool a \<noteq> P \<or> ra_agent a \<noteq> g"
  shows "window_at w' K = window_at w K"
  using ok
proof (rule request_advance_Inr)
  fix c att l1 l2 fee late D'
  assume acc: "RequestAdvance_accounts rt tx a rid w = Inr c"
    and w': "accounts w' = (accounts w)(
       ra_pool a \<mapsto> PoolAccount (rc_pool c\<lparr>deployed_amount := D'\<rparr>),
       ra_advance a \<mapsto> AdvanceAccount (advance_of tx a c rid amount att fee late),
       ra_consumed a \<mapsto> ConsumedAccount (consumed_of tx a c nonce),
       ra_issuance_ledger a \<mapsto> LedgerAccount l2)"
  note A = RequestAdvance_accounts_Inr [OF acc]
  have "ra_issuance_ledger a \<noteq> K"
    using ledger_address_inj [OF laws find _ len] ledger_if_needed_Inr(1) [OF A(10)] other by blast
  then show ?thesis
    using A(4,6,8) by (intro window_at_cong) (auto simp: w' address_free_def split: if_splits)
qed

lemma settle_window:
  assumes "claim_and_settle rt tx a payment w = Inr (w', ev)"
  shows "window_at w' K = window_at w K"
  using assms
proof (rule claim_and_settle_Inr)
  fix adv c l pool m x L' D' A' F'
  assume acc: "ClaimAndSettle_accounts rt tx a w = Inr (adv, c, l, pool, m)"
    and w': "accounts w' = settled_accounts a (l\<lparr>live_principal := L'\<rparr>)
       (pool\<lparr>deployed_amount := D', total_assets := A', accrued_protocol_fees := F'\<rparr>) (accounts w)"
  note A = ClaimAndSettle_accounts_Inr [OF acc]
  show ?thesis
    using A(3,5,6) by (intro window_at_cong) (auto simp: w' settled_accounts_def result split: if_splits)
qed

lemma liquidate_window:
  assumes "liquidate rt tx a w = Inr (w', ev)"
  shows "window_at w' K = window_at w K"
  using assms
proof (rule liquidate_Inr)
  fix adv l b pool L' D' A'
  assume acc: "Liquidate_accounts rt tx a w = Inr (adv, l, b, pool)"
    and w': "accounts w' = ((accounts w)(
       lq_issuance_ledger a \<mapsto> LedgerAccount (l\<lparr>live_principal := L'\<rparr>),
       lq_pool a \<mapsto> PoolAccount (pool\<lparr>deployed_amount := D', total_assets := A'\<rparr>),
       lq_tombstone a \<mapsto> TombstoneAccount (tombstone_of tx adv b)))(lq_advance a := None)"
  note A = Liquidate_accounts_Inr [OF acc]
  show ?thesis
    using A(1,3,4,6) by (intro window_at_cong) (auto simp: w' address_free_def result split: if_splits)
qed

text \<open>A write to a pool account, or to an address that was free, touches no ledger.\<close>

lemma pool_write_window:
  assumes "accounts w Q = None \<or> (\<exists>q. accounts w Q = Some (PoolAccount q))"
    and "accounts w' = (accounts w)(Q \<mapsto> PoolAccount q')"
  shows "window_at w' K = window_at w K"
  using assms by (intro window_at_cong) (auto split: if_splits)

lemma escrow_other_window:
  assumes ok: "process_escrow rt tx ix w = Inr (w', ev)" and no: "\<And>a rid x nonce. ix \<noteq> Ix_request_advance a rid x nonce"
  shows "window_at w' K = window_at w K"
proof (cases ix)
  case (Ix_init_pool a params)
  with ok show ?thesis
    by (auto elim!: init_pool_Inr simp: address_free_def window_at_def)
next
  case (Ix_deposit a amount)
  with ok show ?thesis
    by (auto elim!: deposit_Inr dest!: Deposit_accounts_Inr(2) intro: pool_write_window)
next
  case (Ix_withdraw a shares)
  with ok show ?thesis
    by (auto elim!: withdraw_Inr dest!: Deposit_accounts_Inr(2) intro: pool_write_window)
next
  case (Ix_request_advance a rid x nonce)
  then show ?thesis using no by simp
next
  case (Ix_propose_params a params)
  with ok show ?thesis by (auto elim!: propose_params_Inr intro!: pool_write_window [of w "pr_pool a"])
next
  case (Ix_execute_params a)
  with ok show ?thesis by (auto elim!: execute_params_Inr intro!: pool_write_window [of w "ex_pool a"])
next
  case (Ix_skim_protocol_fees a amount)
  with ok show ?thesis
    by (auto elim!: skim_protocol_fees_Inr dest!: SkimProtocolFees_accounts_Inr(1) intro: pool_write_window)
qed (use ok in \<open>auto intro: settle_window liquidate_window\<close>)

lemma registry_window:
  assumes "process_registry rt tx ix w = Inr (w', ev)"
  shows "window_at w' K = window_at w K"
  using assms
  by (intro window_at_cong; cases ix)
     (auto elim!: init_registry_Inr add_allowed_signer_Inr remove_allowed_signer_Inr set_governance_Inr
        simp: result address_free_def split: if_splits)

section \<open>Histories\<close>

lemma performs_window:
  assumes wf: "well_formed rt w" and act: "performs rt w l w'"
    and len: "length P = 32" "length g = 32"
    and find: "find_program_address rt [ISSUANCE_LEDGER_SEED, P, g] ESCROW = (K, b)" and b: "b \<noteq> 0"
    and cap: "\<And>p. accounts w P = Some (PoolAccount p) \<Longrightarrow> 0 < agent_window_cap p \<and> unat (agent_window_cap p) \<le> C"
    and ok: "window_ok C (draws P g h) (window_at w K)"
    and clock: "sorted (map fst (draws P g (h @ [(w, l, w')])))"
  shows "window_ok C (draws P g (h @ [(w, l, w')])) (window_at w' K)"
proof -
  have laws: "pda_find_law rt" "pda_collision_free rt" and wf': "accounts_wf rt w"
    using wf by (simp_all add: well_formed_def environment_def)
  show ?thesis
  proof (cases l)
    case (EscrowCall tx ix ev)
    with act have ok': "process_escrow rt tx ix w = Inr (w', ev)" and typed: "escrow_ix_typed ix" by simp_all
    show ?thesis
    proof (cases "\<exists>a rid x nonce. ix = Ix_request_advance a rid x nonce")
      case False
      then have "window_at w' K = window_at w K" using escrow_other_window [OF ok'] by blast
      moreover have "draws P g [(w, l, w')] = []"
        using False ok' unfolding EscrowCall by (cases ev) (auto dest!: issued_by_request)
      ultimately show ?thesis using ok by simp
    next
      case True
      then obtain a rid x nonce where ix: "ix = Ix_request_advance a rid x nonce" by blast
      with ok' have r: "request_advance rt tx a rid x nonce w = Inr (w', ev)" by simp
      then obtain k fee e s where ev: "ev = AdvanceIssued (ra_pool a) (ra_agent a) k x fee e s"
        by (auto elim!: request_advance_Inr)
      show ?thesis
      proof (cases "ra_pool a = P \<and> ra_agent a = g")
        case False
        then have "window_at w' K = window_at w K"
          using request_other_window [OF laws len _ _ find r] typed by (simp add: ix)
        then show ?thesis using False ok by (auto simp: EscrowCall ev)
      next
        case True
        obtain p where p: "accounts w P = Some (PoolAccount p)"
          using r True by (auto elim!: request_advance_Inr dest: RequestAdvance_accounts_Inr(4))
        have r': "request_advance rt tx a rid x nonce w = Inr (w', AdvanceIssued P g k x fee e s)"
          using r True by (simp add: ev)
        note Q = request_charges_window [OF laws wf' len find b r' p]
        have d: "draws P g (h @ [(w, l, w')]) = draws P g h @ [(sint (tx_now tx), unat x)]"
          using True by (simp add: EscrowCall ev)
        have "\<forall>t\<in>fst ` set (draws P g h). t \<le> sint (tx_now tx)"
          using clock unfolding d by (auto simp: sorted_append)
        then show ?thesis
          unfolding d using window_ok_charged [OF ok] Q cap [OF p] True by fastforce
      qed
    qed
  next
    case (RegistryCall tx ix ev)
    with act have "window_at w' K = window_at w K" by (auto intro: registry_window)
    then show ?thesis using ok by (simp add: RegistryCall)
  next
    case TokenActivity
    with act have "accounts w' = accounts w" by (metis performs.simps(3) world.simps(1) world.select_convs(1) world.update_convs(2) world.surjective)
    then show ?thesis using ok by (simp add: TokenActivity window_at_def)
  qed
qed

lemma history_window:
  assumes "history (performs rt) w0 h w" and "environment rt" and "initial w0"
    and "length P = 32" "length g = 32"
    and "find_program_address rt [ISSUANCE_LEDGER_SEED, P, g] ESCROW = (K, b)" and "b \<noteq> 0"
    and "\<forall>(v, l, u)\<in>set h. \<forall>p. accounts v P = Some (PoolAccount p) \<longrightarrow>
           0 < agent_window_cap p \<and> unat (agent_window_cap p) \<le> C"
    and "sorted (map fst (draws P g h))"
  shows "window_ok C (draws P g h) (window_at w K)"
  using assms
proof (induction rule: history.induct)
  case (history_nil w0)
  then show ?case by (simp add: window_at_def initial_def)
next
  case (history_snoc w0 h w l w')
  have "well_formed rt w"
    using books.history_inv [OF history_snoc.hyps(1)] initial_well_formed history_snoc.prems(1,2) by blast
  moreover have "window_ok C (draws P g h) (window_at w K)"
    using history_snoc.IH history_snoc.prems by (auto simp: sorted_append)
  moreover have "0 < agent_window_cap p \<and> unat (agent_window_cap p) \<le> C"
    if "accounts w P = Some (PoolAccount p)" for p
    using history_snoc.prems(7) that by auto
  ultimately show ?case
    by (intro performs_window [OF _ history_snoc.hyps(2) history_snoc.prems(3-6) _ _ history_snoc.prems(8)])
qed

end
