(* ===== verification/Pricing_Tests.thy ===== *)
theory Pricing_Tests
  imports Pricing
begin

text \<open>
  The unit tests of \<^verbatim>\<open>pricing.rs\<close>, run on the model.  A test is a truth value: false when one of
  its \<open>unwrap\<close>s would panic or one of its assertions fails.  They validate the translation of the
  arithmetic against the expectations its authors wrote down.
\<close>

definition test_curve :: FeeCurve where
  "test_curve = \<lparr>utilization_kink_bps = 8000, base_rate_bps = 200, kink_rate_bps = 800,
     max_rate_bps = 5000, duration_per_day_bps = 50, risk_premium_bps = 100,
     pool_loss_surcharge_bps = 0\<rparr>"

text \<open>\<open>let x = r.unwrap(); ...\<close>\<close>

definition unwrap_then :: "'e + 'a \<Rightarrow> ('a \<Rightarrow> bool) \<Rightarrow> bool" where
  "unwrap_then r test \<longleftrightarrow> (case r of Inl _ \<Rightarrow> False | Inr x \<Rightarrow> test x)"

lemma unwrap_then_Inr [simp]: "unwrap_then (Inr x) test = test x"
  by (simp add: unwrap_then_def)

section \<open>Fees\<close>

definition fee_zero_principal_is_zero :: bool where
  "fee_zero_principal_is_zero \<longleftrightarrow>
     unwrap_then (compute_fee_amount 0 86400 5000 0 test_curve) (\<lambda>f. f = 0)"

definition fee_capped_by_max_rate_bps :: bool where
  "fee_capped_by_max_rate_bps \<longleftrightarrow>
     unwrap_then (compute_fee_amount 1000000000 (86400 * 365) 10000 99 test_curve) (\<lambda>f.
       as_u128 f \<le> as_u128 (1000000000 :: u64) * as_u128 (max_rate_bps test_curve) div as_u128 BPS_DENOMINATOR)"

definition fee_monotonic_in_principal :: bool where
  "fee_monotonic_in_principal \<longleftrightarrow>
     unwrap_then (compute_fee_amount 10000000 86400 5000 0 test_curve) (\<lambda>a.
     unwrap_then (compute_fee_amount 20000000 86400 5000 0 test_curve) (\<lambda>b.
     unwrap_then (compute_fee_amount 50000000 86400 5000 0 test_curve) (\<lambda>cv. a \<le> b \<and> b \<le> cv)))"

definition fee_monotonic_in_duration :: bool where
  "fee_monotonic_in_duration \<longleftrightarrow>
     unwrap_then (compute_fee_amount 100000000 86400 5000 0 test_curve) (\<lambda>one_day.
     unwrap_then (compute_fee_amount 100000000 (7 * 86400) 5000 0 test_curve) (\<lambda>seven_day.
     unwrap_then (compute_fee_amount 100000000 (30 * 86400) 5000 0 test_curve) (\<lambda>thirty_day.
       one_day \<le> seven_day \<and> seven_day \<le> thirty_day)))"

definition fee_monotonic_in_utilization_above_kink :: bool where
  "fee_monotonic_in_utilization_above_kink \<longleftrightarrow>
     unwrap_then (compute_fee_amount 100000000 86400 (as_u64 (utilization_kink_bps test_curve)) 0 test_curve) (\<lambda>at_kink.
     unwrap_then (compute_fee_amount 100000000 86400 9500 0 test_curve) (\<lambda>above.
     unwrap_then (compute_fee_amount 100000000 86400 10000 0 test_curve) (\<lambda>max_util.
       at_kink \<le> above \<and> above \<le> max_util)))"

definition fee_risk_premium_clamps_at_five_defaults :: bool where
  "fee_risk_premium_clamps_at_five_defaults \<longleftrightarrow>
     unwrap_then (compute_fee_amount 100000000 86400 5000 5 test_curve) (\<lambda>five.
     unwrap_then (compute_fee_amount 100000000 86400 5000 20 test_curve) (\<lambda>twenty. five = twenty))"

section \<open>Late penalty\<close>

definition late_penalty_zero_principal_zero :: bool where
  "late_penalty_zero_principal_zero \<longleftrightarrow>
     unwrap_then (compute_late_penalty_per_day 0 test_curve) (\<lambda>x. x = 0)"

definition late_penalty_baseline_is_ten_bps :: bool where
  "late_penalty_baseline_is_ten_bps \<longleftrightarrow>
     unwrap_then (compute_late_penalty_per_day 1000000000 test_curve) (\<lambda>pen. pen = 1000000000 * 10 div 10000)"

definition late_penalty_surcharge_increases :: bool where
  "late_penalty_surcharge_increases \<longleftrightarrow>
     unwrap_then (compute_late_penalty_per_day 100000000 test_curve) (\<lambda>no_surcharge.
     unwrap_then (compute_late_penalty_per_day 100000000 (test_curve\<lparr>pool_loss_surcharge_bps := 5000\<rparr>)) (\<lambda>with_surcharge.
       no_surcharge < with_surcharge \<and> with_surcharge = no_surcharge * 3 div 2))"

section \<open>Shares\<close>

definition first_depositor_inflation_attack_is_costly :: bool where
  "first_depositor_inflation_attack_is_costly \<longleftrightarrow>
     unwrap_then (preview_deposit 1 0 0) (\<lambda>attacker_shares.
     unwrap_then (preview_redeem attacker_shares 1000000000000 attacker_shares) (\<lambda>attacker_redeem.
       attacker_redeem < 1000000000000 div 100))"

definition share_price_monotonic_under_yield_addition :: bool where
  "share_price_monotonic_under_yield_addition \<longleftrightarrow>
     unwrap_then (preview_deposit 100000000 0 0) (\<lambda>s1.
     unwrap_then (preview_deposit 100000000 (100000000 + 50000000) s1) (\<lambda>s2. s2 < s1))"

definition redeem_round_trips_with_no_yield :: bool where
  "redeem_round_trips_with_no_yield \<longleftrightarrow>
     unwrap_then (preview_deposit 1000000000 0 0) (\<lambda>shares.
     unwrap_then (preview_redeem shares 1000000000 shares) (\<lambda>redeemed.
       saturating_sub 1000000000 redeemed \<le> 1000000000 div 1000000))"

section \<open>Utilization\<close>

definition pool_with :: "u64 \<Rightarrow> u64 \<Rightarrow> Pool" where
  "pool_with assets deployed = \<lparr> pool_bump = 0, pool_asset_mint = default_pubkey,
     pool_usdc_vault = default_pubkey, pool_share_mint = default_pubkey,
     pool_treasury_ata = default_pubkey, pool_governance = default_pubkey,
     total_assets = assets, total_shares = 0, deployed_amount = deployed, accrued_protocol_fees = 0,
     fee_curve = test_curve, max_advance_pct_bps = 3000, max_advance_abs = 100000000,
     agent_window_cap = 0, timelock_seconds = 86400, pool_chain_id = 2, pending_params = None \<rparr>"

definition utilization_zero_assets_is_max :: bool where
  "utilization_zero_assets_is_max \<longleftrightarrow>
     unwrap_then (compute_utilization_bps (pool_with 0 0)) (\<lambda>u. u = BPS_DENOMINATOR)"

definition utilization_half_deployed_is_5000_bps :: bool where
  "utilization_half_deployed_is_5000_bps \<longleftrightarrow>
     unwrap_then (compute_utilization_bps (pool_with 1000000000 500000000)) (\<lambda>u. u = 5000)"

definition utilization_fully_deployed_is_max :: bool where
  "utilization_fully_deployed_is_max \<longleftrightarrow>
     unwrap_then (compute_utilization_bps (pool_with 1000000000 1000000000)) (\<lambda>u. u = BPS_DENOMINATOR)"

section \<open>All tests pass\<close>

lemmas fee_eval = compute_fee_amount_def utilization_rate_bps_def compute_late_penalty_per_day_def
  compute_utilization_bps_def test_curve_def pool_with_def Let_def checked_add_def checked_sub_def
  checked_mul_def checked_div_def u64_try_from_def as_u128_def as_u64_def saturating_mul_def saturating_sub_def
  min_def

lemma fee_tests_pass:
  "fee_zero_principal_is_zero" "fee_capped_by_max_rate_bps" "fee_monotonic_in_principal"
  "fee_monotonic_in_duration" "fee_monotonic_in_utilization_above_kink" "fee_risk_premium_clamps_at_five_defaults"
  by (simp_all add: fee_zero_principal_is_zero_def fee_capped_by_max_rate_bps_def fee_monotonic_in_principal_def
      fee_monotonic_in_duration_def fee_monotonic_in_utilization_above_kink_def
      fee_risk_premium_clamps_at_five_defaults_def fee_eval)

lemma late_penalty_tests_pass:
  "late_penalty_zero_principal_zero" "late_penalty_baseline_is_ten_bps" "late_penalty_surcharge_increases"
  by (simp_all add: late_penalty_zero_principal_zero_def late_penalty_baseline_is_ten_bps_def
      late_penalty_surcharge_increases_def fee_eval)

lemma share_tests_pass:
  "first_depositor_inflation_attack_is_costly" "share_price_monotonic_under_yield_addition"
  "redeem_round_trips_with_no_yield"
  by (simp_all add: first_depositor_inflation_attack_is_costly_def share_price_monotonic_under_yield_addition_def
      redeem_round_trips_with_no_yield_def preview_deposit_eq preview_redeem_eq shares_for_def assets_for_def
      saturating_sub_def)

lemma utilization_tests_pass:
  "utilization_zero_assets_is_max" "utilization_half_deployed_is_5000_bps" "utilization_fully_deployed_is_max"
  by (simp_all add: utilization_zero_assets_is_max_def utilization_half_deployed_is_5000_bps_def
      utilization_fully_deployed_is_max_def fee_eval)

end
