(* ===== verification/Bridge_Service.thy ===== *)
theory Bridge_Service
  imports Complex_Main Attestation
begin

text \<open>
  The bridge's quote service: \<^verbatim>\<open>ts/bridge/src/index.ts\<close> (configuration and \<^verbatim>\<open>handleQuote\<close>) and
  \<^verbatim>\<open>ts/bridge/src/evm.ts\<close>.  A thrown error is a value of \<open>bridge_error\<close>.

  Outside the repository, and therefore fields of \<open>bridge_env\<close>: the address decoder of
  \<^verbatim>\<open>@solana/kit\<close>, the reads of the EVM contracts (\<open>None\<close> when the call is rejected) and the ed25519
  signature.  A JSON number is a rational; a \<^verbatim>\<open>bigint\<close> is an integer.
\<close>

section \<open>Configuration\<close>

definition hex_value :: "char \<Rightarrow> nat option" where
  "hex_value c =
     (let n = of_char c :: nat in
      if 48 \<le> n \<and> n \<le> 57 then Some (n - 48)
      else if 97 \<le> n \<and> n \<le> 102 then Some (n - 87)
      else if 65 \<le> n \<and> n \<le> 70 then Some (n - 55)
      else None)"

definition is_hex :: "char \<Rightarrow> bool" where
  "is_hex c \<longleftrightarrow> hex_value c \<noteq> None"

text \<open>The pattern \<^verbatim>\<open>/^0x[0-9a-fA-F]{40}$/\<close>.\<close>

definition evm_address :: "string \<Rightarrow> bool" where
  "evm_address s \<longleftrightarrow> length s = 42 \<and> take 2 s = ''0x'' \<and> list_all is_hex (drop 2 s)"

definition toLowerCase :: "string \<Rightarrow> string" where
  "toLowerCase s = map (\<lambda>c. let n = of_char c :: nat in if 65 \<le> n \<and> n \<le> 90 then char_of (n + 32) else c) s"

datatype bridge_error =
    BadBinding | NoBindings | BadChainId | BadSigningKey
  | TtlNotPositive | BadAddress | BadNonceLength | NonceUnreadable | NotRegistered
  | EvmReadFailed | ZeroCreditLimit | TtlNotInteger | AttestationRejected

fun bind_agents :: "(string \<times> string) list \<Rightarrow> (string \<rightharpoonup> string) \<Rightarrow> bridge_error + (string \<rightharpoonup> string)" where
  "bind_agents [] m = Inr m"
| "bind_agents ((solana, evm) # es) m =
     (if evm_address evm then bind_agents es (m(solana \<mapsto> toLowerCase evm)) else Inl BadBinding)"

definition loadAgentBindings :: "(string \<times> string) list \<Rightarrow> bridge_error + (string \<rightharpoonup> string)" where
  "loadAgentBindings entries =
     and_then (bind_agents entries Map.empty) (\<lambda>m.
     if entries = [] then Inl NoBindings else Inr m)"

definition loadSigningKey :: "bytes \<Rightarrow> bridge_error + bytes" where
  "loadSigningKey bs = (if length bs \<noteq> 64 then Inl BadSigningKey else Inr bs)"

record bridge_config =
  agentBindings :: "string \<rightharpoonup> string"
  signingKey :: bytes
  solanaChainId :: int

text \<open>
  \<open>loadConfig\<close> from the check of the chain id on: the list of required variables, the parse of the
  chain id and the files are read before.
\<close>

definition loadConfig :: "(string \<times> string) list \<Rightarrow> bytes \<Rightarrow> int \<Rightarrow> bridge_error + bridge_config" where
  "loadConfig entries key chain_id =
     (if chain_id \<noteq> 1 \<and> chain_id \<noteq> 2 then Inl BadChainId
      else and_then (loadSigningKey key) (\<lambda>signing_key.
           and_then (loadAgentBindings entries) (\<lambda>bindings.
           Inr \<lparr> agentBindings = bindings, signingKey = signing_key, solanaChainId = chain_id \<rparr>)))"

section \<open>Reads of the EVM side\<close>

record bridge_env =
  address_bytes :: "string \<Rightarrow> bytes option"
  evm_exposure :: "string \<Rightarrow> int option"
  evm_getCredit :: "string \<Rightarrow> (int \<times> int \<times> int) option"
  evm_maxExposure :: "string \<Rightarrow> int option"
  ed25519_sign :: "bytes \<Rightarrow> bytes \<Rightarrow> bytes"

record EvmAgentSnapshot =
  snap_limit :: int
  snap_outstanding :: int

definition fetchAgent :: "bridge_env \<Rightarrow> string \<Rightarrow> EvmAgentSnapshot option" where
  "fetchAgent env agent =
     Option.bind (evm_exposure env agent) (\<lambda>current.
     case evm_getCredit env agent of
       Some (score, total_exposure, max_exposure) \<Rightarrow> Some \<lparr> snap_limit = max_exposure, snap_outstanding = current \<rparr>
     | None \<Rightarrow> Option.bind (evm_maxExposure env agent) (\<lambda>max_exposure.
         Some \<lparr> snap_limit = max_exposure, snap_outstanding = current \<rparr>))"

section \<open>The nonce\<close>

text \<open>\<^verbatim>\<open>/.{1,2}/g\<close>: pieces of two characters, one before a line end; line ends are skipped.\<close>

definition line_end :: "char \<Rightarrow> bool" where
  "line_end c \<longleftrightarrow> (of_char c :: nat) \<in> {10, 13}"

fun hex_pieces :: "string \<Rightarrow> string list" where
  "hex_pieces [] = []"
| "hex_pieces [c] = (if line_end c then [] else [[c]])"
| "hex_pieces (c # d # cs) =
     (if line_end c then hex_pieces (d # cs)
      else if line_end d then [c] # hex_pieces cs
      else [c, d] # hex_pieces cs)"

text \<open>
  \<^verbatim>\<open>parseInt(s, 16)\<close>: white space, a sign and a prefix are passed over; the longest run of
  digits counts; no digit is \<^verbatim>\<open>NaN\<close>, here \<open>None\<close>.
\<close>

definition js_space :: "char \<Rightarrow> bool" where
  "js_space c \<longleftrightarrow> (of_char c :: nat) \<in> {9, 10, 11, 12, 13, 32, 160}"

fun sign_split :: "string \<Rightarrow> int \<times> string" where
  "sign_split (c # cs) = (if c = CHR ''-'' then (- 1, cs) else if c = CHR ''+'' then (1, cs) else (1, c # cs))"
| "sign_split [] = (1, [])"

definition parseInt16 :: "string \<Rightarrow> int option" where
  "parseInt16 s =
     (let (sgn, s1) = sign_split (dropWhile js_space s);
          s2 = (if take 2 s1 \<in> {''0x'', ''0X''} then drop 2 s1 else s1);
          ds = takeWhile is_hex s2 in
      if ds = [] then None
      else Some (sgn * foldl (\<lambda>n c. 16 * n + int (the (hex_value c))) 0 ds))"

text \<open>Storing into a \<^verbatim>\<open>Uint8Array\<close>: \<^verbatim>\<open>NaN\<close> is 0, other numbers are taken modulo 256.\<close>

definition to_uint8 :: "int option \<Rightarrow> u8" where
  "to_uint8 x = (case x of None \<Rightarrow> 0 | Some n \<Rightarrow> word_of_int n)"

definition parse_nonce :: "string \<Rightarrow> bridge_error + bytes" where
  "parse_nonce nonce_hex =
     (if length nonce_hex \<noteq> 32 \<and> length nonce_hex \<noteq> 34 then Inl BadNonceLength
      else let hex = (if take 2 nonce_hex = ''0x'' then drop 2 nonce_hex else nonce_hex);
               pieces = hex_pieces hex in
           if pieces = [] then Inl NonceUnreadable
           else Inr (map (\<lambda>p. to_uint8 (parseInt16 p)) pieces))"

section \<open>\<open>handleQuote\<close>\<close>

record QuoteRequest =
  agent_pubkey_b58 :: string
  pool_pubkey_b58 :: string
  nonce_hex :: string
  ttl_seconds :: "rat option"

text \<open>The reply before its byte strings are printed in base 64 and base 58.\<close>

record QuoteResponse =
  q_message :: bytes
  q_signature :: bytes
  q_signer :: bytes
  q_expires_at :: int
  q_attested_at :: int
  q_credit_limit :: int
  q_outstanding :: int

text \<open>\<^verbatim>\<open>BigInt(x)\<close> throws on a fraction.\<close>

definition BigInt :: "rat \<Rightarrow> int option" where
  "BigInt x = (let (n, d) = quotient_of x in if d = 1 then Some n else None)"

definition signAttestation :: "bridge_env \<Rightarrow> bytes \<Rightarrow> bytes \<Rightarrow> bytes option" where
  "signAttestation env msg key = (if length key \<noteq> 64 then None else Some (ed25519_sign env msg key))"

definition ttl_of :: "QuoteRequest \<Rightarrow> rat" where
  "ttl_of body = min (case ttl_seconds body of None \<Rightarrow> 600 | Some t \<Rightarrow> t) (15 * 60)"

definition handleQuote ::
  "bridge_env \<Rightarrow> bridge_config \<Rightarrow> int \<Rightarrow> QuoteRequest \<Rightarrow> bridge_error + QuoteResponse" where
  "handleQuote env cfg now body =
     (let ttl = ttl_of body in
      and_then (require (0 < ttl) TtlNotPositive) (\<lambda>_.
      and_then (ok_or (address_bytes env (agent_pubkey_b58 body)) BadAddress) (\<lambda>agent_bytes.
      and_then (ok_or (address_bytes env (pool_pubkey_b58 body)) BadAddress) (\<lambda>pool_bytes.
      and_then (parse_nonce (nonce_hex body)) (\<lambda>nonce.
      and_then (ok_or (agentBindings cfg (agent_pubkey_b58 body)) NotRegistered) (\<lambda>evmAddress.
      and_then (ok_or (fetchAgent env evmAddress) EvmReadFailed) (\<lambda>snap.
      and_then (require (snap_limit snap \<noteq> 0) ZeroCreditLimit) (\<lambda>_.
      and_then (ok_or (BigInt ttl) TtlNotInteger) (\<lambda>ttl_int.
      let expires_at = now + ttl_int in
      and_then (ok_or (encodeAttestation \<lparr> agentPubkey = agent_bytes, poolPubkey = pool_bytes,
          creditLimitAtoms = snap_limit snap, outstandingAtoms = snap_outstanding snap, expiresAt = expires_at,
          attestedAt = now, in_nonce = nonce, chainId = solanaChainId cfg \<rparr>) AttestationRejected) (\<lambda>message.
      and_then (ok_or (signAttestation env message (signingKey cfg)) AttestationRejected) (\<lambda>signature.
      Inr \<lparr> q_message = message, q_signature = signature, q_signer = drop 32 (signingKey cfg),
            q_expires_at = expires_at, q_attested_at = now, q_credit_limit = snap_limit snap,
            q_outstanding = snap_outstanding snap \<rparr>)))))))))))"

section \<open>What a quote holds\<close>

lemma BigInt_Some: "BigInt x = Some n \<Longrightarrow> x = rat_of_int n"
  by (cases "quotient_of x") (auto simp: BigInt_def dest: quotient_of_div split: if_splits)

lemma handleQuote_Inr:
  assumes "handleQuote env cfg now body = Inr r"
  obtains agent_bytes pool_bytes nonce evm snap ttl where
    "address_bytes env (agent_pubkey_b58 body) = Some agent_bytes"
    "address_bytes env (pool_pubkey_b58 body) = Some pool_bytes"
    "parse_nonce (nonce_hex body) = Inr nonce"
    "agentBindings cfg (agent_pubkey_b58 body) = Some evm" "fetchAgent env evm = Some snap" "snap_limit snap \<noteq> 0"
    "0 < ttl" "ttl \<le> 900"
    "encodeAttestation \<lparr> agentPubkey = agent_bytes, poolPubkey = pool_bytes, creditLimitAtoms = snap_limit snap,
       outstandingAtoms = snap_outstanding snap, expiresAt = now + ttl, attestedAt = now, in_nonce = nonce,
       chainId = solanaChainId cfg \<rparr> = Some (q_message r)"
    "length (signingKey cfg) = 64" "q_signature r = ed25519_sign env (q_message r) (signingKey cfg)"
    "r = \<lparr> q_message = q_message r, q_signature = q_signature r, q_signer = drop 32 (signingKey cfg),
       q_expires_at = now + ttl, q_attested_at = now, q_credit_limit = snap_limit snap,
       q_outstanding = snap_outstanding snap \<rparr>"
proof -
  from assms obtain agent_bytes pool_bytes nonce evm snap ttl where
    st: "0 < ttl_of body" "address_bytes env (agent_pubkey_b58 body) = Some agent_bytes"
    "address_bytes env (pool_pubkey_b58 body) = Some pool_bytes"
    "parse_nonce (nonce_hex body) = Inr nonce"
    "agentBindings cfg (agent_pubkey_b58 body) = Some evm" "fetchAgent env evm = Some snap" "snap_limit snap \<noteq> 0"
    "BigInt (ttl_of body) = Some ttl"
    "encodeAttestation \<lparr> agentPubkey = agent_bytes, poolPubkey = pool_bytes, creditLimitAtoms = snap_limit snap,
       outstandingAtoms = snap_outstanding snap, expiresAt = now + ttl, attestedAt = now, in_nonce = nonce,
       chainId = solanaChainId cfg \<rparr> = Some (q_message r)"
    "signAttestation env (q_message r) (signingKey cfg) = Some (q_signature r)"
    "r = \<lparr> q_message = q_message r, q_signature = q_signature r, q_signer = drop 32 (signingKey cfg),
       q_expires_at = now + ttl, q_attested_at = now, q_credit_limit = snap_limit snap,
       q_outstanding = snap_outstanding snap \<rparr>"
    by (auto simp: handleQuote_def Let_def result)
  have "rat_of_int ttl = ttl_of body" using BigInt_Some [OF st(8)] by simp
  moreover have "ttl_of body \<le> 900" by (simp add: ttl_of_def)
  ultimately have "0 < ttl" "ttl \<le> 900" using st(1) by (metis of_int_0_less_iff, metis of_int_le_numeral_iff)
  then show ?thesis
    using st(2-7,9-) by (intro that) (auto simp: signAttestation_def split: if_splits)
qed

section \<open>The program accepts what the bridge encodes\<close>

text \<open>
  For a fresh, unexpired attestation signed by an allowed bridge signer, the check succeeds for
  the agent, pool, chain and nonce the bridge put in, and yields the limit, outstanding amount and
  times it put in.
\<close>

lemma encoded_attestation_accepted:
  assumes "encodeAttestation inp = Some msg"
    and "verify_prev_ed25519 sv = Inr (as_signer s, msg)" and "as_kind s = AttestorKind_as_u8 CreditBridge"
    and "attestedAt inp \<le> sint now" and "sint now \<le> attestedAt inp + 900" and "sint now < expiresAt inp"
  shows "\<exists>att. verify_attestation sv now s (agentPubkey inp) (poolPubkey inp) (word_of_int (chainId inp))
                (in_nonce inp) = Inr att
     \<and> att_signer att = as_signer s
     \<and> uint (att_credit_limit att) = creditLimitAtoms inp \<and> uint (att_outstanding att) = outstandingAtoms inp
     \<and> sint (att_expires_at att) = expiresAt inp \<and> sint (att_attested_at att) = attestedAt inp"
proof -
  note E = encodeAttestation_Some [OF assms(1)]
  have sl: "slice msg off n = Some (take n (drop off msg))" if "off + n \<le> 128" for off n
    using that E(1) by (simp add: slice_def)
  have fresh: "fresh_enough now (from_le_bytes (take 8 (drop 88 msg))) = Inr True"
    using assms(4,5) E(7) by (simp add: fresh_enough_True)
  have "verify_attestation sv now s (agentPubkey inp) (poolPubkey inp) (word_of_int (chainId inp)) (in_nonce inp)
    = Inr \<lparr> att_signer = as_signer s, att_credit_limit = from_le_bytes (take 8 (drop 64 msg)),
        att_outstanding = from_le_bytes (take 8 (drop 72 msg)),
        att_expires_at = from_le_bytes (take 8 (drop 80 msg)),
        att_attested_at = from_le_bytes (take 8 (drop 88 msg)) \<rparr>"
    using assms(2,3,6) E(1-3,6,8-10) fresh
    by (simp add: verify_attestation_def pubkey_at_def u64_le_def i64_le_def sl)
  moreover have "uint (from_le_bytes (take 8 (drop 64 msg)) :: u64) = creditLimitAtoms inp"
    "uint (from_le_bytes (take 8 (drop 72 msg)) :: u64) = outstandingAtoms inp"
    using encodeAttestation_range [OF assms(1)] E(4,5) by (simp_all add: uint_word_of_int_eq take_bit_int_eq_self)
  ultimately show ?thesis using E(6,7) by simp
qed

section \<open>Bindings and nonces\<close>

lemma bind_agents_Inr:
  assumes "bind_agents es m = Inr m'" and "\<forall>s e. m s = Some e \<longrightarrow> Q e"
    and "\<forall>e. evm_address e \<longrightarrow> Q (toLowerCase e)"
  shows "\<forall>s e. m' s = Some e \<longrightarrow> Q e"
  using assms
proof (induction es m rule: bind_agents.induct)
  case (2 solana evm es m)
  then have ok: "evm_address evm" "bind_agents es (m(solana \<mapsto> toLowerCase evm)) = Inr m'" by (auto split: if_splits)
  then have "\<forall>s e. (m(solana \<mapsto> toLowerCase evm)) s = Some e \<longrightarrow> Q e" using "2.prems" by auto
  with "2.IH" [OF ok] "2.prems"(3) show ?case by blast
qed simp

text \<open>Only well-formed EVM addresses, in lower case, are ever looked up.\<close>

lemma loaded_bindings:
  assumes "loadConfig entries key ch = Inr cfg" and "agentBindings cfg s = Some e"
  shows "\<exists>e0. evm_address e0 \<and> e = toLowerCase e0" and "length (signingKey cfg) = 64"
    and "solanaChainId cfg \<in> {1, 2}"
proof -
  from assms(1) have "bind_agents entries Map.empty = Inr (agentBindings cfg)"
    and rest: "length (signingKey cfg) = 64" "solanaChainId cfg \<in> {1, 2}"
    by (auto simp: loadConfig_def loadSigningKey_def loadAgentBindings_def result split: if_splits)
  from bind_agents_Inr [OF this(1), of "\<lambda>e. \<exists>e0. evm_address e0 \<and> e = toLowerCase e0"] assms(2)
  show "\<exists>e0. evm_address e0 \<and> e = toLowerCase e0" by auto
  show "length (signingKey cfg) = 64" "solanaChainId cfg \<in> {1, 2}" by (rule rest)+
qed

text \<open>The usual text of a nonce: two lower-case digits for each byte.\<close>

definition hex_char :: "nat \<Rightarrow> char" where
  "hex_char n = ''0123456789abcdef'' ! n"

definition hex_text :: "bytes \<Rightarrow> string" where
  "hex_text bs = concat (map (\<lambda>b. [hex_char (unat b div 16), hex_char (unat b mod 16)]) bs)"

lemma hex_char_all:
  assumes "n < 16"
  shows "hex_value (hex_char n) = Some n" and "\<not> line_end (hex_char n)" and "\<not> js_space (hex_char n)"
    and "hex_char n \<notin> {CHR ''-'', CHR ''+'', CHR ''x'', CHR ''X''}"
proof -
  have "list_all (\<lambda>n. hex_value (hex_char n) = Some n \<and> \<not> line_end (hex_char n) \<and> \<not> js_space (hex_char n)
      \<and> hex_char n \<notin> {CHR ''-'', CHR ''+'', CHR ''x'', CHR ''X''}) [0..<16]" by code_simp
  then show "hex_value (hex_char n) = Some n" "\<not> line_end (hex_char n)" "\<not> js_space (hex_char n)"
    "hex_char n \<notin> {CHR ''-'', CHR ''+'', CHR ''x'', CHR ''X''}"
    using assms by (auto simp: list_all_iff)
qed

lemma parse_byte: "to_uint8 (parseInt16 [hex_char (unat b div 16), hex_char (unat b mod 16)]) = b"
proof -
  have d: "unat b div 16 < 16" "unat b mod 16 < 16" using unat_u8_less [of b] by auto
  note H = hex_char_all [OF d(1)] hex_char_all [OF d(2)]
  have "int (unat b) = uint b" by simp
  then have v: "16 * int (unat b div 16) + int (unat b mod 16) = uint b"
    using arg_cong [OF mult_div_mod_eq [of 16 "unat b"], of int] by linarith
  have "parseInt16 [hex_char (unat b div 16), hex_char (unat b mod 16)] = Some (uint b)"
    using H v by (auto simp: parseInt16_def is_hex_def Let_def)
  then show ?thesis by (simp add: to_uint8_def)
qed

lemma hex_text_pieces: "hex_pieces (hex_text bs) = map (\<lambda>b. [hex_char (unat b div 16), hex_char (unat b mod 16)]) bs"
proof (induction bs)
  case (Cons b bs)
  have "unat b div 16 < 16" "unat b mod 16 < 16" using unat_u8_less [of b] by auto
  with Cons show ?case by (simp add: hex_text_def hex_char_all)
qed (simp add: hex_text_def)

lemma length_hex_text: "length (hex_text bs) = 2 * length bs"
  by (induction bs) (simp_all add: hex_text_def)

lemma nonce_round_trip:
  assumes "length bs = 16"
  shows "parse_nonce (hex_text bs) = Inr bs" and "parse_nonce (''0x'' @ hex_text bs) = Inr bs"
proof -
  obtain b cs where bs: "bs = b # cs" using assms by (cases bs) auto
  have "unat b mod 16 < 16" by simp
  from hex_char_all(4) [OF this] have "take 2 (hex_text bs) \<noteq> ''0x''"
    by (auto simp: bs hex_text_def numeral_2_eq_2)
  moreover have "hex_pieces (hex_text bs) \<noteq> []" by (simp add: hex_text_pieces bs)
  moreover have "map (\<lambda>p. to_uint8 (parseInt16 p)) (hex_pieces (hex_text bs)) = bs"
    by (simp add: hex_text_pieces parse_byte comp_def)
  ultimately show "parse_nonce (hex_text bs) = Inr bs" "parse_nonce (''0x'' @ hex_text bs) = Inr bs"
    using assms by (simp_all add: parse_nonce_def length_hex_text Let_def)
qed

text \<open>Characters that are no digits do not make a nonce invalid: they are read as zero.\<close>

lemma nonce_of_letters_accepted: "parse_nonce (replicate 32 CHR ''z'') = Inr (replicate 16 0)"
  by code_simp

end
