(* ===== verification/Base58.thy ===== *)
theory Base58
  imports Prelude
begin

text \<open>
  The base-58 printer \<^verbatim>\<open>bytesToBase58\<close>, which \<^verbatim>\<open>ts/bridge/src/index.ts\<close> and
  \<^verbatim>\<open>ts/bridge/src/event_tail.ts\<close> both hold, and the notation it should print.

  The printer keeps the digits of the number read so far, least significant first, and for each
  byte multiplies by 256 and adds.  Its numbers are small (\<open>carry_bounds\<close>): the shift
  \<^verbatim>\<open>digits[j] << 8\<close> and the truncation \<^verbatim>\<open>(carry / 58) | 0\<close> of JavaScript are multiplication
  and division of naturals.
\<close>

section \<open>The printer\<close>

definition ALPHABET :: string where
  "ALPHABET = ''123456789ABCDEFGHJKLMNPQRSTUVWXYZabcdefghijkmnopqrstuvwxyz''"

text \<open>The inner \<^verbatim>\<open>for\<close> loop: one pass over the digits; the rest of the carry is returned.\<close>

fun carry_digits :: "nat \<Rightarrow> nat list \<Rightarrow> nat list \<times> nat" where
  "carry_digits carry [] = ([], carry)"
| "carry_digits carry (d # ds) =
     (let c = carry + d * 256; (ds', carry') = carry_digits (c div 58) ds in (c mod 58 # ds', carry'))"

text \<open>The \<^verbatim>\<open>while (carry > 0)\<close> loop.\<close>

function push_carry :: "nat \<Rightarrow> nat list" where
  "push_carry carry = (if 0 < carry then carry mod 58 # push_carry (carry div 58) else [])"
  by pat_completeness auto
termination by (relation "measure id") auto

declare push_carry.simps [simp del]

definition push_byte :: "nat list \<Rightarrow> u8 \<Rightarrow> nat list" where
  "push_byte digits b = (let (ds, carry) = carry_digits (unat b) digits in ds @ push_carry carry)"

definition leading_zeros :: "bytes \<Rightarrow> nat" where
  "leading_zeros bs = length (takeWhile (\<lambda>b. b = 0) bs)"

definition bytesToBase58 :: "bytes \<Rightarrow> string" where
  "bytesToBase58 bs =
     (let zeros = leading_zeros bs; digits = foldl push_byte [0] (drop zeros bs) in
      replicate zeros CHR ''1'' @ map (\<lambda>d. ALPHABET ! d) (rev digits))"

section \<open>Numbers in a base\<close>

definition be_nat :: "bytes \<Rightarrow> nat" where
  "be_nat bs = foldl (\<lambda>n b. 256 * n + unat b) 0 bs"

fun digits_value :: "nat list \<Rightarrow> nat" where
  "digits_value [] = 0"
| "digits_value (d # ds) = d + 58 * digits_value ds"

text \<open>The digits of a number, least significant first; zero has none.\<close>

function base58_digits :: "nat \<Rightarrow> nat list" where
  "base58_digits 0 = []"
| "base58_digits (Suc n) = Suc n mod 58 # base58_digits (Suc n div 58)"
  by pat_completeness auto
termination by (relation "measure id") auto

text \<open>
  The notation: a digit \<^verbatim>\<open>1\<close> for every leading zero byte, then the number without leading zeros.
\<close>

definition base58_notation :: "bytes \<Rightarrow> string" where
  "base58_notation bs =
     replicate (leading_zeros bs) CHR ''1'' @ map (\<lambda>d. ALPHABET ! d) (rev (base58_digits (be_nat bs)))"

lemma base58_digits_step: "base58_digits n = (if 0 < n then n mod 58 # base58_digits (n div 58) else [])"
  by (cases n) simp_all

lemma push_carry_eq: "push_carry n = base58_digits n"
proof (induction n rule: push_carry.induct)
  case (1 n)
  show ?case
  proof (cases "0 < n")
    case True
    with 1 show ?thesis by (simp add: push_carry.simps [of n] base58_digits_step [of n])
  next
    case False
    then show ?thesis by (simp add: push_carry.simps [of 0])
  qed
qed

lemma base58_digits_value [simp]: "digits_value (base58_digits n) = n"
proof (induction n rule: push_carry.induct)
  case (1 n)
  then show ?case by (cases "0 < n") (simp_all add: base58_digits_step [of n])
qed

lemma base58_digits_less: "d \<in> set (base58_digits n) \<Longrightarrow> d < 58"
proof (induction n rule: push_carry.induct)
  case (1 n)
  then show ?case by (cases "0 < n") (auto simp: base58_digits_step [of n])
qed

text \<open>A list of digits without a leading zero is the digits of its value.\<close>

lemma base58_digits_unique:
  assumes "\<forall>d\<in>set ds. d < 58" and "ds = [] \<or> last ds \<noteq> 0"
  shows "base58_digits (digits_value ds) = ds"
  using assms
proof (induction ds)
  case Nil
  show ?case by simp
next
  case (Cons d ds)
  have IH: "base58_digits (digits_value ds) = ds" using Cons by (cases ds) auto
  have "0 < d + 58 * digits_value ds"
  proof (cases "ds = []")
    case True
    with Cons.prems(2) show ?thesis by simp
  next
    case False
    then have "digits_value ds \<noteq> 0" using IH by (metis base58_digits.simps(1))
    then show ?thesis by simp
  qed
  with Cons.prems(1) IH show ?case by (simp add: base58_digits_step [of "d + 58 * digits_value ds"])
qed

section \<open>The printer computes the digits\<close>

lemma carry_digits_value:
  "carry_digits c ds = (ds', c') \<Longrightarrow>
     length ds' = length ds \<and> digits_value ds' + 58 ^ length ds * c' = c + 256 * digits_value ds"
proof (induction c ds arbitrary: ds' c' rule: carry_digits.induct)
  case (1 c)
  then show ?case by simp
next
  case (2 c d ds)
  let ?x = "c + d * 256"
  obtain es e where es: "carry_digits (?x div 58) ds = (es, e)" by force
  with "2.IH" have "length es = length ds" "digits_value es + 58 ^ length ds * e = ?x div 58 + 256 * digits_value ds"
    by auto
  moreover have "ds' = ?x mod 58 # es" "c' = e" using "2.prems" es by (auto simp: Let_def)
  moreover have "?x mod 58 + 58 * (?x div 58) = ?x" by simp
  ultimately have "digits_value ds' + 58 ^ length (d # ds) * c' = ?x mod 58 + 58 * (?x div 58 + 256 * digits_value ds)"
    by (simp add: distrib_left mult.assoc flip: \<open>digits_value es + 58 ^ length ds * e = ?x div 58 + 256 * digits_value ds\<close>)
  also have "\<dots> = c + 256 * digits_value (d # ds)" using \<open>?x mod 58 + 58 * (?x div 58) = ?x\<close> by (simp add: algebra_simps)
  finally show ?case using \<open>ds' = ?x mod 58 # es\<close> \<open>length es = length ds\<close> by simp
qed

lemma carry_digits_less:
  "carry_digits c ds = (ds', c') \<Longrightarrow> d \<in> set ds' \<Longrightarrow> d < 58"
proof (induction c ds arbitrary: ds' c' rule: carry_digits.induct)
  case (2 c d ds)
  then show ?case by (auto simp: Let_def split: prod.splits)
qed simp

text \<open>The intermediate numbers are far below the 32-bit range of the shift and the truncation.\<close>

lemma carry_bounds:
  assumes "(c :: nat) < 256" and "d < 58"
  shows "c + d * 256 < 2 ^ 31" and "(c + d * 256) div 58 < 256"
  using assms by auto

lemma digits_value_append: "digits_value (xs @ ys) = digits_value xs + 58 ^ length xs * digits_value ys"
  by (induction xs) (simp_all add: algebra_simps)

lemma push_byte_value: "digits_value (push_byte ds b) = 256 * digits_value ds + unat b"
  by (auto simp: push_byte_def push_carry_eq digits_value_append dest: carry_digits_value split: prod.splits)

lemma push_byte_less: "d \<in> set (push_byte ds b) \<Longrightarrow> d < 58"
  using carry_digits_less [of "unat b" ds] base58_digits_less
  by (cases "carry_digits (unat b) ds") (auto simp: push_byte_def push_carry_eq)

lemma digits_value_less: "\<forall>d\<in>set ds. d < 58 \<Longrightarrow> digits_value ds < 58 ^ length ds"
  by (induction ds) auto

lemma digits_value_ge: "ds \<noteq> [] \<Longrightarrow> last ds \<noteq> 0 \<Longrightarrow> 58 ^ (length ds - 1) \<le> digits_value ds"
proof (induction ds)
  case (Cons d ds)
  then show ?case by (cases ds) (auto split: if_splits)
qed simp

lemma last_base58_digits: "0 < n \<Longrightarrow> last (base58_digits n) \<noteq> 0"
proof (induction n rule: push_carry.induct)
  case (1 n)
  show ?case
  proof (cases "0 < n div 58")
    case True
    then have "base58_digits (n div 58) \<noteq> []" by (simp add: base58_digits_step [of "n div 58"])
    with 1 True show ?thesis by (simp add: base58_digits_step [of n])
  next
    case False
    with "1.prems" show ?thesis by (simp add: base58_digits_step [of n])
  qed
qed

text \<open>No leading zero appears once the number is positive.\<close>

lemma push_byte_last:
  assumes "ds = [0] \<and> b \<noteq> 0 \<or> ds \<noteq> [] \<and> last ds \<noteq> 0"
  shows "push_byte ds b \<noteq> []" and "last (push_byte ds b) \<noteq> 0"
proof -
  obtain es c where es: "carry_digits (unat b) ds = (es, c)" by force
  note V = carry_digits_value [OF es]
  have eq: "push_byte ds b = es @ base58_digits c" by (simp add: push_byte_def es push_carry_eq)
  show "push_byte ds b \<noteq> []" using V assms by (auto simp: eq)
  show "last (push_byte ds b) \<noteq> 0"
  proof (cases "0 < c")
    case True
    then have "base58_digits c \<noteq> []" by (simp add: base58_digits_step [of c])
    then show ?thesis using last_base58_digits [OF True] by (simp add: eq)
  next
    case False
    have "\<not> (ds \<noteq> [] \<and> last ds \<noteq> 0)"
    proof
      assume ds: "ds \<noteq> [] \<and> last ds \<noteq> 0"
      have "(58 :: nat) ^ length ds = 58 * 58 ^ (length ds - 1)" using ds by (cases ds) simp_all
      also have "\<dots> \<le> 256 * digits_value ds" using digits_value_ge [of ds] ds by simp
      also have "\<dots> \<le> digits_value es" using V False by simp
      also have "\<dots> < 58 ^ length ds" using digits_value_less [of es] carry_digits_less [OF es] V by simp
      finally show False by simp
    qed
    then have "ds = [0]" "b \<noteq> 0" using assms by auto
    then have "unat b div 58 = 0" "es = [unat b mod 58]" using es False by (simp_all add: Let_def)
    then have "es = [unat b]" by simp
    then show ?thesis using False \<open>b \<noteq> 0\<close> by (simp add: eq unat_eq_0)
  qed
qed

lemma foldl_push_byte:
  assumes "ds \<noteq> [] \<and> last ds \<noteq> 0" and "\<forall>d\<in>set ds. d < 58"
  shows "foldl push_byte ds bs = base58_digits (foldl (\<lambda>n b. 256 * n + unat b) (digits_value ds) bs)"
  using assms
proof (induction bs arbitrary: ds)
  case Nil
  then show ?case by (simp add: base58_digits_unique)
next
  case (Cons b bs)
  then show ?case using push_byte_last [of ds b] push_byte_less [of _ ds b] by (simp add: push_byte_value)
qed

lemma be_nat_zeros: "be_nat bs = be_nat (drop (leading_zeros bs) bs)"
  by (induction bs) (simp_all add: be_nat_def leading_zeros_def)

lemma digits_of_nonzero:
  assumes "b \<noteq> 0"
  shows "foldl push_byte [0] (b # bs) = base58_digits (be_nat (b # bs))"
  using push_byte_last [of "[0]" b] push_byte_less [of _ "[0]" b] assms
  by (simp add: foldl_push_byte push_byte_value be_nat_def)

lemma be_nat_pos: "b \<noteq> 0 \<Longrightarrow> 0 < be_nat (b # bs)"
proof -
  assume "b \<noteq> 0"
  have "m \<le> foldl (\<lambda>n b. 256 * n + unat b) m bs" for m
  proof (induction bs arbitrary: m)
    case (Cons c bs)
    have "m \<le> 256 * m + unat c" by simp
    also have "\<dots> \<le> foldl (\<lambda>n b. 256 * n + unat b) (256 * m + unat c) bs" by (rule Cons.IH)
    finally show ?case by simp
  qed simp
  then have "unat b \<le> be_nat (b # bs)" by (simp add: be_nat_def)
  then show ?thesis using \<open>b \<noteq> 0\<close> by (metis gr0I le_zero_eq unat_eq_0)
qed

section \<open>The notation determines the bytes\<close>

lemma alphabet_inj: "d < 58 \<Longrightarrow> e < 58 \<Longrightarrow> ALPHABET ! d = ALPHABET ! e \<longleftrightarrow> d = e"
  by (rule nth_eq_iff_index_eq) (simp_all add: ALPHABET_def)

lemma alphabet_0: "ALPHABET ! 0 = CHR ''1''"
  by (simp add: ALPHABET_def)

lemma be_nat_snoc: "be_nat (bs @ [b]) = 256 * be_nat bs + unat b"
  by (simp add: be_nat_def)

lemma be_nat_inj: "length xs = length ys \<Longrightarrow> be_nat xs = be_nat ys \<Longrightarrow> xs = ys"
proof (induction xs arbitrary: ys rule: rev_induct)
  case Nil
  then show ?case by simp
next
  case (snoc x xs)
  then obtain ys' y where ys: "ys = ys' @ [y]" by (cases ys rule: rev_cases) auto
  with snoc.prems(2) have "256 * be_nat xs + unat x = 256 * be_nat ys' + unat y" by (simp add: be_nat_snoc)
  then have eq: "be_nat xs = be_nat ys'" using unat_u8_less [of x] unat_u8_less [of y] by linarith
  with \<open>256 * be_nat xs + unat x = 256 * be_nat ys' + unat y\<close> have "x = y" by (simp add: word_unat_eq_iff)
  with eq snoc ys show ?case by simp
qed

lemma map_alphabet_inj:
  assumes "\<forall>d\<in>set ds. d < 58" and "\<forall>d\<in>set es. d < 58"
    and "map (\<lambda>d. ALPHABET ! d) ds = map (\<lambda>d. ALPHABET ! d) es"
  shows "ds = es"
  using assms by (intro map_inj_on [OF assms(3)]) (auto simp: inj_on_def alphabet_inj)

text \<open>After the marks for zero bytes the next digit is not \<^verbatim>\<open>1\<close>.\<close>

lemma notation_marks:
  "takeWhile (\<lambda>c. c = CHR ''1'') (base58_notation bs) = replicate (leading_zeros bs) CHR ''1''"
proof (cases "be_nat bs = 0")
  case True
  then show ?thesis by (simp add: base58_notation_def takeWhile_eq_all_conv)
next
  case False
  let ?ds = "base58_digits (be_nat bs)"
  have ne: "?ds \<noteq> []" using False by (simp add: base58_digits_step [of "be_nat bs"])
  have "last ?ds \<noteq> 0" using last_base58_digits False by simp
  moreover have "last ?ds < 58" using ne base58_digits_less last_in_set by blast
  ultimately have "ALPHABET ! last ?ds \<noteq> CHR ''1''" using alphabet_inj [of "last ?ds" 0] alphabet_0 by auto
  moreover have "map (\<lambda>d. ALPHABET ! d) (rev ?ds) = ALPHABET ! last ?ds # map (\<lambda>d. ALPHABET ! d) (tl (rev ?ds))"
    using ne by (metis hd_rev list.collapse list.map(2) rev_is_Nil_conv)
  ultimately show ?thesis by (simp add: base58_notation_def takeWhile_tail takeWhile_eq_all_conv)
qed

lemma base58_notation_inj:
  assumes "length xs = length ys" and "base58_notation xs = base58_notation ys"
  shows "xs = ys"
proof -
  have "replicate (leading_zeros xs) CHR ''1'' = replicate (leading_zeros ys) CHR ''1''"
    using notation_marks [of xs] notation_marks [of ys] assms(2) by simp
  then have "map (\<lambda>d. ALPHABET ! d) (rev (base58_digits (be_nat xs))) = map (\<lambda>d. ALPHABET ! d) (rev (base58_digits (be_nat ys)))"
    using assms(2) by (simp add: base58_notation_def)
  then have "rev (base58_digits (be_nat xs)) = rev (base58_digits (be_nat ys))"
    by (intro map_alphabet_inj) (auto dest: base58_digits_less)
  then have "be_nat xs = be_nat ys" by (metis base58_digits_value rev_is_rev_conv)
  with assms(1) show ?thesis by (rule be_nat_inj)
qed

section \<open>What is printed\<close>

lemma base58_printer_eq:
  "bytesToBase58 bs = base58_notation bs @ (if \<forall>b\<in>set bs. b = 0 then ''1'' else [])"
proof (cases "drop (leading_zeros bs) bs")
  case Nil
  then have "leading_zeros bs = length bs"
    using length_takeWhile_le [of "\<lambda>b. b = 0" bs] by (simp add: leading_zeros_def)
  then have "takeWhile (\<lambda>b. b = 0) bs = bs"
    by (metis append_Nil2 append_take_drop_id leading_zeros_def Nil takeWhile_eq_take)
  then have "\<forall>b\<in>set bs. b = 0" by (metis set_takeWhileD)
  moreover have "be_nat bs = 0" using be_nat_zeros [of bs] Nil by (simp add: be_nat_def)
  ultimately show ?thesis using Nil
    by (simp add: bytesToBase58_def base58_notation_def ALPHABET_def)
next
  case (Cons b bs')
  then have "b \<noteq> 0"
    by (metis (mono_tags, lifting) dropWhile_eq_Cons_conv dropWhile_eq_drop leading_zeros_def)
  moreover have "b \<in> set bs" using Cons by (metis in_set_dropD list.set_intros(1))
  moreover have "be_nat bs = be_nat (b # bs')" using be_nat_zeros [of bs] Cons by simp
  ultimately show ?thesis using Cons
    by (auto simp: bytesToBase58_def base58_notation_def digits_of_nonzero simp del: foldl_Cons)
qed

lemma bytesToBase58_inj:
  assumes len: "length xs = length ys" and eq: "bytesToBase58 xs = bytesToBase58 ys"
  shows "xs = ys"
proof -
  have zero: False
    if "\<forall>b\<in>set us. b = 0" "\<not> (\<forall>b\<in>set vs. b = 0)" "length us = length vs" "bytesToBase58 us = bytesToBase58 vs" for us vs
  proof -
    have "leading_zeros us = length us" using that(1) by (simp add: leading_zeros_def takeWhile_eq_all_conv [THEN iffD2])
    moreover have "be_nat us = 0" using be_nat_zeros [of us] calculation by (simp add: be_nat_def)
    ultimately have us: "bytesToBase58 us = replicate (Suc (length us)) CHR ''1''"
      using that(1) by (simp add: base58_printer_eq base58_notation_def replicate_append_same)
    then have vs: "base58_notation vs = replicate (Suc (length us)) CHR ''1''" using that by (auto simp: base58_printer_eq)
    then have "Suc (length us) = leading_zeros vs"
      using notation_marks [of vs] by (simp add: takeWhile_eq_all_conv [THEN iffD2] del: replicate_Suc)
    then show False using that(3) length_takeWhile_le [of "\<lambda>b. b = 0" vs] by (simp add: leading_zeros_def)
  qed
  then have "(\<forall>b\<in>set xs. b = 0) = (\<forall>b\<in>set ys. b = 0)" using len eq by metis
  then have "base58_notation xs = base58_notation ys" using eq by (auto simp: base58_printer_eq split: if_splits)
  with len show ?thesis by (rule base58_notation_inj)
qed

section \<open>Properties\<close>

text \<open>
  C31: the printer of public keys prints the base-58 notation of every byte string, except that
  it prints one \<^verbatim>\<open>1\<close> too many for a string of zero bytes (such as the address of the
  system program).
\<close>

theorem base58_printer_exact:
  "bytesToBase58 bs = base58_notation bs @ (if list_all (\<lambda>b. b = 0) bs then ''1'' else [])"
  by (simp add: base58_printer_eq list_all_iff)

end
