(* ===== verification/Borsh.thy ===== *)
theory Borsh
  imports Runtime
begin

text \<open>
  The bytes of an account.  The derives \<^verbatim>\<open>AnchorSerialize\<close> and \<^verbatim>\<open>#[account]\<close> store a struct as an
  8-byte discriminator and its fields in the order of their declaration (Borsh): integers in
  little-endian order at their width, arrays and public keys as they are, an enum as its index,
  an option as a tag byte and the value.  \<open>put_X\<close> writes the struct \<open>X\<close> of \<^verbatim>\<open>state.rs\<close>, \<open>get_X\<close>
  reads it and returns the bytes that follow.  The discriminators are hashes of the
  names; they are an argument.

  The locale \<open>codec\<close> is the contract of a writer and a reader; it is interpreted on every struct.
\<close>

section \<open>Fields\<close>

definition put_u8 :: "u8 \<Rightarrow> bytes" where "put_u8 x = [x]"
definition put_u16 :: "u16 \<Rightarrow> bytes" where "put_u16 x = to_le_bytes 2 (unat x)"
definition put_u32 :: "u32 \<Rightarrow> bytes" where "put_u32 x = to_le_bytes 4 (unat x)"
definition put_u64 :: "u64 \<Rightarrow> bytes" where "put_u64 x = to_le_bytes 8 (unat x)"

fun put_option :: "('a \<Rightarrow> bytes) \<Rightarrow> 'a option \<Rightarrow> bytes" where
  "put_option put None = [0]"
| "put_option put (Some x) = 1 # put x"

fun put_AdvanceState :: "AdvanceState \<Rightarrow> bytes" where
  "put_AdvanceState Issued = [0]"
| "put_AdvanceState Settled = [1]"
| "put_AdvanceState Liquidated = [2]"

definition get_bytes :: "nat \<Rightarrow> bytes \<Rightarrow> (bytes \<times> bytes) option" where
  "get_bytes n bs = (if n \<le> length bs then Some (take n bs, drop n bs) else None)"

definition get_word :: "nat \<Rightarrow> bytes \<Rightarrow> ('a::len word \<times> bytes) option" where
  "get_word n bs = Option.bind (get_bytes n bs) (\<lambda>(x, rest). Some (from_le_bytes x, rest))"

definition get_u8 :: "bytes \<Rightarrow> (u8 \<times> bytes) option" where "get_u8 bs = get_word 1 bs"
definition get_u16 :: "bytes \<Rightarrow> (u16 \<times> bytes) option" where "get_u16 bs = get_word 2 bs"
definition get_u32 :: "bytes \<Rightarrow> (u32 \<times> bytes) option" where "get_u32 bs = get_word 4 bs"
definition get_u64 :: "bytes \<Rightarrow> (u64 \<times> bytes) option" where "get_u64 bs = get_word 8 bs"

definition get_option :: "(bytes \<Rightarrow> ('a \<times> bytes) option) \<Rightarrow> bytes \<Rightarrow> ('a option \<times> bytes) option" where
  "get_option get bs =
     Option.bind (get_u8 bs) (\<lambda>(tag, rest).
     if tag = 0 then Some (None, rest)
     else if tag = 1 then Option.bind (get rest) (\<lambda>(x, rest'). Some (Some x, rest'))
     else None)"

definition get_AdvanceState :: "bytes \<Rightarrow> (AdvanceState \<times> bytes) option" where
  "get_AdvanceState bs =
     Option.bind (get_u8 bs) (\<lambda>(tag, rest).
     if tag = 0 then Some (Issued, rest) else if tag = 1 then Some (Settled, rest)
     else if tag = 2 then Some (Liquidated, rest) else None)"

section \<open>Structs\<close>

definition put_FeeCurve :: "FeeCurve \<Rightarrow> bytes" where
  "put_FeeCurve x =
     put_u16 (utilization_kink_bps x) @ put_u16 (base_rate_bps x) @ put_u16 (kink_rate_bps x)
     @ put_u16 (max_rate_bps x) @ put_u16 (duration_per_day_bps x)
     @ put_u16 (risk_premium_bps x) @ put_u16 (pool_loss_surcharge_bps x)"

definition get_FeeCurve :: "bytes \<Rightarrow> (FeeCurve \<times> bytes) option" where
  "get_FeeCurve b0 =
     Option.bind (get_u16 b0) (\<lambda>(v_utilization_kink_bps, b1).
     Option.bind (get_u16 b1) (\<lambda>(v_base_rate_bps, b2).
     Option.bind (get_u16 b2) (\<lambda>(v_kink_rate_bps, b3).
     Option.bind (get_u16 b3) (\<lambda>(v_max_rate_bps, b4).
     Option.bind (get_u16 b4) (\<lambda>(v_duration_per_day_bps, b5).
     Option.bind (get_u16 b5) (\<lambda>(v_risk_premium_bps, b6).
     Option.bind (get_u16 b6) (\<lambda>(v_pool_loss_surcharge_bps, b7).
     Some (\<lparr> utilization_kink_bps = v_utilization_kink_bps,
       base_rate_bps = v_base_rate_bps, kink_rate_bps = v_kink_rate_bps,
       max_rate_bps = v_max_rate_bps, duration_per_day_bps = v_duration_per_day_bps,
       risk_premium_bps = v_risk_premium_bps,
       pool_loss_surcharge_bps = v_pool_loss_surcharge_bps \<rparr>, b7))))))))"

definition put_PendingParams :: "PendingParams \<Rightarrow> bytes" where
  "put_PendingParams x =
     put_FeeCurve (pp_fee_curve x) @ put_u16 (pp_max_advance_pct_bps x)
     @ put_u64 (pp_max_advance_abs x) @ put_u64 (pp_agent_window_cap x)
     @ put_u64 (pp_execute_after x)"

definition get_PendingParams :: "bytes \<Rightarrow> (PendingParams \<times> bytes) option" where
  "get_PendingParams b0 =
     Option.bind (get_FeeCurve b0) (\<lambda>(v_pp_fee_curve, b1).
     Option.bind (get_u16 b1) (\<lambda>(v_pp_max_advance_pct_bps, b2).
     Option.bind (get_u64 b2) (\<lambda>(v_pp_max_advance_abs, b3).
     Option.bind (get_u64 b3) (\<lambda>(v_pp_agent_window_cap, b4).
     Option.bind (get_u64 b4) (\<lambda>(v_pp_execute_after, b5).
     Some (\<lparr> pp_fee_curve = v_pp_fee_curve,
       pp_max_advance_pct_bps = v_pp_max_advance_pct_bps,
       pp_max_advance_abs = v_pp_max_advance_abs, pp_agent_window_cap = v_pp_agent_window_cap,
       pp_execute_after = v_pp_execute_after \<rparr>, b5))))))"

definition put_Pool :: "Pool \<Rightarrow> bytes" where
  "put_Pool x =
     put_u8 (pool_bump x) @ pool_asset_mint x @ pool_usdc_vault x @ pool_share_mint x
     @ pool_treasury_ata x @ pool_governance x @ put_u64 (total_assets x)
     @ put_u64 (total_shares x) @ put_u64 (deployed_amount x)
     @ put_u64 (accrued_protocol_fees x) @ put_FeeCurve (fee_curve x)
     @ put_u16 (max_advance_pct_bps x) @ put_u64 (max_advance_abs x)
     @ put_u64 (agent_window_cap x) @ put_u64 (timelock_seconds x) @ put_u64 (pool_chain_id x)
     @ put_option put_PendingParams (pending_params x)"

definition get_Pool :: "bytes \<Rightarrow> (Pool \<times> bytes) option" where
  "get_Pool b0 =
     Option.bind (get_u8 b0) (\<lambda>(v_pool_bump, b1).
     Option.bind (get_bytes 32 b1) (\<lambda>(v_pool_asset_mint, b2).
     Option.bind (get_bytes 32 b2) (\<lambda>(v_pool_usdc_vault, b3).
     Option.bind (get_bytes 32 b3) (\<lambda>(v_pool_share_mint, b4).
     Option.bind (get_bytes 32 b4) (\<lambda>(v_pool_treasury_ata, b5).
     Option.bind (get_bytes 32 b5) (\<lambda>(v_pool_governance, b6).
     Option.bind (get_u64 b6) (\<lambda>(v_total_assets, b7).
     Option.bind (get_u64 b7) (\<lambda>(v_total_shares, b8).
     Option.bind (get_u64 b8) (\<lambda>(v_deployed_amount, b9).
     Option.bind (get_u64 b9) (\<lambda>(v_accrued_protocol_fees, b10).
     Option.bind (get_FeeCurve b10) (\<lambda>(v_fee_curve, b11).
     Option.bind (get_u16 b11) (\<lambda>(v_max_advance_pct_bps, b12).
     Option.bind (get_u64 b12) (\<lambda>(v_max_advance_abs, b13).
     Option.bind (get_u64 b13) (\<lambda>(v_agent_window_cap, b14).
     Option.bind (get_u64 b14) (\<lambda>(v_timelock_seconds, b15).
     Option.bind (get_u64 b15) (\<lambda>(v_pool_chain_id, b16).
     Option.bind (get_option get_PendingParams b16) (\<lambda>(v_pending_params, b17).
     Some (\<lparr> pool_bump = v_pool_bump, pool_asset_mint = v_pool_asset_mint,
       pool_usdc_vault = v_pool_usdc_vault, pool_share_mint = v_pool_share_mint,
       pool_treasury_ata = v_pool_treasury_ata, pool_governance = v_pool_governance,
       total_assets = v_total_assets, total_shares = v_total_shares,
       deployed_amount = v_deployed_amount, accrued_protocol_fees = v_accrued_protocol_fees,
       fee_curve = v_fee_curve, max_advance_pct_bps = v_max_advance_pct_bps,
       max_advance_abs = v_max_advance_abs, agent_window_cap = v_agent_window_cap,
       timelock_seconds = v_timelock_seconds, pool_chain_id = v_pool_chain_id,
       pending_params = v_pending_params \<rparr>, b17))))))))))))))))))"

definition put_Advance :: "Advance \<Rightarrow> bytes" where
  "put_Advance x =
     put_u8 (adv_bump x) @ adv_agent x @ adv_receivable_id x @ put_u64 (principal x)
     @ put_u64 (fee_owed x) @ put_u64 (late_penalty_per_day x) @ put_u64 (issued_at x)
     @ put_u64 (adv_expires_at x) @ adv_attestor x @ put_AdvanceState (adv_state x)"

definition get_Advance :: "bytes \<Rightarrow> (Advance \<times> bytes) option" where
  "get_Advance b0 =
     Option.bind (get_u8 b0) (\<lambda>(v_adv_bump, b1).
     Option.bind (get_bytes 32 b1) (\<lambda>(v_adv_agent, b2).
     Option.bind (get_bytes 32 b2) (\<lambda>(v_adv_receivable_id, b3).
     Option.bind (get_u64 b3) (\<lambda>(v_principal, b4).
     Option.bind (get_u64 b4) (\<lambda>(v_fee_owed, b5).
     Option.bind (get_u64 b5) (\<lambda>(v_late_penalty_per_day, b6).
     Option.bind (get_u64 b6) (\<lambda>(v_issued_at, b7).
     Option.bind (get_u64 b7) (\<lambda>(v_adv_expires_at, b8).
     Option.bind (get_bytes 32 b8) (\<lambda>(v_adv_attestor, b9).
     Option.bind (get_AdvanceState b9) (\<lambda>(v_adv_state, b10).
     Some (\<lparr> adv_bump = v_adv_bump, adv_agent = v_adv_agent,
       adv_receivable_id = v_adv_receivable_id, principal = v_principal, fee_owed = v_fee_owed,
       late_penalty_per_day = v_late_penalty_per_day, issued_at = v_issued_at,
       adv_expires_at = v_adv_expires_at, adv_attestor = v_adv_attestor,
       adv_state = v_adv_state \<rparr>, b10)))))))))))"

definition put_ConsumedPayment :: "ConsumedPayment \<Rightarrow> bytes" where
  "put_ConsumedPayment x =
     put_u8 (cp_bump x) @ cp_nonce x @ cp_agent x @ put_u64 (cp_created_at x)"

definition get_ConsumedPayment :: "bytes \<Rightarrow> (ConsumedPayment \<times> bytes) option" where
  "get_ConsumedPayment b0 =
     Option.bind (get_u8 b0) (\<lambda>(v_cp_bump, b1).
     Option.bind (get_bytes 16 b1) (\<lambda>(v_cp_nonce, b2).
     Option.bind (get_bytes 32 b2) (\<lambda>(v_cp_agent, b3).
     Option.bind (get_u64 b3) (\<lambda>(v_cp_created_at, b4).
     Some (\<lparr> cp_bump = v_cp_bump, cp_nonce = v_cp_nonce, cp_agent = v_cp_agent,
       cp_created_at = v_cp_created_at \<rparr>, b4)))))"

definition put_LiquidationTombstone :: "LiquidationTombstone \<Rightarrow> bytes" where
  "put_LiquidationTombstone x =
     put_u8 (tomb_bump x) @ tomb_agent x @ put_u64 (tomb_principal x)
     @ put_u64 (tomb_expires_at x) @ put_u64 (tomb_liquidated_at x)"

definition get_LiquidationTombstone :: "bytes \<Rightarrow> (LiquidationTombstone \<times> bytes) option" where
  "get_LiquidationTombstone b0 =
     Option.bind (get_u8 b0) (\<lambda>(v_tomb_bump, b1).
     Option.bind (get_bytes 32 b1) (\<lambda>(v_tomb_agent, b2).
     Option.bind (get_u64 b2) (\<lambda>(v_tomb_principal, b3).
     Option.bind (get_u64 b3) (\<lambda>(v_tomb_expires_at, b4).
     Option.bind (get_u64 b4) (\<lambda>(v_tomb_liquidated_at, b5).
     Some (\<lparr> tomb_bump = v_tomb_bump, tomb_agent = v_tomb_agent,
       tomb_principal = v_tomb_principal, tomb_expires_at = v_tomb_expires_at,
       tomb_liquidated_at = v_tomb_liquidated_at \<rparr>, b5))))))"

definition put_AgentIssuanceLedger :: "AgentIssuanceLedger \<Rightarrow> bytes" where
  "put_AgentIssuanceLedger x =
     put_u8 (led_bump x) @ led_agent x @ led_pool x @ put_u64 (window_start x)
     @ put_u64 (issued_in_window x) @ put_u64 (live_principal x)"

definition get_AgentIssuanceLedger :: "bytes \<Rightarrow> (AgentIssuanceLedger \<times> bytes) option" where
  "get_AgentIssuanceLedger b0 =
     Option.bind (get_u8 b0) (\<lambda>(v_led_bump, b1).
     Option.bind (get_bytes 32 b1) (\<lambda>(v_led_agent, b2).
     Option.bind (get_bytes 32 b2) (\<lambda>(v_led_pool, b3).
     Option.bind (get_u64 b3) (\<lambda>(v_window_start, b4).
     Option.bind (get_u64 b4) (\<lambda>(v_issued_in_window, b5).
     Option.bind (get_u64 b5) (\<lambda>(v_live_principal, b6).
     Some (\<lparr> led_bump = v_led_bump, led_agent = v_led_agent, led_pool = v_led_pool,
       window_start = v_window_start, issued_in_window = v_issued_in_window,
       live_principal = v_live_principal \<rparr>, b6)))))))"

definition put_AttestorConfig :: "AttestorConfig \<Rightarrow> bytes" where
  "put_AttestorConfig x =
     put_u8 (cfg_bump x) @ cfg_governance x"

definition get_AttestorConfig :: "bytes \<Rightarrow> (AttestorConfig \<times> bytes) option" where
  "get_AttestorConfig b0 =
     Option.bind (get_u8 b0) (\<lambda>(v_cfg_bump, b1).
     Option.bind (get_bytes 32 b1) (\<lambda>(v_cfg_governance, b2).
     Some (\<lparr> cfg_bump = v_cfg_bump, cfg_governance = v_cfg_governance \<rparr>, b2)))"

definition put_AllowedSigner :: "AllowedSigner \<Rightarrow> bytes" where
  "put_AllowedSigner x =
     put_u8 (as_bump x) @ as_signer x @ put_u8 (as_kind x) @ put_u64 (as_added_at x)"

definition get_AllowedSigner :: "bytes \<Rightarrow> (AllowedSigner \<times> bytes) option" where
  "get_AllowedSigner b0 =
     Option.bind (get_u8 b0) (\<lambda>(v_as_bump, b1).
     Option.bind (get_bytes 32 b1) (\<lambda>(v_as_signer, b2).
     Option.bind (get_u8 b2) (\<lambda>(v_as_kind, b3).
     Option.bind (get_u64 b3) (\<lambda>(v_as_added_at, b4).
     Some (\<lparr> as_bump = v_as_bump, as_signer = v_as_signer, as_kind = v_as_kind,
       as_added_at = v_as_added_at \<rparr>, b4)))))"

section \<open>Types\<close>

text \<open>The lengths of arrays and keys, which the Rust types fix.\<close>

definition Pool_typed :: "Pool \<Rightarrow> bool" where
  "Pool_typed x \<longleftrightarrow> length (pool_asset_mint x) = 32 \<and> length (pool_usdc_vault x) = 32
     \<and> length (pool_share_mint x) = 32 \<and> length (pool_treasury_ata x) = 32 \<and> length (pool_governance x) = 32"

definition Advance_typed :: "Advance \<Rightarrow> bool" where
  "Advance_typed x \<longleftrightarrow> length (adv_agent x) = 32 \<and> length (adv_receivable_id x) = 32 \<and> length (adv_attestor x) = 32"

definition ConsumedPayment_typed :: "ConsumedPayment \<Rightarrow> bool" where
  "ConsumedPayment_typed x \<longleftrightarrow> length (cp_nonce x) = 16 \<and> length (cp_agent x) = 32"

definition LiquidationTombstone_typed :: "LiquidationTombstone \<Rightarrow> bool" where
  "LiquidationTombstone_typed x \<longleftrightarrow> length (tomb_agent x) = 32"

definition AgentIssuanceLedger_typed :: "AgentIssuanceLedger \<Rightarrow> bool" where
  "AgentIssuanceLedger_typed x \<longleftrightarrow> length (led_agent x) = 32 \<and> length (led_pool x) = 32"

definition AttestorConfig_typed :: "AttestorConfig \<Rightarrow> bool" where
  "AttestorConfig_typed x \<longleftrightarrow> length (cfg_governance x) = 32"

definition AllowedSigner_typed :: "AllowedSigner \<Rightarrow> bool" where
  "AllowedSigner_typed x \<longleftrightarrow> length (as_signer x) = 32"

section \<open>Accounts\<close>

datatype account_kind = PoolKind | AdvanceKind | ConsumedKind | TombstoneKind | LedgerKind | ConfigKind | SignerKind

fun kind_of :: "account_data \<Rightarrow> account_kind" where
  "kind_of (PoolAccount _) = PoolKind"
| "kind_of (AdvanceAccount _) = AdvanceKind"
| "kind_of (ConsumedAccount _) = ConsumedKind"
| "kind_of (TombstoneAccount _) = TombstoneKind"
| "kind_of (LedgerAccount _) = LedgerKind"
| "kind_of (ConfigAccount _) = ConfigKind"
| "kind_of (AllowedSignerAccount _) = SignerKind"

fun put_fields :: "account_data \<Rightarrow> bytes" where
  "put_fields (PoolAccount p) = put_Pool p"
| "put_fields (AdvanceAccount a) = put_Advance a"
| "put_fields (ConsumedAccount c) = put_ConsumedPayment c"
| "put_fields (TombstoneAccount t) = put_LiquidationTombstone t"
| "put_fields (LedgerAccount l) = put_AgentIssuanceLedger l"
| "put_fields (ConfigAccount c) = put_AttestorConfig c"
| "put_fields (AllowedSignerAccount s) = put_AllowedSigner s"

definition wrap :: "('a \<Rightarrow> account_data) \<Rightarrow> ('a \<times> bytes) option \<Rightarrow> account_data option" where
  "wrap con r = map_option (\<lambda>(x, rest). con x) r"

fun get_fields :: "account_kind \<Rightarrow> bytes \<Rightarrow> account_data option" where
  "get_fields PoolKind bs = wrap PoolAccount (get_Pool bs)"
| "get_fields AdvanceKind bs = wrap AdvanceAccount (get_Advance bs)"
| "get_fields ConsumedKind bs = wrap ConsumedAccount (get_ConsumedPayment bs)"
| "get_fields TombstoneKind bs = wrap TombstoneAccount (get_LiquidationTombstone bs)"
| "get_fields LedgerKind bs = wrap LedgerAccount (get_AgentIssuanceLedger bs)"
| "get_fields ConfigKind bs = wrap ConfigAccount (get_AttestorConfig bs)"
| "get_fields SignerKind bs = wrap AllowedSignerAccount (get_AllowedSigner bs)"

fun account_typed :: "account_data \<Rightarrow> bool" where
  "account_typed (PoolAccount p) = Pool_typed p"
| "account_typed (AdvanceAccount a) = Advance_typed a"
| "account_typed (ConsumedAccount c) = ConsumedPayment_typed c"
| "account_typed (TombstoneAccount t) = LiquidationTombstone_typed t"
| "account_typed (LedgerAccount l) = AgentIssuanceLedger_typed l"
| "account_typed (ConfigAccount c) = AttestorConfig_typed c"
| "account_typed (AllowedSignerAccount s) = AllowedSigner_typed s"

text \<open>The constants \<open>SIZE\<close> of the registry; \<open>space = ...\<close> of the \<open>init\<close> constraints.\<close>

definition AttestorConfig_SIZE :: nat where "AttestorConfig_SIZE = 8 + 1 + 32"
definition AllowedSigner_SIZE :: nat where "AllowedSigner_SIZE = 8 + 1 + 32 + 1 + 8"

fun account_space :: "account_kind \<Rightarrow> nat" where
  "account_space PoolKind = 8 + 282"
| "account_space AdvanceKind = 8 + 138"
| "account_space ConsumedKind = 8 + 57"
| "account_space TombstoneKind = 8 + 57"
| "account_space LedgerKind = 8 + 89"
| "account_space ConfigKind = AttestorConfig_SIZE"
| "account_space SignerKind = AllowedSigner_SIZE"

text \<open>The data of an account: what is written, and what reading as a type gives.\<close>

definition account_bytes :: "(account_kind \<Rightarrow> bytes) \<Rightarrow> account_data \<Rightarrow> bytes" where
  "account_bytes disc d = disc (kind_of d) @ put_fields d"

definition read_account :: "(account_kind \<Rightarrow> bytes) \<Rightarrow> account_kind \<Rightarrow> bytes \<Rightarrow> account_data option" where
  "read_account disc kind data =
     (if 8 \<le> length data \<and> take 8 data = disc kind then get_fields kind (drop 8 data) else None)"

definition discriminators_ok :: "(account_kind \<Rightarrow> bytes) \<Rightarrow> bool" where
  "discriminators_ok disc \<longleftrightarrow> (\<forall>k. length (disc k) = 8) \<and> inj disc"

section \<open>The contract of a codec\<close>

locale codec =
  fixes put :: "'a \<Rightarrow> bytes" and get :: "bytes \<Rightarrow> ('a \<times> bytes) option" and typed :: "'a \<Rightarrow> bool" and size :: nat
  assumes get_put: "typed x \<Longrightarrow> get (put x @ rest) = Some (x, rest)"
    and put_size: "typed x \<Longrightarrow> length (put x) \<le> size"
begin

lemma put_inj: "typed x \<Longrightarrow> typed y \<Longrightarrow> put x = put y \<Longrightarrow> x = y"
  using get_put [of x "[]"] get_put [of y "[]"] by simp

lemma put_prefix_free: "typed x \<Longrightarrow> typed y \<Longrightarrow> put x @ r = put y @ s \<Longrightarrow> x = y \<and> r = s"
  using get_put [of x r] get_put [of y s] by (metis option.inject prod.inject)

end

section \<open>The fields are codecs\<close>

lemma get_bytes_append [simp]: "length x = n \<Longrightarrow> get_bytes n (x @ rest) = Some (x, rest)"
  by (simp add: get_bytes_def)

lemma get_word_to_le_bytes:
  assumes "unat x < 256 ^ n"
  shows "get_word n (to_le_bytes n (unat x) @ rest) = Some (x, rest)"
  using assms by (simp add: get_word_def from_le_bytes_def le_nat_to_le_bytes)

lemma get_put_fields [simp]:
  "get_u8 (put_u8 a @ rest) = Some (a, rest)"
  "get_u8 (a # rest) = Some (a, rest)"
  "get_u16 (put_u16 b @ rest) = Some (b, rest)"
  "get_u32 (put_u32 c @ rest) = Some (c, rest)"
  "get_u64 (put_u64 d @ rest) = Some (d, rest)"
  "get_AdvanceState (put_AdvanceState st @ rest) = Some (st, rest)"
proof -
  show a: "get_u8 (a # rest) = Some (a, rest)" for a rest
    by (simp add: get_u8_def get_word_def get_bytes_def from_le_bytes_def)
  then show "get_u8 (put_u8 a @ rest) = Some (a, rest)" by (simp add: put_u8_def)
  show "get_u16 (put_u16 b @ rest) = Some (b, rest)"
    using unat_u16_less [of b] by (simp add: get_u16_def put_u16_def get_word_to_le_bytes)
  show "get_u32 (put_u32 c @ rest) = Some (c, rest)"
    using unat_u32_less [of c] by (simp add: get_u32_def put_u32_def get_word_to_le_bytes)
  show "get_u64 (put_u64 d @ rest) = Some (d, rest)"
    using unat_u64_less [of d] by (simp add: get_u64_def put_u64_def get_word_to_le_bytes)
  show "get_AdvanceState (put_AdvanceState st @ rest) = Some (st, rest)"
    by (cases st) (simp_all add: get_AdvanceState_def a)
qed

lemma length_put_fields [simp]:
  "length (put_u8 a) = 1" "length (put_u16 b) = 2" "length (put_u32 c) = 4" "length (put_u64 d) = 8"
  "length (put_AdvanceState st) = 1"
  by (simp_all add: put_u8_def put_u16_def put_u32_def put_u64_def) (cases st; simp)

lemma get_put_option [simp]:
  assumes "\<And>x rest. get (put x @ rest) = Some (x, rest)"
  shows "get_option get (put_option put v @ rest) = Some (v, rest)"
  using assms by (cases v) (simp_all add: get_option_def)

lemma length_put_option: "(\<And>x. length (put x) \<le> n) \<Longrightarrow> length (put_option put v) \<le> Suc n"
  by (cases v) simp_all

section \<open>The structs are codecs\<close>

interpretation FeeCurve: codec put_FeeCurve get_FeeCurve "\<lambda>_. True" 14
  by unfold_locales (simp_all add: put_FeeCurve_def get_FeeCurve_def)

interpretation PendingParams: codec put_PendingParams get_PendingParams "\<lambda>_. True" 40
  using FeeCurve.put_size
  by unfold_locales (simp_all add: put_PendingParams_def get_PendingParams_def FeeCurve.get_put add_mono)

interpretation Pool: codec put_Pool get_Pool Pool_typed 282
proof
  fix x :: Pool and rest
  assume "Pool_typed x"
  then show "get_Pool (put_Pool x @ rest) = Some (x, rest)"
    by (simp add: put_Pool_def get_Pool_def Pool_typed_def FeeCurve.get_put PendingParams.get_put)
  from \<open>Pool_typed x\<close> show "length (put_Pool x) \<le> 282"
    using FeeCurve.put_size [of "fee_curve x"] length_put_option [of put_PendingParams 40 "pending_params x"]
      PendingParams.put_size
    by (simp add: put_Pool_def Pool_typed_def)
qed

interpretation Advance: codec put_Advance get_Advance Advance_typed 138
  by unfold_locales (simp_all add: put_Advance_def get_Advance_def Advance_typed_def)

interpretation ConsumedPayment: codec put_ConsumedPayment get_ConsumedPayment ConsumedPayment_typed 57
  by unfold_locales (simp_all add: put_ConsumedPayment_def get_ConsumedPayment_def ConsumedPayment_typed_def)

interpretation LiquidationTombstone: codec put_LiquidationTombstone get_LiquidationTombstone LiquidationTombstone_typed 57
  by unfold_locales
     (simp_all add: put_LiquidationTombstone_def get_LiquidationTombstone_def LiquidationTombstone_typed_def)

interpretation AgentIssuanceLedger: codec put_AgentIssuanceLedger get_AgentIssuanceLedger AgentIssuanceLedger_typed 89
  by unfold_locales
     (simp_all add: put_AgentIssuanceLedger_def get_AgentIssuanceLedger_def AgentIssuanceLedger_typed_def)

interpretation AttestorConfig: codec put_AttestorConfig get_AttestorConfig AttestorConfig_typed 33
  by unfold_locales (simp_all add: put_AttestorConfig_def get_AttestorConfig_def AttestorConfig_typed_def)

interpretation AllowedSigner: codec put_AllowedSigner get_AllowedSigner AllowedSigner_typed 42
  by unfold_locales (simp_all add: put_AllowedSigner_def get_AllowedSigner_def AllowedSigner_typed_def)

lemmas structs_get_put = Pool.get_put Advance.get_put ConsumedPayment.get_put LiquidationTombstone.get_put
  AgentIssuanceLedger.get_put AttestorConfig.get_put AllowedSigner.get_put

lemma get_put_fields_of: "account_typed d \<Longrightarrow> get_fields (kind_of d) (put_fields d @ rest) = Some d"
  by (cases d) (simp_all add: structs_get_put wrap_def)

lemma length_put_fields_of: "account_typed d \<Longrightarrow> 8 + length (put_fields d) \<le> account_space (kind_of d)"
  by (cases d) (simp_all add: AttestorConfig_SIZE_def AllowedSigner_SIZE_def Pool.put_size Advance.put_size
      ConsumedPayment.put_size LiquidationTombstone.put_size AgentIssuanceLedger.put_size
      AttestorConfig.put_size AllowedSigner.put_size)

lemma read_account_bytes:
  assumes "discriminators_ok disc" and "account_typed d"
  shows "read_account disc kind (account_bytes disc d @ rest) = (if kind = kind_of d then Some d else None)"
proof -
  have "length (disc (kind_of d)) = 8" "disc (kind_of d) = disc kind \<longleftrightarrow> kind = kind_of d"
    using assms(1) by (auto simp: discriminators_ok_def inj_eq)
  then show ?thesis using get_put_fields_of [OF assms(2)] by (simp add: read_account_def account_bytes_def)
qed

section \<open>Properties\<close>

text \<open>
  C16: an account is read back as it was written, whatever bytes follow in the allocated data; it
  is read as no other type; and it fits into the space that the instruction creating it allocates.
\<close>

theorem accounts_round_trip:
  assumes "discriminators_ok disc" and "account_typed d"
  shows "read_account disc kind (account_bytes disc d @ rest) = (if kind = kind_of d then Some d else None)
    \<and> length (account_bytes disc d) \<le> account_space (kind_of d)"
  using read_account_bytes [OF assms] length_put_fields_of [OF assms(2)] assms(1)
  by (simp add: account_bytes_def discriminators_ok_def)

fun sample_discriminator :: "account_kind \<Rightarrow> bytes" where
  "sample_discriminator PoolKind = replicate 8 1"
| "sample_discriminator AdvanceKind = replicate 8 2"
| "sample_discriminator ConsumedKind = replicate 8 3"
| "sample_discriminator TombstoneKind = replicate 8 4"
| "sample_discriminator LedgerKind = replicate 8 5"
| "sample_discriminator ConfigKind = replicate 8 6"
| "sample_discriminator SignerKind = replicate 8 7"

lemma sample_discriminators_ok: "discriminators_ok sample_discriminator"
proof -
  have "length (sample_discriminator k) = 8" for k by (cases k) simp_all
  moreover have "hd (sample_discriminator k) = hd (sample_discriminator l) \<Longrightarrow> k = l" for k l
    by (cases k; cases l) simp_all
  ultimately show ?thesis unfolding discriminators_ok_def inj_def by metis
qed

lemma accounts_round_trip_witness:
  "read_account sample_discriminator SignerKind (account_bytes sample_discriminator
       (AllowedSignerAccount \<lparr>as_bump = 255, as_signer = replicate 32 9, as_kind = 0, as_added_at = 77\<rparr>) @ [0, 0])
     = Some (AllowedSignerAccount \<lparr>as_bump = 255, as_signer = replicate 32 9, as_kind = 0, as_added_at = 77\<rparr>)"
  using accounts_round_trip [OF sample_discriminators_ok, of "AllowedSignerAccount
      \<lparr>as_bump = 255, as_signer = replicate 32 9, as_kind = 0, as_added_at = 77\<rparr>" SignerKind "[0, 0]"]
  by (simp add: AllowedSigner_typed_def)

end
