(* ===== verification/Event_Tail.thy ===== *)
theory Event_Tail
  imports Base58 Borsh
begin

text \<open>
  The events of the escrow on the wire, and the bridge's event tail
  (\<^verbatim>\<open>ts/bridge/src/event_tail.ts\<close>) that reads them from the program's log and attributes them to
  EVM accounts.

  \<^verbatim>\<open>emit!\<close> logs an 8-byte discriminator and the fields in Borsh.  The tail gets the bytes back
  from the base-64 text of a log line; the model starts there.  A thrown \<^verbatim>\<open>RangeError\<close> is \<open>None\<close>.
  Numbers that the tail turns into decimal text are kept as integers.
\<close>

section \<open>Events on the wire\<close>

fun event_name :: "escrow_event \<Rightarrow> string" where
  "event_name (PoolInitialized _ _ _ _) = ''PoolInitialized''"
| "event_name (Deposited _ _ _ _) = ''Deposited''"
| "event_name (Withdrew _ _ _ _) = ''Withdrew''"
| "event_name (AdvanceIssued _ _ _ _ _ _ _) = ''AdvanceIssued''"
| "event_name (AdvanceSettled _ _ _ _ _ _ _ _) = ''AdvanceSettled''"
| "event_name (AdvanceLiquidated _ _ _ _) = ''AdvanceLiquidated''"
| "event_name (ParamsProposed _ _) = ''ParamsProposed''"
| "event_name (ParamsExecuted _ _ _ _) = ''ParamsExecuted''"
| "event_name (ProtocolFeesSkimmed _ _ _) = ''ProtocolFeesSkimmed''"

fun put_event :: "escrow_event \<Rightarrow> bytes" where
  "put_event (PoolInitialized pool asset_mint share_mint governance) = pool @ asset_mint @ share_mint @ governance"
| "put_event (Deposited pool lp amount shares_minted) = pool @ lp @ put_u64 amount @ put_u64 shares_minted"
| "put_event (Withdrew pool lp shares_burned assets_returned) =
     pool @ lp @ put_u64 shares_burned @ put_u64 assets_returned"
| "put_event (AdvanceIssued pool agent advance principal' fee_owed' expires_at attestor) =
     pool @ agent @ advance @ put_u64 principal' @ put_u64 fee_owed' @ put_u64 expires_at @ attestor"
| "put_event (AdvanceSettled pool agent advance principal' lp_cut protocol_cut agent_net late_days) =
     pool @ agent @ advance @ put_u64 principal' @ put_u64 lp_cut @ put_u64 protocol_cut @ put_u64 agent_net
     @ put_u32 late_days"
| "put_event (AdvanceLiquidated pool agent advance loss) = pool @ agent @ advance @ put_u64 loss"
| "put_event (ParamsProposed pool execute_after) = pool @ put_u64 execute_after"
| "put_event (ParamsExecuted pool max_advance_pct_bps' max_advance_abs' agent_window_cap') =
     pool @ put_u16 max_advance_pct_bps' @ put_u64 max_advance_abs' @ put_u64 agent_window_cap'"
| "put_event (ProtocolFeesSkimmed pool amount recipient) = pool @ put_u64 amount @ recipient"

text \<open>The discriminator is a hash of the event's name.\<close>

definition event_bytes :: "(string \<Rightarrow> bytes) \<Rightarrow> escrow_event \<Rightarrow> bytes" where
  "event_bytes disc ev = disc (event_name ev) @ put_event ev"

section \<open>The tail\<close>

text \<open>Readers at an offset; \<^verbatim>\<open>subarray\<close> clips, the integer readers throw when out of range.\<close>

definition readPubkey :: "bytes \<Rightarrow> nat \<Rightarrow> string \<times> nat" where
  "readPubkey data off = (bytesToBase58 (take 32 (drop off data)), off + 32)"

definition readU64 :: "bytes \<Rightarrow> nat \<Rightarrow> (int \<times> nat) option" where
  "readU64 data off =
     Option.bind (slice data off 8) (\<lambda>buf. Some (uint (from_le_bytes buf :: u64), off + 8))"

definition readI64 :: "bytes \<Rightarrow> nat \<Rightarrow> (int \<times> nat) option" where
  "readI64 data off =
     Option.bind (slice data off 8) (\<lambda>buf. Some (sint (from_le_bytes buf :: i64), off + 8))"

definition readU32 :: "bytes \<Rightarrow> nat \<Rightarrow> (int \<times> nat) option" where
  "readU32 data off =
     Option.bind (slice data off 4) (\<lambda>buf. Some (uint (from_le_bytes buf :: u32), off + 4))"

datatype event_kind = IssuedEvent | SettledEvent | LiquidatedEvent

fun kind_name :: "event_kind \<Rightarrow> string" where
  "kind_name IssuedEvent = ''AdvanceIssued''"
| "kind_name SettledEvent = ''AdvanceSettled''"
| "kind_name LiquidatedEvent = ''AdvanceLiquidated''"

definition EVENT_NAMES :: "event_kind list" where
  "EVENT_NAMES = [IssuedEvent, SettledEvent, LiquidatedEvent]"

datatype payload =
    IssuedPayload string string string int int int string
      \<comment> \<open>pool, agent, advance, principal, fee owed, expiry, attestor\<close>
  | SettledPayload string string string int int int int int
      \<comment> \<open>pool, agent, advance, principal, lp cut, protocol cut, agent net, late days\<close>
  | LiquidatedPayload string string string int
      \<comment> \<open>pool, agent, advance, loss\<close>

fun agentSolanaPubkey :: "payload \<Rightarrow> string" where
  "agentSolanaPubkey (IssuedPayload _ g _ _ _ _ _) = g"
| "agentSolanaPubkey (SettledPayload _ g _ _ _ _ _ _) = g"
| "agentSolanaPubkey (LiquidatedPayload _ g _ _) = g"

definition decodeEvent :: "event_kind \<Rightarrow> bytes \<Rightarrow> payload option" where
  "decodeEvent kind data =
     (let (pool, o1) = readPubkey data 0;
          (agent, o2) = readPubkey data o1;
          (advance, o3) = readPubkey data o2 in
      case kind of
        IssuedEvent \<Rightarrow>
          Option.bind (readU64 data o3) (\<lambda>(principal', o4).
          Option.bind (readU64 data o4) (\<lambda>(fee_owed', o5).
          Option.bind (readI64 data o5) (\<lambda>(expires_at, o6).
          let (attestor, o7) = readPubkey data o6 in
          Some (IssuedPayload pool agent advance principal' fee_owed' expires_at attestor))))
      | SettledEvent \<Rightarrow>
          Option.bind (readU64 data o3) (\<lambda>(principal', o4).
          Option.bind (readU64 data o4) (\<lambda>(lp_cut, o5).
          Option.bind (readU64 data o5) (\<lambda>(protocol_cut, o6).
          Option.bind (readU64 data o6) (\<lambda>(agent_net, o7).
          Option.bind (readU32 data o7) (\<lambda>(late_days, o8).
          Some (SettledPayload pool agent advance principal' lp_cut protocol_cut agent_net late_days))))))
      | LiquidatedEvent \<Rightarrow>
          Option.bind (readU64 data o3) (\<lambda>(loss, o4).
          Some (LiquidatedPayload pool agent advance loss)))"

text \<open>
  The body of the loop over log lines: too short or no known discriminator is skipped, a thrown
  error ends the tail, otherwise kind, EVM address and payload are forwarded.
\<close>

datatype tail_result = Skipped | Thrown | Forwarded event_kind "string option" payload

definition tail_line :: "(string \<Rightarrow> bytes) \<Rightarrow> (string \<rightharpoonup> string) \<Rightarrow> bytes \<Rightarrow> tail_result" where
  "tail_line disc agentBindings decoded =
     (if length decoded < 8 then Skipped
      else case find (\<lambda>k. disc (kind_name k) = take 8 decoded) EVENT_NAMES of
        None \<Rightarrow> Skipped
      | Some kind \<Rightarrow> (case decodeEvent kind (drop 8 decoded) of
          None \<Rightarrow> Thrown
        | Some p \<Rightarrow> Forwarded kind (agentBindings (agentSolanaPubkey p)) p))"

section \<open>What the tail forwards\<close>

text \<open>The event as the tail should report it: keys in base 58, numbers by value.\<close>

fun report :: "escrow_event \<Rightarrow> (event_kind \<times> payload) option" where
  "report (AdvanceIssued P g k pr fee ex att) =
     Some (IssuedEvent, IssuedPayload (bytesToBase58 P) (bytesToBase58 g) (bytesToBase58 k) (uint pr) (uint fee)
       (sint ex) (bytesToBase58 att))"
| "report (AdvanceSettled P g k pr lpc pcut net late) =
     Some (SettledEvent, SettledPayload (bytesToBase58 P) (bytesToBase58 g) (bytesToBase58 k) (uint pr) (uint lpc)
       (uint pcut) (uint net) (uint late))"
| "report (AdvanceLiquidated P g k loss) =
     Some (LiquidatedEvent, LiquidatedPayload (bytesToBase58 P) (bytesToBase58 g) (bytesToBase58 k) (uint loss))"
| "report _ = None"

fun event_typed :: "escrow_event \<Rightarrow> bool" where
  "event_typed (AdvanceIssued P g k _ _ _ att) \<longleftrightarrow> length P = 32 \<and> length g = 32 \<and> length k = 32 \<and> length att = 32"
| "event_typed (AdvanceSettled P g k _ _ _ _ _) \<longleftrightarrow> length P = 32 \<and> length g = 32 \<and> length k = 32"
| "event_typed (AdvanceLiquidated P g k _) \<longleftrightarrow> length P = 32 \<and> length g = 32 \<and> length k = 32"
| "event_typed _ \<longleftrightarrow> True"

definition event_discriminators_ok :: "(string \<Rightarrow> bytes) \<Rightarrow> bool" where
  "event_discriminators_ok disc \<longleftrightarrow>
     (\<forall>ev. length (disc (event_name ev)) = 8)
     \<and> (\<forall>ev k. disc (event_name ev) = disc (kind_name k) \<longrightarrow> event_name ev = kind_name k)"

lemma from_le_put [simp]:
  "from_le_bytes (put_u64 x) = x" "from_le_bytes (put_u32 y) = y"
  using unat_u64_less [of x] unat_u32_less [of y]
  by (simp_all add: put_u64_def put_u32_def from_le_bytes_def le_nat_to_le_bytes)

lemma readers_at [simp]:
  "length xs = off \<Longrightarrow> length k = 32 \<Longrightarrow> readPubkey (xs @ k @ rest) off = (bytesToBase58 k, off + 32)"
  "length xs = off \<Longrightarrow> readU64 (xs @ put_u64 v @ rest) off = Some (uint v, off + 8)"
  "length xs = off \<Longrightarrow> readI64 (xs @ put_u64 v @ rest) off = Some (sint v, off + 8)"
  "length xs = off \<Longrightarrow> readU32 (xs @ put_u32 x @ rest) off = Some (uint x, off + 4)"
  by (auto simp: readPubkey_def readU64_def readI64_def readU32_def slice_def)

lemma read_three_keys:
  assumes "length P = 32" "length g = 32" "length k = 32"
  shows "readPubkey (P @ g @ k @ rest) 0 = (bytesToBase58 P, 32)"
    and "readPubkey (P @ g @ k @ rest) 32 = (bytesToBase58 g, 64)"
    and "readPubkey (P @ g @ k @ rest) 64 = (bytesToBase58 k, 96)"
  using readers_at(1) [of "[]" 0 P "g @ k @ rest"] readers_at(1) [of P 32 g "k @ rest"]
    readers_at(1) [of "P @ g" 64 k rest] assms by simp_all

lemma decode_issued:
  assumes "length P = 32" "length g = 32" "length k = 32" "length att = 32"
  shows "decodeEvent IssuedEvent (put_event (AdvanceIssued P g k pr fee ex att)) =
    Some (IssuedPayload (bytesToBase58 P) (bytesToBase58 g) (bytesToBase58 k) (uint pr) (uint fee) (sint ex) (bytesToBase58 att))"
  using readers_at(2) [of "P @ g @ k" 96 pr "put_u64 fee @ put_u64 ex @ att"]
    readers_at(2) [of "P @ g @ k @ put_u64 pr" 104 fee "put_u64 ex @ att"]
    readers_at(3) [of "P @ g @ k @ put_u64 pr @ put_u64 fee" 112 ex att]
    readers_at(1) [of "P @ g @ k @ put_u64 pr @ put_u64 fee @ put_u64 ex" 120 att "[]"] assms
  by (simp add: decodeEvent_def read_three_keys del: readers_at)

lemma decode_settled:
  assumes "length P = 32" "length g = 32" "length k = 32"
  shows "decodeEvent SettledEvent (put_event (AdvanceSettled P g k pr lpc pcut net late)) =
    Some (SettledPayload (bytesToBase58 P) (bytesToBase58 g) (bytesToBase58 k) (uint pr) (uint lpc) (uint pcut) (uint net) (uint late))"
  using readers_at(2) [of "P @ g @ k" 96 pr "put_u64 lpc @ put_u64 pcut @ put_u64 net @ put_u32 late"]
    readers_at(2) [of "P @ g @ k @ put_u64 pr" 104 lpc "put_u64 pcut @ put_u64 net @ put_u32 late"]
    readers_at(2) [of "P @ g @ k @ put_u64 pr @ put_u64 lpc" 112 pcut "put_u64 net @ put_u32 late"]
    readers_at(2) [of "P @ g @ k @ put_u64 pr @ put_u64 lpc @ put_u64 pcut" 120 net "put_u32 late"]
    readers_at(4) [of "P @ g @ k @ put_u64 pr @ put_u64 lpc @ put_u64 pcut @ put_u64 net" 128 late "[]"] assms
  by (simp add: decodeEvent_def read_three_keys del: readers_at)

lemma decode_liquidated:
  assumes "length P = 32" "length g = 32" "length k = 32"
  shows "decodeEvent LiquidatedEvent (put_event (AdvanceLiquidated P g k loss)) =
    Some (LiquidatedPayload (bytesToBase58 P) (bytesToBase58 g) (bytesToBase58 k) (uint loss))"
  using readers_at(2) [of "P @ g @ k" 96 loss "[]"] assms
  by (simp add: decodeEvent_def read_three_keys del: readers_at)

lemma decode_put_event:
  assumes "event_typed ev" and "report ev = Some (kind, p)"
  shows "decodeEvent kind (put_event ev) = Some p"
  using assms by (cases ev) (auto simp: decode_issued decode_settled decode_liquidated simp del: put_event.simps)

fun kind_of_event :: "escrow_event \<Rightarrow> event_kind option" where
  "kind_of_event (AdvanceIssued _ _ _ _ _ _ _) = Some IssuedEvent"
| "kind_of_event (AdvanceSettled _ _ _ _ _ _ _ _) = Some SettledEvent"
| "kind_of_event (AdvanceLiquidated _ _ _ _) = Some LiquidatedEvent"
| "kind_of_event _ = None"

lemma report_kind: "map_option fst (report ev) = kind_of_event ev"
  by (cases ev) simp_all

lemma event_names_distinct: "event_name ev = kind_name kind \<longleftrightarrow> kind_of_event ev = Some kind"
  by (cases ev; cases kind) simp_all

lemma find_event:
  assumes "event_discriminators_ok disc"
  shows "find (\<lambda>k. disc (kind_name k) = disc (event_name ev)) EVENT_NAMES = map_option fst (report ev)"
proof -
  have "disc (kind_name k) = disc (event_name ev) \<longleftrightarrow> kind_of_event ev = Some k" for k
    using assms event_names_distinct unfolding event_discriminators_ok_def by metis
  then show ?thesis unfolding report_kind by (cases "kind_of_event ev" rule: option.exhaust)
    (simp_all add: EVENT_NAMES_def event_kind.exhaust, metis event_kind.exhaust)
qed

lemma tail_of_event:
  assumes "event_discriminators_ok disc" and "event_typed ev"
  shows "tail_line disc bindings (event_bytes disc ev) =
    (case report ev of None \<Rightarrow> Skipped
     | Some (kind, p) \<Rightarrow> Forwarded kind (bindings (agentSolanaPubkey p)) p)"
proof -
  have "length (disc (event_name ev)) = 8" using assms(1) by (simp add: event_discriminators_ok_def)
  then show ?thesis
    using decode_put_event [OF assms(2)]
    by (auto simp: tail_line_def event_bytes_def find_event [OF assms(1)] split: option.splits)
qed

section \<open>Properties\<close>

text \<open>
  C28: for every event of the escrow the tail forwards exactly the three kinds that concern
  advances, each with the fields the program emitted and the EVM address bound to its agent; it
  never throws on an event of the program.
\<close>

theorem event_tail_exact:
  assumes "event_discriminators_ok disc" and "event_typed ev"
  shows "tail_line disc bindings (event_bytes disc ev) =
    (case report ev of None \<Rightarrow> Skipped
     | Some (kind, p) \<Rightarrow> Forwarded kind (bindings (agentSolanaPubkey p)) p)"
  using assms by (rule tail_of_event)

definition sample_event_discriminator :: "string \<Rightarrow> bytes" where
  "sample_event_discriminator name = take 8 (rev (map of_char name))"

lemma sample_event_discriminators_ok: "event_discriminators_ok sample_event_discriminator"
  unfolding event_discriminators_ok_def
proof (intro conjI allI impI)
  fix ev show "length (sample_event_discriminator (event_name ev)) = 8"
    by (cases ev) (simp_all add: sample_event_discriminator_def)
next
  fix ev k assume "sample_event_discriminator (event_name ev) = sample_event_discriminator (kind_name k)"
  then show "event_name ev = kind_name k"
    by (cases ev; cases k) (simp_all add: sample_event_discriminator_def)
qed

lemma event_tail_witness:
  "tail_line sample_event_discriminator [bytesToBase58 (replicate 32 2) \<mapsto> ''0xabc'']
     (event_bytes sample_event_discriminator (AdvanceLiquidated (replicate 32 1) (replicate 32 2) (replicate 32 3) 300000000))
   = Forwarded LiquidatedEvent (Some ''0xabc'') (LiquidatedPayload (bytesToBase58 (replicate 32 1))
       (bytesToBase58 (replicate 32 2)) (bytesToBase58 (replicate 32 3)) 300000000)"
  using event_tail_exact [OF sample_event_discriminators_ok, of
      "AdvanceLiquidated (replicate 32 1) (replicate 32 2) (replicate 32 3) 300000000"] by simp

end
