(* ===== verification/Bridge_Properties.thy ===== *)
theory Bridge_Properties
  imports Bridge_Service Event_Tail Example_Run
begin

text \<open>
  Bridge and program together: a quote of the bridge is an attestation the program accepts,
  an advance drawn on it falls due within a quarter of an hour, and the events of the advance are
  reported for the EVM account whose credit was quoted.
\<close>

section \<open>The transaction that carries a quote\<close>

text \<open>The ed25519 instruction in front of the escrow's is read back as key and message.\<close>

lemma carried_message:
  assumes "length pk = 32" and "length msg = 128" and "length sig = 64"
  shows "verify_prev_ed25519 (sysvar_of (plain_ix ED25519 (ed25519_data pk msg sig))) = Inr (pk, msg)"
proof -
  let ?d = "ed25519_data pk msg sig"
  have len: "length ?d = 240" using assms by (simp add: ed25519_data_def)
  have off: "parse_offsets ?d = Some \<lparr> signature_offset = 16, signature_instruction_index = 0, public_key_offset = 80,
      public_key_instruction_index = 0, message_data_offset = 112, message_data_size = 128, message_instruction_index = 0 \<rparr>"
    using len by (simp add: parse_offsets_def) (simp add: ed25519_data_def from_le_bytes_def)
  have "take 32 (drop 80 ?d) = pk" "take 128 (drop 112 ?d) = msg" "?d \<noteq> []" "?d ! 0 = 1"
    using assms by (simp_all add: ed25519_data_def)
  then show ?thesis using len off assms(2) by (simp add: verify_prev_ed25519_def sysvar_of_def plain_ix_def Let_def)
qed

section \<open>Attribution\<close>

text \<open>
  The documented behaviour of the address decoder: it accepts the base-58 notation of 32 bytes.
\<close>

definition address_codec :: "bridge_env \<Rightarrow> bool" where
  "address_codec env \<longleftrightarrow> (\<forall>s b. address_bytes env s = Some b \<longrightarrow> length b = 32 \<and> base58_notation b = s)"

lemma printed_address:
  assumes "address_codec env" and "address_bytes env s = Some g" and "g \<noteq> replicate 32 0"
  shows "bytesToBase58 g = s"
proof -
  have "length g = 32" "base58_notation g = s" using assms(1,2) by (auto simp: address_codec_def)
  moreover have "\<not> (\<forall>b\<in>set g. b = 0)" using calculation assms(3) by (metis replicate_eqI)
  ultimately show ?thesis by (simp add: base58_printer_eq)
qed

fun event_agent :: "escrow_event \<Rightarrow> pubkey option" where
  "event_agent (AdvanceIssued _ g _ _ _ _ _) = Some g"
| "event_agent (AdvanceSettled _ g _ _ _ _ _ _) = Some g"
| "event_agent (AdvanceLiquidated _ g _ _) = Some g"
| "event_agent _ = None"

lemma reported_agent: "event_agent ev = Some g \<Longrightarrow> \<exists>k p. report ev = Some (k, p) \<and> agentSolanaPubkey p = bytesToBase58 g"
  by (cases ev) auto

section \<open>Duration\<close>

lemma short_duration_fee:
  assumes "unat d < 86400"
  shows "compute_fee_amount amount d u n c = compute_fee_amount amount d u n (c\<lparr>duration_per_day_bps := 0\<rparr>)"
proof -
  have "unat (d div 86400) = 0" using assms by (simp add: unat_div_distrib)
  then have "d div 86400 = 0" by (simp add: unat_eq_0)
  moreover have "utilization_rate_bps u (c\<lparr>duration_per_day_bps := 0\<rparr>) = utilization_rate_bps u c"
    by (simp add: utilization_rate_bps_def Let_def)
  ultimately show ?thesis by (simp add: compute_fee_amount_def Let_def saturating_mul_def)
qed

lemma quote_fees_short:
  assumes "sint e - sint now < 86400"
  shows "quote_fees now e pool amount =
    quote_fees now e (pool\<lparr>fee_curve := (fee_curve pool)\<lparr>duration_per_day_bps := 0\<rparr>\<rparr>) amount"
proof -
  let ?d = "i64_max (i64_saturating_sub e now) 0"
  have d: "sint ?d = max 0 (max (- (2 ^ 63)) (min (2 ^ 63 - 1) (sint e - sint now)))"
    by (simp add: sint_i64_max sint_i64_saturating_sub max.commute)
  then have "0 \<le> sint ?d" "sint ?d < 86400" using assms by auto
  then have "unat ?d < 86400" using unat_nonneg_i64 [of ?d] by linarith
  then have "compute_fee_amount amount ?d u n (fee_curve pool) =
      compute_fee_amount amount ?d u n ((fee_curve pool)\<lparr>duration_per_day_bps := 0\<rparr>)" for u n
    by (rule short_duration_fee)
  then show ?thesis
    by (simp add: quote_fees_def compute_utilization_bps_def compute_late_penalty_per_day_def Let_def)
qed

section \<open>A quote on chain\<close>

lemma quoted_attestation:
  assumes quote: "handleQuote env cfg T body = Inr r"
    and sv: "verify_prev_ed25519 sv = Inr (as_signer s, q_message r)" "as_kind s = AttestorKind_as_u8 CreditBridge"
    and now: "T \<le> sint now" "sint now < q_expires_at r"
  obtains g P nonce evm snap att where
    "address_bytes env (agent_pubkey_b58 body) = Some g" "address_bytes env (pool_pubkey_b58 body) = Some P"
    "parse_nonce (nonce_hex body) = Inr nonce" "length g = 32" "length P = 32"
    "agentBindings cfg (agent_pubkey_b58 body) = Some evm" "fetchAgent env evm = Some snap" "snap_limit snap \<noteq> 0"
    "verify_attestation sv now s g P (word_of_int (solanaChainId cfg)) nonce = Inr att" "att_signer att = as_signer s"
    "uint (att_credit_limit att) = snap_limit snap" "uint (att_outstanding att) = snap_outstanding snap"
    "q_credit_limit r = snap_limit snap" "q_outstanding r = snap_outstanding snap"
    "sint (att_expires_at att) = q_expires_at r" "q_expires_at r \<le> T + 900"
proof -
  from handleQuote_Inr [OF quote] obtain g P nonce evm snap ttl where
    q: "address_bytes env (agent_pubkey_b58 body) = Some g" "address_bytes env (pool_pubkey_b58 body) = Some P"
    "parse_nonce (nonce_hex body) = Inr nonce"
    "agentBindings cfg (agent_pubkey_b58 body) = Some evm" "fetchAgent env evm = Some snap" "snap_limit snap \<noteq> 0"
    and ttl: "0 < ttl" "ttl \<le> 900"
    and enc: "encodeAttestation \<lparr> agentPubkey = g, poolPubkey = P, creditLimitAtoms = snap_limit snap,
       outstandingAtoms = snap_outstanding snap, expiresAt = T + ttl, attestedAt = T, in_nonce = nonce,
       chainId = solanaChainId cfg \<rparr> = Some (q_message r)"
    and r: "q_expires_at r = T + ttl" "q_credit_limit r = snap_limit snap" "q_outstanding r = snap_outstanding snap"
    by (metis (no_types, lifting) QuoteResponse.select_convs(4,6,7))
  have "length g = 32" "length P = 32"
    using arg_cong [OF encodeAttestation_Some(2) [OF enc], of length] arg_cong [OF encodeAttestation_Some(3) [OF enc], of length]
      encodeAttestation_Some(1) [OF enc] by simp_all
  moreover obtain att where "verify_attestation sv now s g P (word_of_int (solanaChainId cfg)) nonce = Inr att"
    "att_signer att = as_signer s" "uint (att_credit_limit att) = snap_limit snap"
    "uint (att_outstanding att) = snap_outstanding snap" "sint (att_expires_at att) = T + ttl"
    using encoded_attestation_accepted [OF enc sv(1,2)] now r(1) ttl by auto
  ultimately show ?thesis using that q r ttl by simp
qed

section \<open>An example quote\<close>

definition quote_env :: bridge_env where
  "quote_env = \<lparr> address_bytes = (\<lambda>s. if s = base58_notation agent then Some agent
       else if s = base58_notation pool_key then Some pool_key else None),
     evm_exposure = (\<lambda>_. Some 50000000), evm_getCredit = (\<lambda>_. None),
     evm_maxExposure = (\<lambda>_. Some 400000000), ed25519_sign = (\<lambda>_ _. replicate 64 19) \<rparr>"

definition quote_cfg :: bridge_config where
  "quote_cfg = \<lparr> agentBindings = [base58_notation agent \<mapsto> ''0x00000000000000000000000000000000000000aa''],
     signingKey = replicate 32 0 @ bridge, solanaChainId = 2 \<rparr>"

definition quote_body :: QuoteRequest where
  "quote_body = \<lparr> agent_pubkey_b58 = base58_notation agent, pool_pubkey_b58 = base58_notation pool_key,
     nonce_hex = hex_text nonce16, ttl_seconds = None \<rparr>"

definition quoted_input :: CreditAttestationInput where
  "quoted_input = \<lparr> agentPubkey = agent, poolPubkey = pool_key, creditLimitAtoms = 400000000,
     outstandingAtoms = 50000000, expiresAt = 1500, attestedAt = 900, in_nonce = nonce16, chainId = 2 \<rparr>"

definition quote_reply :: QuoteResponse where
  "quote_reply = \<lparr> q_message = the (encodeAttestation quoted_input), q_signature = replicate 64 19, q_signer = bridge,
     q_expires_at = 1500, q_attested_at = 900, q_credit_limit = 400000000, q_outstanding = 50000000 \<rparr>"

lemma quote_keys: "length agent = 32" "length pool_key = 32" "length nonce16 = 16" "length bridge = 32" "agent \<noteq> pool_key"
  by (simp_all add: agent_def pool_key_def nonce16_def bridge_def replicate_eq_replicate)

lemma quoted_message: "encodeAttestation quoted_input = Some (q_message quote_reply)" "length (q_message quote_reply) = 128"
proof -
  have "\<exists>m. encodeAttestation quoted_input = Some m"
    by (simp add: encodeAttestation_def quoted_input_def quote_keys writeU64LE_def writeI64LE_def)
  then show m: "encodeAttestation quoted_input = Some (q_message quote_reply)" by (auto simp: quote_reply_def)
  show "length (q_message quote_reply) = 128" by (rule encodeAttestation_Some(1) [OF m])
qed

lemma quote_runs: "handleQuote quote_env quote_cfg 900 quote_body = Inr quote_reply"
proof -
  have ne: "base58_notation pool_key \<noteq> base58_notation agent"
    using base58_notation_inj [of pool_key agent] quote_keys by auto
  have ttl: "ttl_of quote_body = 600" "BigInt 600 = Some 600"
    by (simp_all add: ttl_of_def quote_body_def BigInt_def quotient_of_number)
  have "address_bytes quote_env (agent_pubkey_b58 quote_body) = Some agent"
    "address_bytes quote_env (pool_pubkey_b58 quote_body) = Some pool_key"
    "agentBindings quote_cfg (agent_pubkey_b58 quote_body) = Some ''0x00000000000000000000000000000000000000aa''"
    "parse_nonce (nonce_hex quote_body) = Inr nonce16"
    using ne quote_keys by (simp_all add: quote_env_def quote_body_def quote_cfg_def nonce_round_trip)
  moreover have "fetchAgent quote_env a = Some \<lparr>snap_limit = 400000000, snap_outstanding = 50000000\<rparr>" for a
    by (simp add: fetchAgent_def quote_env_def)
  moreover have "signAttestation quote_env x (signingKey quote_cfg) = Some (replicate 64 19)" for x
    by (simp add: signAttestation_def quote_cfg_def quote_env_def quote_keys)
  moreover have "encodeAttestation \<lparr> agentPubkey = agent, poolPubkey = pool_key, creditLimitAtoms = 400000000,
      outstandingAtoms = 50000000, expiresAt = 1500, attestedAt = 900, in_nonce = nonce16,
      chainId = solanaChainId quote_cfg \<rparr> = Some (q_message quote_reply)"
    using quoted_message(1) by (simp add: quoted_input_def quote_cfg_def)
  ultimately show ?thesis
    unfolding handleQuote_def Let_def ttl by (simp add: ttl quote_reply_def quote_cfg_def quote_keys)
qed

section \<open>Properties\<close>

text \<open>
  C14: what the bridge quotes, the program accepts: while the quote is valid, a transaction that
  carries the quoted message, signed by an allowed bridge signer, passes the check for the
  agent, pool, nonce and chain of the quote.  The limit and the outstanding amount it yields are
  those the bridge read on the EVM side for the account bound to the agent, and the
  advance falls due at most 15 minutes after the quote.
\<close>

theorem quote_is_accepted_on_chain:
  assumes "handleQuote env cfg T body = Inr r"
    and "verify_prev_ed25519 sv = Inr (as_signer s, q_message r)" and "as_kind s = AttestorKind_as_u8 CreditBridge"
    and "T \<le> sint now" and "sint now < q_expires_at r"
  shows "\<exists>g P nonce evm snap att.
       address_bytes env (agent_pubkey_b58 body) = Some g \<and> address_bytes env (pool_pubkey_b58 body) = Some P
     \<and> parse_nonce (nonce_hex body) = Inr nonce
     \<and> agentBindings cfg (agent_pubkey_b58 body) = Some evm \<and> fetchAgent env evm = Some snap
     \<and> verify_attestation sv now s g P (word_of_int (solanaChainId cfg)) nonce = Inr att
     \<and> uint (att_credit_limit att) = snap_limit snap \<and> uint (att_outstanding att) = snap_outstanding snap
     \<and> snap_limit snap \<noteq> 0 \<and> sint (att_expires_at att) \<le> T + 900"
  by (rule quoted_attestation [OF assms]) auto

lemma quote_accepted_witness:
  "\<exists>g P nonce evm snap att. address_bytes quote_env (agent_pubkey_b58 quote_body) = Some g
     \<and> address_bytes quote_env (pool_pubkey_b58 quote_body) = Some P \<and> parse_nonce (nonce_hex quote_body) = Inr nonce
     \<and> agentBindings quote_cfg (agent_pubkey_b58 quote_body) = Some evm \<and> fetchAgent quote_env evm = Some snap
     \<and> verify_attestation (sysvar_of (plain_ix ED25519 (ed25519_data bridge (q_message quote_reply) (q_signature quote_reply))))
         1000 example_signer g P (word_of_int (solanaChainId quote_cfg)) nonce = Inr att
     \<and> uint (att_credit_limit att) = snap_limit snap \<and> uint (att_outstanding att) = snap_outstanding snap
     \<and> snap_limit snap \<noteq> 0 \<and> sint (att_expires_at att) \<le> 900 + 900"
proof (rule quote_is_accepted_on_chain [OF quote_runs])
  have "length (q_signature quote_reply) = 64" by (simp add: quote_reply_def)
  then show "verify_prev_ed25519 (sysvar_of (plain_ix ED25519 (ed25519_data bridge (q_message quote_reply)
      (q_signature quote_reply)))) = Inr (as_signer example_signer, q_message quote_reply)"
    by (simp add: carried_message quoted_message quote_keys example_signer_def)
qed (simp_all add: quote_reply_def example_signer_def)

text \<open>
  C29: the events of an advance are reported for the account whose credit was read: when the
  bridge has quoted for an agent, every event of the program about an advance of that agent is
  forwarded with the EVM address from which the quote took limit and exposure.
\<close>

theorem events_attributed_to_quoted_account:
  assumes "address_codec env" and "handleQuote env cfg T body = Inr r"
    and "address_bytes env (agent_pubkey_b58 body) = Some g" and "g \<noteq> replicate 32 0"
    and "event_discriminators_ok disc" and "event_typed ev" and "event_agent ev = Some g"
  shows "\<exists>kind evm snap p. tail_line disc (agentBindings cfg) (event_bytes disc ev) = Forwarded kind (Some evm) p
     \<and> report ev = Some (kind, p) \<and> fetchAgent env evm = Some snap
     \<and> q_credit_limit r = snap_limit snap \<and> q_outstanding r = snap_outstanding snap"
proof -
  obtain kind p where p: "report ev = Some (kind, p)" "agentSolanaPubkey p = bytesToBase58 g"
    using reported_agent [OF assms(7)] by blast
  then have "agentSolanaPubkey p = agent_pubkey_b58 body" using printed_address [OF assms(1,3,4)] by simp
  moreover from handleQuote_Inr [OF assms(2)] obtain evm snap where
    "agentBindings cfg (agent_pubkey_b58 body) = Some evm" "fetchAgent env evm = Some snap"
    "q_credit_limit r = snap_limit snap" "q_outstanding r = snap_outstanding snap"
    by (metis (no_types, lifting) QuoteResponse.select_convs(6,7))
  ultimately show ?thesis
    using tail_of_event [OF assms(5,6)] p(1) by auto
qed

lemma attribution_witness:
  "\<exists>kind evm snap p. tail_line sample_event_discriminator (agentBindings quote_cfg)
       (event_bytes sample_event_discriminator (AdvanceLiquidated pool_key agent (replicate 32 5) 300000000))
       = Forwarded kind (Some evm) p
     \<and> report (AdvanceLiquidated pool_key agent (replicate 32 5) 300000000) = Some (kind, p)
     \<and> fetchAgent quote_env evm = Some snap
     \<and> q_credit_limit quote_reply = snap_limit snap \<and> q_outstanding quote_reply = snap_outstanding snap"
proof (rule events_attributed_to_quoted_account [OF _ quote_runs _ _ sample_event_discriminators_ok])
  show "address_codec quote_env" using quote_keys by (simp add: address_codec_def quote_env_def)
  show "agent \<noteq> replicate 32 0" by (simp add: agent_def replicate_eq_replicate)
qed (simp_all add: quote_env_def quote_body_def quote_keys)

text \<open>
  With the bridge's time limit the duration premium is never charged: for an attestation the
  bridge quoted, the fee the program computes is the fee of the same curve without a premium
  for duration.
\<close>

theorem quoted_advances_pay_no_duration_premium:
  assumes "handleQuote env cfg T body = Inr r" and "T \<le> sint now" and "sint e = q_expires_at r"
  shows "quote_fees now e pool amount =
    quote_fees now e (pool\<lparr>fee_curve := (fee_curve pool)\<lparr>duration_per_day_bps := 0\<rparr>\<rparr>) amount"
proof (rule quote_fees_short)
  from handleQuote_Inr [OF assms(1)] obtain ttl where "q_expires_at r = T + ttl" "ttl \<le> 900"
    by (metis (no_types, lifting) QuoteResponse.select_convs(4))
  with assms(2,3) show "sint e - sint now < 86400" by simp
qed

lemma no_duration_premium_witness:
  "quote_fees 1000 1500 (example_pool 2000000000 2000000000000 0 0) 300000000 =
   quote_fees 1000 1500 ((example_pool 2000000000 2000000000000 0 0)\<lparr>fee_curve :=
     (fee_curve (example_pool 2000000000 2000000000000 0 0))\<lparr>duration_per_day_bps := 0\<rparr>\<rparr>) 300000000"
  by (rule quoted_advances_pay_no_duration_premium [OF quote_runs]) (simp_all add: quote_reply_def)

end
