(* ===== verification/Keeper.thy ===== *)
theory Keeper
  imports Borsh Liveness "HOL-Library.Multiset"
begin

text \<open>
  The liquidation keeper, \<^verbatim>\<open>ts/keeper/src/index.ts\<close>: it decodes the \<open>Advance\<close> accounts of the
  escrow from their bytes, picks the overdue ones and submits one \<open>liquidate\<close> for each.

  The account list comes from the RPC node; \<open>rpc_lists\<close> states what the query asks for (the
  program's accounts that start with the discriminator of \<open>Advance\<close>).  The transactions of a tick are
  submitted concurrently; each takes effect or fails as a whole, in some order.
\<close>

section \<open>Decoding\<close>

record DecodedAdvance =
  da_pubkey :: pubkey
  da_agent :: bytes
  da_receivableId :: bytes
  da_expiresAt :: int
  da_state :: u8
  da_bump :: u8

definition ADVANCE_BYTES :: nat where
  "ADVANCE_BYTES = 8 + 1 + 32 + 32 + 8 * 5 + 32 + 1"

definition ADVANCE_STATE_ISSUED :: u8 where
  "ADVANCE_STATE_ISSUED = 0"

definition decodeAdvance :: "pubkey \<Rightarrow> bytes \<Rightarrow> DecodedAdvance option" where
  "decodeAdvance pubkey data =
     (if length data < ADVANCE_BYTES then None
      else let o1 = 8; bump = data ! o1;
               o2 = o1 + 1; agent = take 32 (drop o2 data);
               o3 = o2 + 32; receivableId = take 32 (drop o3 data);
               o4 = o3 + 32;
               o5 = o4 + 8 + 8 + 8 + 8; expiresAt = sint (from_le_bytes (take 8 (drop o5 data)) :: i64);
               o6 = o5 + 8;
               o7 = o6 + 32; state = data ! o7 in
           Some \<lparr> da_pubkey = pubkey, da_agent = agent, da_receivableId = receivableId,
             da_expiresAt = expiresAt, da_state = state, da_bump = bump \<rparr>)"

section \<open>Addresses and the instruction\<close>

definition deriveConsumedPda :: "runtime \<Rightarrow> pubkey \<Rightarrow> pubkey \<Rightarrow> bytes \<Rightarrow> bytes \<Rightarrow> pubkey" where
  "deriveConsumedPda rt program pool agent receivableId =
     fst (find_program_address rt [CONSUMED_SEED, pool, agent, receivableId] program)"

definition deriveTombstonePda :: "runtime \<Rightarrow> pubkey \<Rightarrow> pubkey \<Rightarrow> bytes \<Rightarrow> bytes \<Rightarrow> pubkey" where
  "deriveTombstonePda rt program pool agent receivableId =
     fst (find_program_address rt [LIQUIDATION_TOMBSTONE_SEED, pool, agent, receivableId] program)"

definition deriveIssuanceLedgerPda :: "runtime \<Rightarrow> pubkey \<Rightarrow> pubkey \<Rightarrow> bytes \<Rightarrow> pubkey" where
  "deriveIssuanceLedgerPda rt program pool agent =
     fst (find_program_address rt [ISSUANCE_LEDGER_SEED, pool, agent] program)"

definition derivePoolPda :: "runtime \<Rightarrow> pubkey \<Rightarrow> pubkey \<Rightarrow> pubkey" where
  "derivePoolPda rt program asset_mint = fst (find_program_address rt [POOL_SEED, asset_mint] program)"

text \<open>The accounts of the instruction, in the order of the struct \<open>Liquidate\<close>.\<close>

definition buildLiquidateIx :: "runtime \<Rightarrow> pubkey \<Rightarrow> pubkey \<Rightarrow> pubkey \<Rightarrow> DecodedAdvance \<Rightarrow> Liquidate" where
  "buildLiquidateIx rt program signer pool adv =
     \<lparr> lq_cranker = signer, lq_advance = da_pubkey adv,
       lq_consumed = deriveConsumedPda rt program pool (da_agent adv) (da_receivableId adv),
       lq_issuance_ledger = deriveIssuanceLedgerPda rt program pool (da_agent adv),
       lq_tombstone = deriveTombstonePda rt program pool (da_agent adv) (da_receivableId adv),
       lq_pool = pool \<rparr>"

section \<open>A tick\<close>

fun liquidatable :: "int \<Rightarrow> int \<Rightarrow> (pubkey \<times> bytes) list \<Rightarrow> DecodedAdvance list" where
  "liquidatable grace nowSec [] = []"
| "liquidatable grace nowSec ((k, data) # accs) =
     (case decodeAdvance k data of
        None \<Rightarrow> liquidatable grace nowSec accs
      | Some decoded \<Rightarrow>
          if da_state decoded \<noteq> ADVANCE_STATE_ISSUED then liquidatable grace nowSec accs
          else if da_expiresAt decoded + grace \<le> nowSec then decoded # liquidatable grace nowSec accs
          else liquidatable grace nowSec accs)"

text \<open>What a submitted transaction does to the chain: it succeeds or leaves it alone.\<close>

definition submit :: "runtime \<Rightarrow> pubkey \<Rightarrow> pubkey \<Rightarrow> pubkey \<Rightarrow> DecodedAdvance \<times> transaction \<Rightarrow> world \<Rightarrow> world" where
  "submit rt program signer pool = (\<lambda>(adv, tx) w.
     case liquidate rt tx (buildLiquidateIx rt program signer pool adv) w of Inl e \<Rightarrow> w | Inr (w', ev) \<Rightarrow> w')"

definition run_tick ::
  "runtime \<Rightarrow> pubkey \<Rightarrow> pubkey \<Rightarrow> pubkey \<Rightarrow> (DecodedAdvance \<times> transaction) list \<Rightarrow> world \<Rightarrow> world" where
  "run_tick rt program signer pool subs w = fold (submit rt program signer pool) subs w"

section \<open>Decoding is exact\<close>

lemma length_put_Advance: "Advance_typed a \<Longrightarrow> length (put_Advance a) = 138"
  by (simp add: put_Advance_def Advance_typed_def)

definition decoded_of :: "pubkey \<Rightarrow> Advance \<Rightarrow> DecodedAdvance" where
  "decoded_of k a = \<lparr> da_pubkey = k, da_agent = adv_agent a, da_receivableId = adv_receivable_id a,
     da_expiresAt = sint (adv_expires_at a), da_state = hd (put_AdvanceState (adv_state a)), da_bump = adv_bump a \<rparr>"

lemma from_le_put_u64 [simp]: "from_le_bytes (put_u64 x) = x"
  using unat_u64_less [of x] by (simp add: put_u64_def from_le_bytes_def le_nat_to_le_bytes)

lemma decode_advance_bytes:
  assumes "length d = 8" and "Advance_typed a"
  shows "decodeAdvance k (d @ put_Advance a @ rest) = Some (decoded_of k a)"
proof -
  obtain s where s: "put_AdvanceState (adv_state a) = [s]" by (cases "adv_state a") auto
  have len: "length (adv_agent a) = 32" "length (adv_receivable_id a) = 32" "length (adv_attestor a) = 32"
    using assms(2) by (simp_all add: Advance_typed_def)
  let ?x = "d @ put_Advance a @ rest"
  have "?x ! 8 = adv_bump a" "take 32 (drop 9 ?x) = adv_agent a" "take 32 (drop 41 ?x) = adv_receivable_id a"
    "take 8 (drop 105 ?x) = put_u64 (adv_expires_at a)" "?x ! 145 = s" "\<not> length ?x < ADVANCE_BYTES"
    using assms len
    by (simp_all add: put_Advance_def put_u8_def nth_append ADVANCE_BYTES_def s)
  then show ?thesis by (simp add: decodeAdvance_def Let_def decoded_of_def s)
qed

definition rpc_lists :: "(account_kind \<Rightarrow> bytes) \<Rightarrow> world \<Rightarrow> (pubkey \<times> bytes) list \<Rightarrow> bool" where
  "rpc_lists disc w rs \<longleftrightarrow> distinct (map fst rs)
     \<and> set rs = {(k, account_bytes disc (AdvanceAccount a)) | k a. accounts w k = Some (AdvanceAccount a)}"

definition advances_typed :: "world \<Rightarrow> bool" where
  "advances_typed w \<longleftrightarrow> (\<forall>k a. accounts w k = Some (AdvanceAccount a) \<longrightarrow> Advance_typed a)"

lemma liquidatable_filter:
  "liquidatable grace now rs = filter (\<lambda>d. da_state d = ADVANCE_STATE_ISSUED \<and> da_expiresAt d + grace \<le> now)
     (List.map_filter (\<lambda>(k, data). decodeAdvance k data) rs)"
  by (induction grace now rs rule: liquidatable.induct) (auto simp: List.map_filter_def split: option.splits)

lemma decodeAdvance_pubkey: "decodeAdvance k data = Some d \<Longrightarrow> da_pubkey d = k"
  by (auto simp: decodeAdvance_def Let_def split: if_splits)

lemma liquidatable_pubkeys: "da_pubkey ` set (liquidatable grace now rs) \<subseteq> fst ` set rs"
proof (induction grace now rs rule: liquidatable.induct)
  case (2 grace now k data accs)
  then show ?case by (cases "decodeAdvance k data") (auto dest: decodeAdvance_pubkey)
qed simp

lemma liquidatable_distinct: "distinct (map fst rs) \<Longrightarrow> distinct (map da_pubkey (liquidatable grace now rs))"
proof (induction grace now rs rule: liquidatable.induct)
  case (2 grace now k data accs)
  then show ?case using liquidatable_pubkeys [of grace now accs]
    by (cases "decodeAdvance k data") (auto dest: decodeAdvance_pubkey)
qed simp

lemma issued_byte: "hd (put_AdvanceState st) = 0 \<longleftrightarrow> st = Issued"
  by (cases st) simp_all

text \<open>The keeper picks exactly the stored advances that are issued and overdue.\<close>

lemma set_liquidatable:
  assumes disc: "discriminators_ok disc" and rpc: "rpc_lists disc w rs" and ty: "advances_typed w"
  shows "set (liquidatable grace now rs) = {decoded_of k a | k a. accounts w k = Some (AdvanceAccount a)
     \<and> adv_state a = Issued \<and> sint (adv_expires_at a) + grace \<le> now}"
proof -
  have dec: "decodeAdvance k (account_bytes disc (AdvanceAccount a)) = Some (decoded_of k a)"
    if "accounts w k = Some (AdvanceAccount a)" for k a
    using that ty disc decode_advance_bytes [of "disc AdvanceKind" a k "[]"]
    by (auto simp: account_bytes_def discriminators_ok_def advances_typed_def)
  let ?f = "\<lambda>(k, data). decodeAdvance k data"
  have rs: "r \<in> set rs \<longleftrightarrow> (\<exists>k a. r = (k, account_bytes disc (AdvanceAccount a)) \<and> accounts w k = Some (AdvanceAccount a))" for r
    using rpc by (auto simp: rpc_lists_def)
  have "d \<in> set (List.map_filter ?f rs) \<longleftrightarrow> (\<exists>r\<in>set rs. ?f r = Some d)" for d
    by (induction rs) (auto simp: List.map_filter_def split: option.splits)
  also have "\<dots> d \<longleftrightarrow> (\<exists>k a. d = decoded_of k a \<and> accounts w k = Some (AdvanceAccount a))" for d
    using dec by (simp add: rs Bex_def) fastforce
  finally have "set (List.map_filter ?f rs) = {decoded_of k a | k a. accounts w k = Some (AdvanceAccount a)}"
    by blast
  then show ?thesis by (auto simp: liquidatable_filter decoded_of_def issued_byte ADVANCE_STATE_ISSUED_def)
qed

section \<open>One submission\<close>

lemma buildLiquidateIx_eq:
  "buildLiquidateIx rt ESCROW signer P (decoded_of k a) = liquidate_accounts_for rt signer P k a"
  by (simp add: buildLiquidateIx_def liquidate_accounts_for_def decoded_of_def consumed_address_def
      ledger_address_def deriveConsumedPda_def deriveIssuanceLedgerPda_def deriveTombstonePda_def)

definition tombstone_address :: "runtime \<Rightarrow> pubkey \<Rightarrow> Advance \<Rightarrow> pubkey" where
  "tombstone_address rt P a = fst (find_program_address rt
     [LIQUIDATION_TOMBSTONE_SEED, P, adv_agent a, adv_receivable_id a] ESCROW)"

text \<open>An advance of another pool: the instruction is refused, since the seeds do not fit.\<close>

lemma submit_foreign:
  assumes laws: "pda_find_law rt" "pda_collision_free rt" and wf: "accounts_wf rt w" and len: "length P = 32"
    and k: "accounts w k = Some (AdvanceAccount a)" and other: "\<not> advance_at rt P k a"
  shows "submit rt ESCROW signer P (decoded_of k a, tx) w = w"
proof (cases "liquidate rt tx (liquidate_accounts_for rt signer P k a) w")
  case (Inr r)
  then obtain w' ev where "liquidate rt tx (liquidate_accounts_for rt signer P k a) w = Inr (w', ev)" by (cases r) auto
  then obtain adv l b pool where acc:
    "Liquidate_accounts rt tx (liquidate_accounts_for rt signer P k a) w = Inr (adv, l, b, pool)"
    by (rule liquidate_Inr)
  have "load_advance rt w P k = Inr adv"
    using Liquidate_accounts_Inr(1) [OF acc] by (simp add: liquidate_accounts_for_def)
  then have c: "create_program_address rt [ADVANCE_SEED, P, adv_agent a, adv_receivable_id a, [adv_bump a]] ESCROW = Some k"
    using k by (simp add: result)
  obtain P0 where P0: "advance_wf rt (accounts w) k a P0" and la: "length (adv_agent a) = 32"
    using accounts_wf_D [OF wf k] by auto
  then have at: "advance_at rt P0 k a" "length P0 = 32" by (simp_all add: advance_wf_def)
  have "create_program_address rt [ADVANCE_SEED, P0, adv_agent a, adv_receivable_id a, [adv_bump a]] ESCROW = Some k"
    using find_creates [OF laws(1) at(1) [unfolded advance_at_def]] by simp
  from seeds_inj3 [OF laws(2) c this len la at(2) la] have "P = P0" by simp
  with at other show ?thesis by simp
qed (simp add: submit_def buildLiquidateIx_eq)

text \<open>What the keeper needs of the state between two submissions.\<close>

definition keeper_ready :: "runtime \<Rightarrow> pubkey \<Rightarrow> world \<Rightarrow> bool" where
  "keeper_ready rt P w \<longleftrightarrow> reachable rt w
     \<and> (\<exists>p. accounts w P = Some (PoolAccount p) \<and> deployed_amount p \<le> total_assets p)"

definition keeper_tx :: "runtime \<Rightarrow> pubkey \<Rightarrow> int \<Rightarrow> transaction \<Rightarrow> bool" where
  "keeper_tx rt signer nowSec tx \<longleftrightarrow> signer \<in> set (tx_signers tx) \<and> no_pda_signer rt tx \<and> nowSec \<le> sint (tx_now tx)"

lemma submit_overdue:
  assumes env: "environment rt" and len: "length P = 32" and ready: "keeper_ready rt P w"
    and k: "accounts w k = Some (AdvanceAccount a)" and at: "advance_at rt P k a"
    and fits: "i64_fits (sint (adv_expires_at a) + 1209600)" and due: "sint (adv_expires_at a) + 1209600 \<le> nowSec"
    and tx: "keeper_tx rt signer nowSec tx" and free: "address_free w (tombstone_address rt P a)"
  obtains w' where "submit rt ESCROW signer P (decoded_of k a, tx) w = w'" "keeper_ready rt P w'"
    "accounts w' k = None" "tokens w' = tokens w"
    "\<And>k2 a2. k2 \<noteq> k \<Longrightarrow> accounts w k2 = Some (AdvanceAccount a2) \<Longrightarrow> accounts w' k2 = Some (AdvanceAccount a2)"
    "\<And>k2. accounts w k2 = None \<Longrightarrow> k2 \<noteq> tombstone_address rt P a \<Longrightarrow> accounts w' k2 = None"
proof -
  from ready obtain p where re: "reachable rt w" and p: "accounts w P = Some (PoolAccount p)" "deployed_amount p \<le> total_assets p"
    by (auto simp: keeper_ready_def)
  have wf: "accounts_wf rt w" "exposure_ok rt w"
    using reachable_well_formed [OF env re] by (simp_all add: well_formed_def)
  have fin: "finite (dom (accounts w))" using wf(1) by (simp add: accounts_wf_def)
  have "unat (principal a) \<le> unat (deployed_amount p)"
    using principal_le_outstanding [OF fin k at] exposureD(1) [OF wf(2) p(1)] by simp
  then have "principal a \<le> total_assets p" using p(2) by (simp add: word_le_nat_alt)
  moreover have "lq_tombstone (liquidate_accounts_for rt signer P k a) = tombstone_address rt P a"
    by (simp add: liquidate_accounts_for_def tombstone_address_def)
  ultimately obtain w' where w': "liquidate rt tx (liquidate_accounts_for rt signer P k a) w
      = Inr (w', AdvanceLiquidated P (adv_agent a) k (principal a))"
    using liquidation_possible [OF env wf len k at fits _ _ _ p(1), of tx signer] due tx free
    by (auto simp: keeper_tx_def)
  have sub: "submit rt ESCROW signer P (decoded_of k a, tx) w = w'" by (simp add: submit_def buildLiquidateIx_eq w')
  have "step rt w w'"
    by (rule step.escrow [where ix = "Ix_liquidate (liquidate_accounts_for rt signer P k a)"])
       (use tx w' len in \<open>simp_all add: keeper_tx_def liquidate_accounts_for_def\<close>)
  then have re': "reachable rt w'" by (rule reachable_step [OF re])
  from w' obtain adv l b pool L' D' A' where
    acc: "Liquidate_accounts rt tx (liquidate_accounts_for rt signer P k a) w = Inr (adv, l, b, pool)"
    and num: "unat (deployed_amount pool) = unat D' + unat (principal adv)"
      "unat (total_assets pool) = unat A' + unat (principal adv)"
    and m: "accounts w' = ((accounts w)(
       lq_issuance_ledger (liquidate_accounts_for rt signer P k a) \<mapsto> LedgerAccount (l\<lparr>live_principal := L'\<rparr>),
       lq_pool (liquidate_accounts_for rt signer P k a) \<mapsto> PoolAccount (pool\<lparr>deployed_amount := D', total_assets := A'\<rparr>),
       lq_tombstone (liquidate_accounts_for rt signer P k a) \<mapsto> TombstoneAccount (tombstone_of tx adv b)))
       (lq_advance (liquidate_accounts_for rt signer P k a) := None)"
    and tok: "tokens w' = tokens w"
    by (rule liquidate_Inr)
  let ?L = "ledger_address rt P (adv_agent a)" and ?T = "tombstone_address rt P a"
  have m': "accounts w' = ((accounts w)(?L \<mapsto> LedgerAccount (l\<lparr>live_principal := L'\<rparr>),
       P \<mapsto> PoolAccount (pool\<lparr>deployed_amount := D', total_assets := A'\<rparr>),
       ?T \<mapsto> TombstoneAccount (tombstone_of tx adv b)))(k := None)"
    using m by (simp add: liquidate_accounts_for_def tombstone_address_def)
  have pool: "pool = p" using Liquidate_accounts_Inr(4) [OF acc] p(1) by (simp add: liquidate_accounts_for_def)
  have lL: "accounts w ?L = Some (LedgerAccount l)"
    using Liquidate_accounts_Inr(3) [OF acc] by (simp add: liquidate_accounts_for_def result)
  have fT: "accounts w ?T = None" using free by (simp add: address_free_def)
  have "D' \<le> A'" using num p(2) by (simp add: pool word_le_nat_alt)
  moreover have "accounts w' P = Some (PoolAccount (pool\<lparr>deployed_amount := D', total_assets := A'\<rparr>))"
    using p(1) k fT by (auto simp: m')
  ultimately have "keeper_ready rt P w'" using re' by (simp add: keeper_ready_def)
  moreover have "accounts w' k2 = Some (AdvanceAccount a2)"
    if "k2 \<noteq> k" "accounts w k2 = Some (AdvanceAccount a2)" for k2 a2
    using that p(1) lL fT by (auto simp: m')
  moreover have "accounts w' k2 = None" if "accounts w k2 = None" "k2 \<noteq> ?T" for k2
    using that p(1) lL by (auto simp: m')
  ultimately show ?thesis using sub tok by (intro that [of w']) (auto simp: m')
qed

section \<open>The whole batch\<close>

text \<open>
  A batch the keeper may submit: distinct stored advances, all past their grace period; those of the
  keeper's own pool have a free tombstone address.
\<close>

definition own_advance :: "runtime \<Rightarrow> pubkey \<Rightarrow> world \<Rightarrow> pubkey \<Rightarrow> Advance \<Rightarrow> bool" where
  "own_advance rt P w k a \<longleftrightarrow> accounts w k = Some (AdvanceAccount a) \<and> advance_at rt P k a"

definition batch_entry :: "runtime \<Rightarrow> pubkey \<Rightarrow> pubkey \<Rightarrow> int \<Rightarrow> world \<Rightarrow> DecodedAdvance \<times> transaction \<Rightarrow> bool" where
  "batch_entry rt signer P nowSec w = (\<lambda>(d, tx). keeper_tx rt signer nowSec tx
     \<and> (\<exists>k a. d = decoded_of k a \<and> accounts w k = Some (AdvanceAccount a) \<and> length (adv_receivable_id a) = 32
          \<and> sint (adv_expires_at a) + 1209600 \<le> nowSec
          \<and> (advance_at rt P k a \<longrightarrow> i64_fits (sint (adv_expires_at a) + 1209600)
               \<and> address_free w (tombstone_address rt P a))))"

lemma decoded_of_pubkey [simp]: "da_pubkey (decoded_of k a) = k"
  by (simp add: decoded_of_def)

lemma decoded_of_cong: "decoded_of k a = decoded_of k2 a2 \<Longrightarrow>
    k2 = k \<and> adv_agent a2 = adv_agent a \<and> adv_receivable_id a2 = adv_receivable_id a \<and> adv_bump a2 = adv_bump a"
  by (simp add: decoded_of_def)

text \<open>Two advances of one pool have different tombstones.\<close>

lemma tombstone_inj:
  assumes laws: "pda_find_law rt" "pda_collision_free rt" and len: "length P = 32"
    and a: "advance_at rt P k a" "length (adv_agent a) = 32" "length (adv_receivable_id a) = 32"
    and b: "advance_at rt P k2 b" "length (adv_agent b) = 32" "length (adv_receivable_id b) = 32"
    and same: "tombstone_address rt P a = tombstone_address rt P b"
  shows "k = k2"
proof -
  have "create_program_address rt [LIQUIDATION_TOMBSTONE_SEED, P, adv_agent x, adv_receivable_id x,
      [snd (find_program_address rt [LIQUIDATION_TOMBSTONE_SEED, P, adv_agent x, adv_receivable_id x] ESCROW)]] ESCROW
      = Some (tombstone_address rt P x)" for x
    using find_creates [OF laws(1), of "[LIQUIDATION_TOMBSTONE_SEED, P, adv_agent x, adv_receivable_id x]" ESCROW]
    by (simp add: tombstone_address_def prod_eq_iff)
  from seeds_inj3 [OF laws(2) this [of a] this [of b, folded same] len a(2) len b(2)] a(3) b(3)
  have "adv_agent a = adv_agent b" "adv_receivable_id a = adv_receivable_id b" by simp_all
  then show ?thesis using a(1) b(1) by (simp add: advance_at_def)
qed

lemma batch_entry_step:
  assumes env: "environment rt" and len: "length P = 32" and wf: "accounts_wf rt w"
    and k: "accounts w k = Some (AdvanceAccount a)" "advance_at rt P k a" "length (adv_receivable_id a) = 32"
    and e: "batch_entry rt signer P nowSec w e" "da_pubkey (fst e) \<noteq> k"
    and tok: "tokens w' = tokens w"
    and keep: "\<And>k2 a2. k2 \<noteq> k \<Longrightarrow> accounts w k2 = Some (AdvanceAccount a2) \<Longrightarrow> accounts w' k2 = Some (AdvanceAccount a2)"
    and none: "\<And>k2. accounts w k2 = None \<Longrightarrow> k2 \<noteq> tombstone_address rt P a \<Longrightarrow> accounts w' k2 = None"
  shows "batch_entry rt signer P nowSec w' e"
proof -
  obtain d tx where e': "e = (d, tx)" by (cases e)
  with e obtain k2 a2 where d: "d = decoded_of k2 a2" and k2: "accounts w k2 = Some (AdvanceAccount a2)"
    "length (adv_receivable_id a2) = 32" and ne: "k2 \<noteq> k" and due: "sint (adv_expires_at a2) + 1209600 \<le> nowSec"
    and own: "advance_at rt P k2 a2 \<longrightarrow> i64_fits (sint (adv_expires_at a2) + 1209600)
        \<and> address_free w (tombstone_address rt P a2)" and tx: "keeper_tx rt signer nowSec tx"
    by (auto simp: batch_entry_def)
  have laws: "pda_find_law rt" "pda_collision_free rt" using env by (simp_all add: environment_def)
  have la: "length (adv_agent a) = 32" "length (adv_agent a2) = 32"
    using accounts_wf_D [OF wf k(1)] accounts_wf_D [OF wf k2(1)] by auto
  have "address_free w' (tombstone_address rt P a2)"
    if "advance_at rt P k2 a2" "address_free w (tombstone_address rt P a2)"
  proof -
    have "tombstone_address rt P a2 \<noteq> tombstone_address rt P a"
      using tombstone_inj [OF laws len k(2) la(1) k(3) that(1) la(2) k2(2)] ne by auto
    from none [OF _ this] that(2) tok show ?thesis by (simp add: address_free_def)
  qed
  with own have "advance_at rt P k2 a2 \<longrightarrow> i64_fits (sint (adv_expires_at a2) + 1209600)
      \<and> address_free w' (tombstone_address rt P a2)" by blast
  then show ?thesis unfolding e' d batch_entry_def
    using keep [OF ne k2(1)] k2(2) due tx by blast
qed

text \<open>
  After the batch, an address that was empty and is no tombstone of the batch is still empty, the own
  advances of the batch are gone, and every other advance is as it was.
\<close>

lemma run_tick_effect:
  assumes env: "environment rt" and len: "length P = 32"
  shows "keeper_ready rt P w \<Longrightarrow> distinct (map (\<lambda>e. da_pubkey (fst e)) subs)
    \<Longrightarrow> \<forall>e\<in>set subs. batch_entry rt signer P nowSec w e
    \<Longrightarrow> (\<forall>k. accounts w k = None
          \<longrightarrow> (\<forall>k2 a2 tx. (decoded_of k2 a2, tx) \<in> set subs \<longrightarrow> advance_at rt P k2 a2 \<longrightarrow> k \<noteq> tombstone_address rt P a2)
          \<longrightarrow> accounts (run_tick rt ESCROW signer P subs w) k = None)
      \<and> (\<forall>k a. accounts w k = Some (AdvanceAccount a)
          \<longrightarrow> accounts (run_tick rt ESCROW signer P subs w) k
              = (if advance_at rt P k a \<and> k \<in> set (map (\<lambda>e. da_pubkey (fst e)) subs) then None else Some (AdvanceAccount a)))"
proof (induction subs arbitrary: w)
  case Nil
  then show ?case by (simp add: run_tick_def)
next
  case (Cons e subs)
  obtain d tx where e: "e = (d, tx)" by (cases e)
  with Cons.prems(3) obtain k a where d: "d = decoded_of k a" and k: "accounts w k = Some (AdvanceAccount a)"
    and rid: "length (adv_receivable_id a) = 32" and due: "sint (adv_expires_at a) + 1209600 \<le> nowSec"
    and tx: "keeper_tx rt signer nowSec tx"
    and own: "advance_at rt P k a \<Longrightarrow> i64_fits (sint (adv_expires_at a) + 1209600)
        \<and> address_free w (tombstone_address rt P a)"
    by (auto simp: batch_entry_def)
  have rest: "k \<notin> set (map (\<lambda>e. da_pubkey (fst e)) subs)" "distinct (map (\<lambda>e. da_pubkey (fst e)) subs)"
    using Cons.prems(2) by (auto simp: e d)
  have laws: "pda_find_law rt" "pda_collision_free rt" using env by (simp_all add: environment_def)
  have wf: "accounts_wf rt w"
    using Cons.prems(1) reachable_well_formed [OF env] by (auto simp: keeper_ready_def well_formed_def)
  show ?case
  proof (cases "advance_at rt P k a")
    case False
    have "submit rt ESCROW signer P (decoded_of k a, tx) w = w"
      by (rule submit_foreign [OF laws wf len k False])
    then have run: "run_tick rt ESCROW signer P (e # subs) w = run_tick rt ESCROW signer P subs w"
      by (simp add: run_tick_def e d)
    show ?thesis
      using Cons.IH [OF Cons.prems(1) rest(2)] Cons.prems(3) k False unfolding run by (auto simp: e d)
  next
    case True
    obtain w' where w': "submit rt ESCROW signer P (decoded_of k a, tx) w = w'" "keeper_ready rt P w'"
      "accounts w' k = None" "tokens w' = tokens w"
      and keep: "\<And>k2 a2. k2 \<noteq> k \<Longrightarrow> accounts w k2 = Some (AdvanceAccount a2) \<Longrightarrow> accounts w' k2 = Some (AdvanceAccount a2)"
      and none: "\<And>k2. accounts w k2 = None \<Longrightarrow> k2 \<noteq> tombstone_address rt P a \<Longrightarrow> accounts w' k2 = None"
      using submit_overdue [OF env len Cons.prems(1) k True _ due tx] own [OF True] by blast
    have run: "run_tick rt ESCROW signer P (e # subs) w = run_tick rt ESCROW signer P subs w'"
      by (simp add: run_tick_def e d w'(1))
    have "\<forall>e\<in>set subs. batch_entry rt signer P nowSec w' e"
      using batch_entry_step [OF env len wf k True rid _ _ w'(4) keep none] Cons.prems(3) rest(1)
      by force
    note IH = Cons.IH [OF w'(2) rest(2) this]
    have gone: "accounts (run_tick rt ESCROW signer P subs w') k = None"
    proof -
      have "k \<noteq> tombstone_address rt P a2" if m: "(decoded_of k2 a2, tx2) \<in> set subs" and at: "advance_at rt P k2 a2" for k2 a2 tx2
      proof -
        from Cons.prems(3) m obtain a3 where a3: "decoded_of k2 a2 = decoded_of k2 a3"
          and free: "advance_at rt P k2 a3 \<longrightarrow> address_free w (tombstone_address rt P a3)"
          by (fastforce simp: batch_entry_def dest: decoded_of_cong)
        from decoded_of_cong [OF a3] at free show ?thesis
          using k by (auto simp: advance_at_def tombstone_address_def address_free_def)
      qed
      then show ?thesis using IH w'(3) by blast
    qed
    show ?thesis
    proof (intro conjI allI impI)
      fix k2 assume none2: "accounts w k2 = None"
        and others: "\<forall>k3 a3 tx. (decoded_of k3 a3, tx) \<in> set (e # subs) \<longrightarrow> advance_at rt P k3 a3 \<longrightarrow> k2 \<noteq> tombstone_address rt P a3"
      have "accounts w' k2 = None" using none [OF none2] others True by (force simp: e d)
      then show "accounts (run_tick rt ESCROW signer P (e # subs) w) k2 = None"
        using IH [THEN conjunct1, rule_format, of k2] others unfolding run by simp
    next
      fix k2 a2 assume k2: "accounts w k2 = Some (AdvanceAccount a2)"
      then show "accounts (run_tick rt ESCROW signer P (e # subs) w) k2
          = (if advance_at rt P k2 a2 \<and> k2 \<in> set (map (\<lambda>e. da_pubkey (fst e)) (e # subs)) then None else Some (AdvanceAccount a2))"
        using IH keep [of k2 a2] gone True k unfolding run by (cases "k2 = k") (auto simp: e d)
    qed
  qed
qed

text \<open>A batch of the overdue advances, in any order, with transactions the chain accepts.\<close>

definition tick_batch ::
  "runtime \<Rightarrow> pubkey \<Rightarrow> int \<Rightarrow> int \<Rightarrow> (pubkey \<times> bytes) list \<Rightarrow> (DecodedAdvance \<times> transaction) list \<Rightarrow> bool" where
  "tick_batch rt signer grace nowSec rs subs \<longleftrightarrow>
     mset (map fst subs) = mset (liquidatable grace nowSec rs) \<and> (\<forall>s\<in>set subs. keeper_tx rt signer nowSec (snd s))"

lemma tick_batch_set:
  assumes "tick_batch rt signer grace nowSec rs subs"
  shows "fst ` set subs = set (liquidatable grace nowSec rs)"
  using assms by (metis list.set_map set_mset_mset tick_batch_def)

lemma tick_batch_distinct:
  assumes "tick_batch rt signer grace nowSec rs subs" and "distinct (map fst rs)"
  shows "distinct (map (\<lambda>e. da_pubkey (fst e)) subs)"
proof -
  have "mset (map da_pubkey (map fst subs)) = mset (map da_pubkey (liquidatable grace nowSec rs))"
    using assms(1) by (simp only: tick_batch_def mset_map)
  then have "distinct (map da_pubkey (map fst subs))"
    using liquidatable_distinct [OF assms(2)] by (metis mset_eq_imp_distinct_iff)
  then show ?thesis by (simp add: comp_def)
qed

text \<open>The deadline of a selected advance fits, since the chain's clock has reached it.\<close>

lemma deadline_fits:
  assumes "keeper_tx rt signer nowSec tx" and "sint (e :: i64) + 1209600 \<le> nowSec"
  shows "i64_fits (sint e + 1209600)"
  using assms i64_fits_sint [of e] i64_fits_sint [of "tx_now tx"] by (auto simp: keeper_tx_def i64_fits_def)

lemma tick_clears:
  assumes env: "environment rt" and len: "length P = 32" and ready: "keeper_ready rt P w"
    and disc: "discriminators_ok disc" and rpc: "rpc_lists disc w rs" and ty: "advances_typed w"
    and grace: "1209600 \<le> grace" and batch: "tick_batch rt signer grace nowSec rs subs"
    and free: "\<And>k a. accounts w k = Some (AdvanceAccount a) \<Longrightarrow> advance_at rt P k a
      \<Longrightarrow> address_free w (tombstone_address rt P a)"
    and k: "accounts w k = Some (AdvanceAccount a)"
  shows "accounts (run_tick rt ESCROW signer P subs w) k
    = (if advance_at rt P k a \<and> adv_state a = Issued \<and> sint (adv_expires_at a) + grace \<le> nowSec
       then None else Some (AdvanceAccount a))"
proof -
  note sel = tick_batch_set [OF batch] set_liquidatable [OF disc rpc ty, of grace nowSec]
  have "batch_entry rt signer P nowSec w s" if "s \<in> set subs" for s
  proof -
    obtain d tx where s: "s = (d, tx)" by (cases s)
    with that have "d \<in> set (liquidatable grace nowSec rs)" using sel(1) by force
    then obtain k2 a2 where d: "d = decoded_of k2 a2" and k2: "accounts w k2 = Some (AdvanceAccount a2)"
      and "sint (adv_expires_at a2) + grace \<le> nowSec" by (auto simp: sel(2))
    with grace have due: "sint (adv_expires_at a2) + 1209600 \<le> nowSec" by simp
    have tx: "keeper_tx rt signer nowSec tx" using batch that by (auto simp: tick_batch_def s)
    have "length (adv_receivable_id a2) = 32" using ty k2 by (auto simp: advances_typed_def Advance_typed_def)
    then show ?thesis unfolding s d batch_entry_def
      using k2 due tx free [OF k2] deadline_fits [OF tx due] by blast
  qed
  moreover have "distinct (map (\<lambda>e. da_pubkey (fst e)) subs)"
    using tick_batch_distinct [OF batch] rpc by (simp add: rpc_lists_def)
  ultimately have run: "accounts (run_tick rt ESCROW signer P subs w) k
      = (if advance_at rt P k a \<and> k \<in> set (map (\<lambda>e. da_pubkey (fst e)) subs) then None else Some (AdvanceAccount a))"
    using run_tick_effect [OF env len ready, of subs signer nowSec] k by blast
  have "set (map (\<lambda>e. da_pubkey (fst e)) subs) = da_pubkey ` set (liquidatable grace nowSec rs)"
    by (simp add: sel(1) [symmetric] image_image)
  also have "k \<in> \<dots> \<longleftrightarrow> adv_state a = Issued \<and> sint (adv_expires_at a) + grace \<le> nowSec"
  proof
    assume "adv_state a = Issued \<and> sint (adv_expires_at a) + grace \<le> nowSec"
    then have "decoded_of k a \<in> set (liquidatable grace nowSec rs)" using k by (auto simp: sel(2))
    then show "k \<in> da_pubkey ` set (liquidatable grace nowSec rs)" by (metis decoded_of_pubkey imageI)
  qed (use k in \<open>auto simp: sel(2)\<close>)
  finally show ?thesis using run by simp
qed

end
