(* ===== verification/Keeper_Properties.thy ===== *)
theory Keeper_Properties
  imports Keeper Example_Reachable
begin

text \<open>
  What a tick of the keeper achieves, with the encoder of accounts (theory Borsh), the keeper's
  decoder and the program's \<open>liquidate\<close> put together.
\<close>

text \<open>
  C15: a tick of the keeper writes off exactly the overdue advances of its pool.  In a reachable
  state whose pool has no more deployed than it has assets, let the RPC node list the stored
  \<open>Advance\<close> accounts as Anchor serialises them and let the keeper's grace period be at least the
  program's 14 days.  When the liquidations it builds reach the chain, in whatever order, at a chain
  time not before the keeper's own and with no tombstone yet at the addresses they create, then an
  advance of the keeper's pool that is issued and past the grace period is closed, and every other
  advance, those of other pools included, is left as it is.
\<close>

theorem keeper_tick_clears_overdue:
  assumes "environment rt" and "length P = 32" and "keeper_ready rt P w"
    and "discriminators_ok disc" and "rpc_lists disc w rs" and "advances_typed w"
    and "1209600 \<le> grace" and "tick_batch rt signer grace nowSec rs subs"
    and "\<And>k a. accounts w k = Some (AdvanceAccount a) \<Longrightarrow> advance_at rt P k a
      \<Longrightarrow> address_free w (tombstone_address rt P a)"
    and "accounts w k = Some (AdvanceAccount a)"
  shows "accounts (run_tick rt ESCROW signer P subs w) k
    = (if advance_at rt P k a \<and> adv_state a = Issued \<and> sint (adv_expires_at a) + grace \<le> nowSec
       then None else Some (AdvanceAccount a))"
  by (rule tick_clears [OF assms])

definition example_listing :: "(pubkey \<times> bytes) list" where
  "example_listing = [(advance_key, account_bytes sample_discriminator (AdvanceAccount example_advance))]"

definition example_batch :: "(DecodedAdvance \<times> transaction) list" where
  "example_batch = [(decoded_of advance_key example_advance, tx_liquidate)]"

lemma issued_advances: "accounts world_issued k = Some (AdvanceAccount a) \<longleftrightarrow> k = advance_key \<and> a = example_advance"
  by (auto simp: world_issued_def split: if_splits)

lemma example_advance_typed: "Advance_typed example_advance"
  by code_simp

lemma example_advance_issued: "adv_state example_advance = Issued"
  by (simp add: example_advance_def)

lemma example_keeper_tx: "keeper_tx ref_runtime alice 2074900 tx_liquidate"
proof -
  have "tx_signers tx_liquidate = [alice]" "tx_now tx_liquidate = 2074900" by (simp_all add: tx_defs)
  then show ?thesis by (simp add: keeper_tx_def)
qed

lemma example_tick_batch: "tick_batch ref_runtime alice 1209600 2074900 example_listing example_batch"
proof -
  have "decodeAdvance advance_key (account_bytes sample_discriminator (AdvanceAccount example_advance))
      = Some (decoded_of advance_key example_advance)"
    using decode_advance_bytes [of "sample_discriminator AdvanceKind" example_advance advance_key "[]"]
      example_advance_typed sample_discriminators_ok
    by (simp add: account_bytes_def discriminators_ok_def)
  then show ?thesis
    by (simp add: tick_batch_def example_listing_def example_batch_def example_keeper_tx decoded_of_def
        ADVANCE_STATE_ISSUED_def example_advance_issued)
qed

theorem keeper_tick_witness:
  "accounts (run_tick ref_runtime ESCROW alice pool_key example_batch world_issued) advance_key = None"
proof -
  have "keeper_ready ref_runtime pool_key world_issued"
    using examples_reachable(2) by (simp add: keeper_ready_def)
  moreover have "rpc_lists sample_discriminator world_issued example_listing" "advances_typed world_issued"
    using example_advance_typed by (auto simp: rpc_lists_def advances_typed_def issued_advances example_listing_def)
  moreover have "address_free world_issued (tombstone_address ref_runtime pool_key example_advance)"
    "advance_at ref_runtime pool_key advance_key example_advance" by code_simp+
  ultimately show ?thesis
    using keeper_tick_clears_overdue [OF ref_environment, of pool_key world_issued sample_discriminator example_listing
        1209600 alice 2074900 example_batch advance_key example_advance] example_tick_batch sample_discriminators_ok
    by (simp add: issued_advances example_advance_issued)
qed

end
