(* ===== verification/Siws_Auth.thy ===== *)
theory Siws_Auth
  imports Prelude
begin

text \<open>
  Sign-in with Solana, \<^verbatim>\<open>ts/server/src/auth.ts\<close> and the nonce endpoint of \<^verbatim>\<open>server.ts\<close>: the store
  of one-shot nonces, the canonical message and the middleware that checks a request.

  Times are milliseconds.  \<^verbatim>\<open>Date.now()\<close> is read at two places of an operation, so an operation
  carries two readings.  \<^verbatim>\<open>server.ts\<close> mounts the nonce endpoint and imports \<^verbatim>\<open>issueNonce\<close> only: no
  route of it goes through \<^verbatim>\<open>authMiddleware\<close>.  \<open>serve\<close> and \<open>serve_all\<close> compose the two
  as a server would that mounts both: they are no route of this repository, and what is shown of
  them is what the middleware guarantees where it is mounted.

  Date parsing and printing, \<^verbatim>\<open>bs58\<close> and \<^verbatim>\<open>tweetnacl\<close> are the record \<open>auth_env\<close>.
\<close>

section \<open>The message\<close>

record SiwsPayload =
  sp_domain :: string
  sp_address :: string
  sp_statement :: string
  sp_uri :: string
  sp_version :: string
  sp_chainId :: string
  sp_nonce :: string
  sp_issuedAt :: string
  sp_expirationTime :: string
  sp_resources :: "string list option"

fun join_lines :: "string list \<Rightarrow> string" where
  "join_lines [] = []"
| "join_lines [l] = l"
| "join_lines (l # ls) = l @ CHR 0x0A # join_lines ls"

definition siws_lines :: "SiwsPayload \<Rightarrow> string list" where
  "siws_lines p =
     [sp_domain p @ '' wants you to sign in with your Solana account:'',
      sp_address p,
      '''',
      sp_statement p,
      '''',
      ''URI: '' @ sp_uri p,
      ''Version: '' @ sp_version p,
      ''Chain ID: '' @ sp_chainId p,
      ''Nonce: '' @ sp_nonce p,
      ''Issued At: '' @ sp_issuedAt p,
      ''Expiration Time: '' @ sp_expirationTime p]
     @ (case sp_resources p of None \<Rightarrow> []
        | Some rs \<Rightarrow> if rs = [] then [] else ''Resources:'' # map (\<lambda>r. ''- '' @ r) rs)"

definition buildSiwsMessage :: "SiwsPayload \<Rightarrow> string" where
  "buildSiwsMessage p = join_lines (siws_lines p)"

section \<open>The nonce store\<close>

definition TIMESTAMP_TOLERANCE_MS :: int where "TIMESTAMP_TOLERANCE_MS = 10 * 60 * 1000"
definition NONCE_TTL_MS :: int where "NONCE_TTL_MS = 5 * 60 * 1000"

record nonce_entry =
  ne_issuedAt :: int
  ne_address :: string

type_synonym nonce_store = "string \<rightharpoonup> nonce_entry"

definition hex_digit :: "nat \<Rightarrow> char" where
  "hex_digit n = ''0123456789abcdef'' ! n"

definition randomNonce :: "bytes \<Rightarrow> string" where
  "randomNonce rnd = concat (map (\<lambda>b. [hex_digit (unat b div 16), hex_digit (unat b mod 16)]) rnd)"

definition gc :: "int \<Rightarrow> nonce_store \<Rightarrow> nonce_store" where
  "gc now m = (\<lambda>n. case m n of None \<Rightarrow> None
     | Some e \<Rightarrow> if now - ne_issuedAt e > NONCE_TTL_MS then None else Some e)"

definition issue :: "int \<Rightarrow> int \<Rightarrow> bytes \<Rightarrow> string \<Rightarrow> nonce_store \<Rightarrow> string \<times> nonce_store" where
  "issue now1 now2 rnd address m =
     (let m1 = gc now1 m; nonce = randomNonce rnd in
      (nonce, m1(nonce \<mapsto> \<lparr> ne_issuedAt = now2, ne_address = address \<rparr>)))"

definition consume :: "int \<Rightarrow> string \<Rightarrow> string \<Rightarrow> nonce_store \<Rightarrow> bool \<times> nonce_store" where
  "consume now nonce expectedAddress m =
     (case m nonce of
        None \<Rightarrow> (False, m)
      | Some entry \<Rightarrow>
          if ne_address entry \<noteq> expectedAddress then (False, m)
          else if now - ne_issuedAt entry > NONCE_TTL_MS then (False, m(nonce := None))
          else (True, m(nonce := None)))"

section \<open>Requests\<close>

record auth_env =
  Date_parse :: "string \<Rightarrow> int option"
  toISOString :: "int \<Rightarrow> string"
  bs58_decode :: "string \<Rightarrow> bytes option"
  nacl_verify :: "bytes \<Rightarrow> bytes \<Rightarrow> bytes \<Rightarrow> bool"

record request =
  rq_method :: string
  rq_url :: string
  rq_address :: "string option"
  rq_signature :: "string option"
  rq_timestamp :: "string option"
  rq_cluster :: "string option"
  rq_nonce :: "string option"

datatype auth_error =
    MissingHeaders | InvalidCluster | TimestampOutOfTolerance | InvalidNonce | MalformedBase58
  | InvalidPubkeyLength | InvalidSignatureLength | SignatureFailed

record AuthContext =
  ac_verifiedAddress :: string
  ac_cluster :: string

text \<open>A header is used when it is there and not empty.\<close>

fun header :: "string option \<Rightarrow> string option" where
  "header None = None"
| "header (Some h) = (if h = '''' then None else Some h)"

text \<open>UTF-8 of a header string, whose characters are below 256.\<close>

definition utf8 :: "string \<Rightarrow> bytes" where
  "utf8 s = concat (map (\<lambda>c. let n = (of_char c :: nat) in
     if n < 128 then [of_nat n] else [of_nat (192 + n div 64), of_nat (128 + n mod 64)]) s)"

definition signin_payload :: "auth_env \<Rightarrow> string \<Rightarrow> string \<Rightarrow> string \<Rightarrow> string \<Rightarrow> string \<Rightarrow> string \<Rightarrow> int \<Rightarrow> SiwsPayload" where
  "signin_payload env domain address uri cluster nonce timestamp issuedAt =
     \<lparr> sp_domain = domain, sp_address = address, sp_statement = ''Authenticate to CredMesh'', sp_uri = uri,
       sp_version = ''1'', sp_chainId = ''solana:'' @ cluster, sp_nonce = nonce, sp_issuedAt = timestamp,
       sp_expirationTime = toISOString env (issuedAt + 5 * 60 * 1000), sp_resources = None \<rparr>"

text \<open>The result \<open>Inr None\<close> lets a request through that needs no sign-in.\<close>

definition authMiddleware ::
  "auth_env \<Rightarrow> string \<Rightarrow> int \<Rightarrow> int \<Rightarrow> request \<Rightarrow> nonce_store \<Rightarrow> (auth_error + AuthContext option) \<times> nonce_store" where
  "authMiddleware env domain now1 now2 c m =
     (if rq_method c = ''GET'' \<or> rq_method c = ''HEAD'' \<or> rq_method c = ''OPTIONS'' then (Inr None, m)
      else case (header (rq_address c), header (rq_signature c), header (rq_timestamp c),
                 header (rq_cluster c), header (rq_nonce c)) of
        (Some address, Some signature, Some timestamp, Some cluster, Some nonce) \<Rightarrow>
          if cluster \<noteq> ''mainnet-beta'' \<and> cluster \<noteq> ''devnet'' then (Inl InvalidCluster, m)
          else (case Date_parse env timestamp of
            None \<Rightarrow> (Inl TimestampOutOfTolerance, m)
          | Some issuedAt \<Rightarrow>
              if \<bar>now1 - issuedAt\<bar> > TIMESTAMP_TOLERANCE_MS then (Inl TimestampOutOfTolerance, m)
              else (case consume now2 nonce address m of
                (False, m') \<Rightarrow> (Inl InvalidNonce, m')
              | (True, m') \<Rightarrow>
                  let expectedMessage =
                    buildSiwsMessage (signin_payload env domain address (rq_url c) cluster nonce timestamp issuedAt) in
                  (case (bs58_decode env address, bs58_decode env signature) of
                    (Some pubkeyBytes, Some sigBytes) \<Rightarrow>
                      if length pubkeyBytes \<noteq> 32 then (Inl InvalidPubkeyLength, m')
                      else if length sigBytes \<noteq> 64 then (Inl InvalidSignatureLength, m')
                      else if \<not> nacl_verify env (utf8 expectedMessage) sigBytes pubkeyBytes
                        then (Inl SignatureFailed, m')
                      else (Inr (Some \<lparr> ac_verifiedAddress = address, ac_cluster = cluster \<rparr>), m')
                  | _ \<Rightarrow> (Inl MalformedBase58, m'))))
      | _ \<Rightarrow> (Inl MissingHeaders, m))"

text \<open>The endpoint that hands out nonces; a body without a string \<open>address\<close> is \<open>None\<close>.\<close>

definition post_nonce :: "int \<Rightarrow> int \<Rightarrow> bytes \<Rightarrow> string option \<Rightarrow> nonce_store \<Rightarrow> string option \<times> nonce_store" where
  "post_nonce now1 now2 rnd address m =
     (case header address of None \<Rightarrow> (None, m)
      | Some a \<Rightarrow> (let (n, m') = issue now1 now2 rnd a m in (Some n, m')))"

section \<open>Runs of the server\<close>

datatype server_op =
    Op_nonce int int bytes "string option"
  | Op_request int int request

datatype server_entry =
    Handed string string int
  | Accepted request AuthContext int
  | Refused

definition serve :: "auth_env \<Rightarrow> string \<Rightarrow> server_op \<Rightarrow> nonce_store \<Rightarrow> server_entry \<times> nonce_store" where
  "serve env domain opn m = (case opn of
     Op_nonce now1 now2 rnd address \<Rightarrow>
       (case post_nonce now1 now2 rnd address m of
          (None, m') \<Rightarrow> (Refused, m') | (Some n, m') \<Rightarrow> (Handed n (the (header address)) now2, m'))
   | Op_request now1 now2 c \<Rightarrow>
       (case authMiddleware env domain now1 now2 c m of
          (Inr (Some ctx), m') \<Rightarrow> (Accepted c ctx now2, m') | (_, m') \<Rightarrow> (Refused, m')))"

fun serve_all :: "auth_env \<Rightarrow> string \<Rightarrow> server_op list \<Rightarrow> nonce_store \<Rightarrow> server_entry list \<times> nonce_store" where
  "serve_all env domain [] m = ([], m)"
| "serve_all env domain (opn # ops) m =
     (let (e, m1) = serve env domain opn m; (es, m2) = serve_all env domain ops m1 in (e # es, m2))"

section \<open>What an accepted request has passed\<close>

lemma header_Some: "header h = Some x \<longleftrightarrow> h = Some x \<and> x \<noteq> []"
  by (cases h) auto

lemma authMiddleware_accepts:
  assumes "authMiddleware env domain now1 now2 c m = (Inr (Some ctx), m')"
  obtains address signature timestamp cluster nonce issuedAt pk sg
  where "rq_address c = Some address" "rq_signature c = Some signature" "rq_timestamp c = Some timestamp"
    "rq_cluster c = Some cluster" "rq_nonce c = Some nonce"
    "cluster = ''mainnet-beta'' \<or> cluster = ''devnet''"
    "Date_parse env timestamp = Some issuedAt" "\<bar>now1 - issuedAt\<bar> \<le> TIMESTAMP_TOLERANCE_MS"
    "consume now2 nonce address m = (True, m')"
    "bs58_decode env address = Some pk" "length pk = 32" "bs58_decode env signature = Some sg" "length sg = 64"
    "nacl_verify env (utf8 (buildSiwsMessage
       (signin_payload env domain address (rq_url c) cluster nonce timestamp issuedAt))) sg pk"
    "ctx = \<lparr> ac_verifiedAddress = address, ac_cluster = cluster \<rparr>"
  using assms that
  by (auto simp: authMiddleware_def Let_def header_Some not_less split: if_splits option.splits prod.splits bool.splits)

lemma consume_True:
  "consume now n a m = (True, m') \<longleftrightarrow>
     (\<exists>e. m n = Some e \<and> ne_address e = a \<and> now - ne_issuedAt e \<le> NONCE_TTL_MS) \<and> m' = m(n := None)"
  by (auto simp: consume_def split: option.splits if_splits)

text \<open>The store after a request is a part of the store before it.\<close>

lemma consume_sub: "consume now n a m = (b, m') \<Longrightarrow> m' \<subseteq>\<^sub>m m"
  by (auto simp: consume_def map_le_def split: option.splits if_splits)

lemma authMiddleware_sub: "authMiddleware env domain now1 now2 c m = (r, m') \<Longrightarrow> m' \<subseteq>\<^sub>m m"
  by (auto simp: authMiddleware_def Let_def dest: consume_sub
      split: if_splits option.splits prod.splits bool.splits)

section \<open>The store is covered by the log\<close>

fun uses_nonce :: "string \<Rightarrow> server_entry \<Rightarrow> bool" where
  "uses_nonce n (Accepted c ctx t) = (rq_nonce c = Some n)"
| "uses_nonce n _ = False"

definition handed_unused :: "server_entry list \<Rightarrow> string \<Rightarrow> string \<Rightarrow> int \<Rightarrow> bool" where
  "handed_unused log n a t \<longleftrightarrow> (\<exists>l1 l2. log = l1 @ Handed n a t # l2 \<and> (\<forall>e\<in>set l2. \<not> uses_nonce n e))"

definition covered :: "server_entry list \<Rightarrow> nonce_store \<Rightarrow> bool" where
  "covered log m \<longleftrightarrow> (\<forall>n e. m n = Some e \<longrightarrow> handed_unused log n (ne_address e) (ne_issuedAt e))"

lemma handed_unused_snoc: "handed_unused log n a t \<Longrightarrow> \<not> uses_nonce n e \<Longrightarrow> handed_unused (log @ [e]) n a t"
  unfolding handed_unused_def by fastforce

lemma handed_unused_now: "handed_unused (log @ [Handed n a t]) n a t"
  unfolding handed_unused_def by fastforce

lemma covered_sub: "covered log m \<Longrightarrow> m' \<subseteq>\<^sub>m m \<Longrightarrow> covered log m'"
  by (fastforce simp: covered_def map_le_def dom_def)

lemma covered_snoc: "covered log m \<Longrightarrow> (\<And>n. m n \<noteq> None \<Longrightarrow> \<not> uses_nonce n e) \<Longrightarrow> covered (log @ [e]) m"
  by (auto simp: covered_def intro: handed_unused_snoc)

lemma gc_sub: "gc now m \<subseteq>\<^sub>m m"
  by (auto simp: gc_def map_le_def split: option.splits if_splits)

lemma serve_covered:
  assumes "covered log m" and "serve env domain opn m = (e, m')"
  shows "covered (log @ [e]) m'"
proof (cases opn)
  case (Op_nonce now1 now2 rnd address)
  show ?thesis
  proof (cases "header address")
    case None
    then show ?thesis using assms Op_nonce by (auto simp: serve_def post_nonce_def intro: covered_snoc)
  next
    case (Some a)
    then have e: "e = Handed (randomNonce rnd) a now2"
      "m' = (gc now1 m)(randomNonce rnd \<mapsto> \<lparr>ne_issuedAt = now2, ne_address = a\<rparr>)"
      using assms(2) Op_nonce by (simp_all add: serve_def post_nonce_def issue_def Let_def)
    have "covered (log @ [e]) (gc now1 m)"
      by (rule covered_snoc [OF covered_sub [OF assms(1) gc_sub]]) (simp add: e)
    then show ?thesis using handed_unused_now by (auto simp: covered_def e)
  qed
next
  case (Op_request now1 now2 c)
  obtain r where r: "authMiddleware env domain now1 now2 c m = (r, m')"
    using assms(2) Op_request by (auto simp: serve_def split: prod.splits sum.splits option.splits)
  have cov: "covered log m'" by (rule covered_sub [OF assms(1) authMiddleware_sub [OF r]])
  show ?thesis
  proof (rule covered_snoc [OF cov])
    fix n assume n: "m' n \<noteq> None"
    show "\<not> uses_nonce n e"
    proof
      assume u: "uses_nonce n e"
      then obtain ctx where "r = Inr (Some ctx)" "rq_nonce c = Some n"
        using assms(2) Op_request r by (auto simp: serve_def split: sum.splits option.splits)
      then show False using r n by (auto elim!: authMiddleware_accepts simp: consume_True)
    qed
  qed
qed

text \<open>An accepted request used a nonce that was handed to its address and not used since.\<close>

definition signin_ok :: "auth_env \<Rightarrow> string \<Rightarrow> server_entry list \<Rightarrow> request \<Rightarrow> AuthContext \<Rightarrow> int \<Rightarrow> bool" where
  "signin_ok env domain log c ctx t \<longleftrightarrow> (\<exists>signature timestamp nonce issuedAt pk sg t0.
     rq_address c = Some (ac_verifiedAddress ctx) \<and> rq_signature c = Some signature
     \<and> rq_timestamp c = Some timestamp \<and> rq_cluster c = Some (ac_cluster ctx) \<and> rq_nonce c = Some nonce
     \<and> Date_parse env timestamp = Some issuedAt
     \<and> handed_unused log nonce (ac_verifiedAddress ctx) t0 \<and> t - t0 \<le> 300000
     \<and> bs58_decode env (ac_verifiedAddress ctx) = Some pk \<and> length pk = 32
     \<and> bs58_decode env signature = Some sg \<and> length sg = 64
     \<and> nacl_verify env (utf8 (buildSiwsMessage (signin_payload env domain (ac_verifiedAddress ctx) (rq_url c)
          (ac_cluster ctx) nonce timestamp issuedAt))) sg pk)"

lemma serve_accepts:
  assumes "covered log m" and "serve env domain opn m = (Accepted c ctx t, m')"
  shows "signin_ok env domain log c ctx t"
proof -
  obtain now1 where "authMiddleware env domain now1 t c m = (Inr (Some ctx), m')"
    using assms(2) by (auto simp: serve_def split: server_op.splits prod.splits sum.splits option.splits)
  then show ?thesis
  proof (rule authMiddleware_accepts)
    fix address signature timestamp cluster nonce issuedAt pk sg
    assume *: "rq_address c = Some address" "rq_signature c = Some signature" "rq_timestamp c = Some timestamp"
      "rq_cluster c = Some cluster" "rq_nonce c = Some nonce" "Date_parse env timestamp = Some issuedAt"
      "bs58_decode env address = Some pk" "length pk = 32" "bs58_decode env signature = Some sg" "length sg = 64"
      "nacl_verify env (utf8 (buildSiwsMessage
         (signin_payload env domain address (rq_url c) cluster nonce timestamp issuedAt))) sg pk"
      "ctx = \<lparr> ac_verifiedAddress = address, ac_cluster = cluster \<rparr>"
    assume "consume t nonce address m = (True, m')"
    then obtain e where "m nonce = Some e" "ne_address e = address" "t - ne_issuedAt e \<le> NONCE_TTL_MS"
      by (auto simp: consume_True)
    then have "handed_unused log nonce address (ne_issuedAt e)" "t - ne_issuedAt e \<le> 300000"
      using assms(1) by (auto simp: covered_def NONCE_TTL_MS_def)
    with * show ?thesis by (auto simp: signin_ok_def)
  qed
qed

lemma serve_all_accepts:
  "covered log m \<Longrightarrow> fst (serve_all env domain ops m) = l1 @ Accepted c ctx t # l2
     \<Longrightarrow> signin_ok env domain (log @ l1) c ctx t"
proof (induction ops arbitrary: log m l1)
  case (Cons opn ops)
  obtain e m1 where e: "serve env domain opn m = (e, m1)" by fastforce
  from Cons.prems(2) have run: "e # fst (serve_all env domain ops m1) = l1 @ Accepted c ctx t # l2"
    by (simp add: e split: prod.splits)
  show ?case
  proof (cases l1)
    case Nil
    then show ?thesis using run e serve_accepts [OF Cons.prems(1)] by auto
  next
    case (Cons e' l1')
    then show ?thesis
      using run Cons.IH [OF serve_covered [OF Cons.prems(1) e], of l1'] by simp
  qed
qed simp

section \<open>The message determines the payload\<close>

lemma join_lines_Cons: "ls \<noteq> [] \<Longrightarrow> join_lines (l # ls) = l @ CHR 0x0A # join_lines ls"
  by (cases ls) simp_all

lemma first_line:
  assumes "CHR 0x0A \<notin> set x" "CHR 0x0A \<notin> set y" "x @ CHR 0x0A # s = y @ CHR 0x0A # t"
  shows "x = y \<and> s = t"
  using assms by (induction x arbitrary: y) (auto simp: Cons_eq_append_conv)

lemma join_lines_inj:
  assumes "xs \<noteq> []" "ys \<noteq> []" "\<forall>l\<in>set xs. CHR 0x0A \<notin> set l" "\<forall>l\<in>set ys. CHR 0x0A \<notin> set l"
    and "join_lines xs = join_lines ys"
  shows "xs = ys"
  using assms
proof (induction xs arbitrary: ys)
  case (Cons x xs)
  obtain y ys' where ys: "ys = y # ys'" using Cons.prems(2) by (cases ys) auto
  have nl: "CHR 0x0A \<in> set (join_lines (l # ls))" if "ls \<noteq> []" for l ls using that by (simp add: join_lines_Cons)
  show ?case
  proof (cases "xs = [] \<or> ys' = []")
    case True
    have "CHR 0x0A \<notin> set (join_lines (x # xs)) \<or> CHR 0x0A \<notin> set (join_lines (y # ys'))"
      using True Cons.prems(3,4) by (auto simp: ys)
    then have "xs = []" "ys' = []" using nl [of xs x] nl [of ys' y] Cons.prems(5) unfolding ys by metis+
    then show ?thesis using Cons.prems(5) by (simp add: ys)
  next
    case False
    then have "x = y \<and> join_lines xs = join_lines ys'"
      using Cons.prems(3-5) by (intro first_line) (simp_all add: ys join_lines_Cons)
    then show ?thesis using Cons.IH [of ys'] Cons.prems(3,4) False by (simp add: ys)
  qed
qed simp

definition plain_payload :: "SiwsPayload \<Rightarrow> bool" where
  "plain_payload p \<longleftrightarrow> (\<forall>l\<in>set (siws_lines p). CHR 0x0A \<notin> set l)"

definition listed_resources :: "SiwsPayload \<Rightarrow> string list" where
  "listed_resources p = (case sp_resources p of None \<Rightarrow> [] | Some rs \<Rightarrow> rs)"

definition siws_head :: "SiwsPayload \<Rightarrow> string list" where
  "siws_head p =
     [sp_domain p @ '' wants you to sign in with your Solana account:'',
      sp_address p,
      '''',
      sp_statement p,
      '''',
      ''URI: '' @ sp_uri p,
      ''Version: '' @ sp_version p,
      ''Chain ID: '' @ sp_chainId p,
      ''Nonce: '' @ sp_nonce p,
      ''Issued At: '' @ sp_issuedAt p,
      ''Expiration Time: '' @ sp_expirationTime p]"

definition siws_tail :: "SiwsPayload \<Rightarrow> string list" where
  "siws_tail p = (if listed_resources p = [] then []
     else ''Resources:'' # map (\<lambda>r. ''- '' @ r) (listed_resources p))"

lemma siws_lines_split: "siws_lines p = siws_head p @ siws_tail p"
  by (simp add: siws_lines_def siws_head_def siws_tail_def listed_resources_def split: option.split)

lemma length_siws_head: "length (siws_head p) = 11"
  by (simp add: siws_head_def)

lemma resource_lines_inj: "map (\<lambda>r. ''- '' @ r) rs = map (\<lambda>r. ''- '' @ r) qs \<Longrightarrow> rs = qs"
  by (rule map_inj_on [where f = "\<lambda>r. ''- '' @ r"]) (simp_all add: inj_on_def)

lemma siws_tail_inj: "siws_tail p = siws_tail q \<Longrightarrow> listed_resources p = listed_resources q"
  unfolding siws_tail_def by (cases "listed_resources p = []"; cases "listed_resources q = []") (auto dest: resource_lines_inj)

lemma siws_head_inj:
  assumes "siws_head p = siws_head q"
  shows "sp_domain p = sp_domain q \<and> sp_address p = sp_address q \<and> sp_statement p = sp_statement q
    \<and> sp_uri p = sp_uri q \<and> sp_version p = sp_version q \<and> sp_chainId p = sp_chainId q \<and> sp_nonce p = sp_nonce q
    \<and> sp_issuedAt p = sp_issuedAt q \<and> sp_expirationTime p = sp_expirationTime q"
  using assms unfolding siws_head_def list.inject append_same_eq same_append_eq by blast

text \<open>
  The signed text binds every field.  When no field contains a line break, which HTTP headers
  cannot, two payloads with the same message agree in domain, address, statement, URI, version,
  chain, nonce, both times and the listed resources: a signature made for one request, cluster or
  nonce is not one for another.
\<close>

theorem siws_message_binds_payload:
  assumes "plain_payload p" and "plain_payload q" and "buildSiwsMessage p = buildSiwsMessage q"
  shows "sp_domain p = sp_domain q \<and> sp_address p = sp_address q \<and> sp_statement p = sp_statement q
    \<and> sp_uri p = sp_uri q \<and> sp_version p = sp_version q \<and> sp_chainId p = sp_chainId q \<and> sp_nonce p = sp_nonce q
    \<and> sp_issuedAt p = sp_issuedAt q \<and> sp_expirationTime p = sp_expirationTime q
    \<and> listed_resources p = listed_resources q"
proof -
  have ne: "siws_lines r \<noteq> []" for r by (simp add: siws_lines_def)
  have eq: "siws_lines p = siws_lines q"
    using assms by (intro join_lines_inj [OF ne ne]) (simp_all add: plain_payload_def buildSiwsMessage_def)
  have ht: "siws_head p = siws_head q" "siws_tail p = siws_tail q"
    using eq [unfolded siws_lines_split] append_eq_append_conv [of "siws_head p" "siws_head q"]
    by (simp_all add: length_siws_head)
  from ht(2) have "listed_resources p = listed_resources q" by (rule siws_tail_inj)
  with siws_head_inj [OF ht(1)] show ?thesis by blast
qed

definition example_payload :: "string list option \<Rightarrow> SiwsPayload" where
  "example_payload rs = \<lparr> sp_domain = ''credmesh.xyz'', sp_address = ''A'', sp_statement = ''Authenticate to CredMesh'',
     sp_uri = ''https://credmesh.xyz/x'', sp_version = ''1'', sp_chainId = ''solana:devnet'', sp_nonce = ''00'',
     sp_issuedAt = ''t'', sp_expirationTime = ''u'', sp_resources = rs \<rparr>"

theorem siws_message_witness:
  "listed_resources (example_payload None) = listed_resources (example_payload (Some []))"
proof -
  have "plain_payload (example_payload None)" "plain_payload (example_payload (Some []))"
    "buildSiwsMessage (example_payload None) = buildSiwsMessage (example_payload (Some []))" by code_simp+
  from siws_message_binds_payload [OF this] show ?thesis by blast
qed

section \<open>Sign-in is fresh and one-shot\<close>

text \<open>
  C30: in every run of nonce requests and requests behind the middleware, from an empty store, a
  request that passes the middleware as an address carries a nonce which the server handed to that address at most five minutes before and
  which no accepted request has used since; the address decodes to a 32-byte key under which the
  64-byte signature verifies on the canonical message with this server's domain, the address, the
  request's URL, its cluster, nonce and timestamp.  (The server at this commit mounts the nonce
  endpoint only; the run is that of a server which also mounts the middleware of \<^verbatim>\<open>auth.ts\<close>.)
\<close>

theorem sign_in_fresh_and_one_shot:
  assumes "fst (serve_all env domain ops Map.empty) = l1 @ Accepted c ctx t # l2"
  shows "\<exists>signature timestamp nonce issuedAt pk sg t0 h1 h2.
     rq_address c = Some (ac_verifiedAddress ctx) \<and> rq_signature c = Some signature
     \<and> rq_timestamp c = Some timestamp \<and> rq_cluster c = Some (ac_cluster ctx) \<and> rq_nonce c = Some nonce
     \<and> Date_parse env timestamp = Some issuedAt
     \<and> l1 = h1 @ Handed nonce (ac_verifiedAddress ctx) t0 # h2 \<and> t - t0 \<le> 300000
     \<and> (\<forall>e\<in>set h2. \<not> uses_nonce nonce e)
     \<and> bs58_decode env (ac_verifiedAddress ctx) = Some pk \<and> length pk = 32
     \<and> bs58_decode env signature = Some sg \<and> length sg = 64
     \<and> nacl_verify env (utf8 (buildSiwsMessage (signin_payload env domain (ac_verifiedAddress ctx) (rq_url c)
          (ac_cluster ctx) nonce timestamp issuedAt))) sg pk"
proof -
  have "covered [] Map.empty" by (simp add: covered_def)
  from serve_all_accepts [OF this assms] show ?thesis
    unfolding signin_ok_def handed_unused_def append_Nil by blast
qed

text \<open>
  A run with one sign-in.  The accepted message says that it expired five minutes before the
  request: the middleware never compares the expiration time with the clock.
\<close>

definition example_auth_env :: auth_env where
  "example_auth_env = \<lparr> Date_parse = (\<lambda>s. if s = ''0'' then Some 0 else None),
     toISOString = (\<lambda>t. if t = 300000 then ''300000'' else ''?''),
     bs58_decode = (\<lambda>s. Some (replicate (if s = ''sig'' then 64 else 32) 1)),
     nacl_verify = (\<lambda>m s k. True) \<rparr>"

definition example_request :: request where
  "example_request = \<lparr> rq_method = ''POST'', rq_url = ''https://credmesh.xyz/x'', rq_address = Some ''A'',
     rq_signature = Some ''sig'', rq_timestamp = Some ''0'', rq_cluster = Some ''devnet'',
     rq_nonce = Some (randomNonce [171]) \<rparr>"

definition example_ops :: "server_op list" where
  "example_ops = [Op_nonce 599000 599000 [171] (Some ''A''), Op_request 600000 600000 example_request,
     Op_request 600001 600001 example_request]"

lemma expired_message_accepted:
  "fst (serve_all example_auth_env ''credmesh.xyz'' example_ops Map.empty)
     = [Handed ''ab'' ''A'' 599000,
        Accepted example_request \<lparr> ac_verifiedAddress = ''A'', ac_cluster = ''devnet'' \<rparr> 600000, Refused]
   \<and> sp_expirationTime (signin_payload example_auth_env ''credmesh.xyz'' ''A'' ''https://credmesh.xyz/x'' ''devnet'' ''ab'' ''0'' 0)
     = toISOString example_auth_env 300000"
  by code_simp

theorem sign_in_witness:
  "\<exists>h1 h2 t0. [Handed ''ab'' ''A'' 599000] = h1 @ Handed ''ab'' ''A'' t0 # h2 \<and> 600000 - t0 \<le> (300000 :: int)"
proof -
  have "rq_nonce example_request = Some ''ab''" by code_simp
  then show ?thesis
    using sign_in_fresh_and_one_shot [of example_auth_env "''credmesh.xyz''" example_ops "[Handed ''ab'' ''A'' 599000]"
      example_request "\<lparr> ac_verifiedAddress = ''A'', ac_cluster = ''devnet'' \<rparr>" 600000 "[Refused]"]
      expired_message_accepted by auto
qed

end
