(* ===== verification/Origination_Properties.thy ===== *)
theory Origination_Properties
  imports Origination Bridge_Properties Example_Reachable
begin

text \<open>
  From quote to advance: bridge, registry and escrow together.
\<close>

lemma quoted_draw_possible:
  assumes env: "environment rt" and prog: "spl_progress rt" and wf: "accounts_wf rt w"
    and quote: "handleQuote env cfg T body = Inr r"
    and keys: "address_bytes env (agent_pubkey_b58 body) = Some g" "address_bytes env (pool_pubkey_b58 body) = Some P"
      "parse_nonce (nonce_hex body) = Inr nonce"
    and P: "accounts w P = Some (PoolAccount pool)" "pool_chain_id pool = word_of_int (solanaChainId cfg)"
    and s: "accounts w (fst (find_program_address rt [ALLOWED_SIGNER_SEED, as_signer s] ATTESTOR_REGISTRY))
        = Some (AllowedSignerAccount s)"
    and tx: "verify_prev_ed25519 (tx_sysvar tx) = Inr (as_signer s, q_message r)" "g \<in> set (tx_signers tx)"
      "T \<le> sint (tx_now tx)" "sint (tx_now tx) < q_expires_at r"
    and new: "receivable_is_new rt w P g rid" and pay: "advance_payable rt w P pool g (unat amount)"
    and size: "1000000 \<le> unat amount" "amount \<le> max_advance_abs pool"
    and credit: "int (unat amount) + q_outstanding r + int (ledger_debt w (ledger_address rt P g)) \<le> q_credit_limit r"
    and room: "window_has_room w (ledger_address rt P g) (tx_now tx) (agent_window_cap pool) amount"
    and idle: "unat (deployed_amount pool) + unat amount \<le> unat (total_assets pool)"
  shows "\<exists>w' fee. request_advance rt tx (request_accounts_for rt P pool g rid (as_signer s)) rid amount nonce w
     = Inr (w', AdvanceIssued P g (fst (find_program_address rt [ADVANCE_SEED, P, g, rid] ESCROW)) amount fee
         (word_of_int (q_expires_at r)) (as_signer s))"
proof -
  have kind: "as_kind s = AttestorKind_as_u8 CreditBridge" using accounts_wf_D [OF wf s] by simp
  obtain att where
    att: "verify_attestation (tx_sysvar tx) (tx_now tx) s g P (pool_chain_id pool) nonce = Inr att"
      "att_signer att = as_signer s" "sint (att_expires_at att) = q_expires_at r"
    and lim: "uint (att_credit_limit att) = q_credit_limit r" "uint (att_outstanding att) = q_outstanding r"
  proof (rule quoted_attestation [OF quote tx(1) kind tx(3,4)])
    fix g' P' nonce' evm snap att
    assume "address_bytes env (agent_pubkey_b58 body) = Some g'" "address_bytes env (pool_pubkey_b58 body) = Some P'"
      "parse_nonce (nonce_hex body) = Inr nonce'"
      "verify_attestation (tx_sysvar tx) (tx_now tx) s g' P' (word_of_int (solanaChainId cfg)) nonce' = Inr att"
      "att_signer att = as_signer s" "uint (att_credit_limit att) = snap_limit snap"
      "uint (att_outstanding att) = snap_outstanding snap" "q_credit_limit r = snap_limit snap"
      "q_outstanding r = snap_outstanding snap" "sint (att_expires_at att) = q_expires_at r"
    moreover from this(1-3) have "g' = g" "P' = P" "nonce' = nonce" using keys by auto
    ultimately show thesis using P(2) by (intro that [of att]) (simp_all only:)
  qed
  have e: "att_expires_at att = word_of_int (q_expires_at r)" by (simp flip: att(3))
  have "int (unat amount + unat (att_outstanding att) + ledger_debt w (ledger_address rt P g)) \<le> int (unat (att_credit_limit att))"
    using credit by (simp only: lim [symmetric] uint_nat of_nat_add)
  then have "unat amount + unat (att_outstanding att) + ledger_debt w (ledger_address rt P g) \<le> unat (att_credit_limit att)"
    by (simp only: of_nat_le_iff)
  from advance_possible [OF env prog wf P(1) s att(1) tx(2) new pay size this room idle]
  show ?thesis by (simp only: e att(2))
qed

text \<open>
  C17: a quoted agent can draw.  In a reachable state, let the bridge have quoted for an agent and
  a pool of the bridge's chain, and let the agent sign a transaction that carries the quoted
  message, signed by a registered bridge key, while the quote is valid.  If the receivable is new,
  the amount is at least one USDC, within the pool's cap, its idle assets and the window, and
  together with the quoted and the on-chain debt within the quoted limit, and the vault can pay
  the agent's token account, then \<open>request_advance\<close> with the derived accounts succeeds and
  issues the advance with the quoted expiry.
\<close>

theorem quoted_agent_can_draw:
  assumes "environment rt" and "spl_progress rt" and "reachable rt w"
    and "handleQuote env cfg T body = Inr r"
    and "address_bytes env (agent_pubkey_b58 body) = Some g" and "address_bytes env (pool_pubkey_b58 body) = Some P"
    and "parse_nonce (nonce_hex body) = Inr nonce"
    and "accounts w P = Some (PoolAccount pool)" and "pool_chain_id pool = word_of_int (solanaChainId cfg)"
    and "accounts w (fst (find_program_address rt [ALLOWED_SIGNER_SEED, as_signer s] ATTESTOR_REGISTRY))
        = Some (AllowedSignerAccount s)"
    and "verify_prev_ed25519 (tx_sysvar tx) = Inr (as_signer s, q_message r)" and "g \<in> set (tx_signers tx)"
    and "T \<le> sint (tx_now tx)" and "sint (tx_now tx) < q_expires_at r"
    and "receivable_is_new rt w P g rid" and "advance_payable rt w P pool g (unat amount)"
    and "1000000 \<le> unat amount" and "amount \<le> max_advance_abs pool"
    and "int (unat amount) + q_outstanding r + int (ledger_debt w (ledger_address rt P g)) \<le> q_credit_limit r"
    and "window_has_room w (ledger_address rt P g) (tx_now tx) (agent_window_cap pool) amount"
    and "unat (deployed_amount pool) + unat amount \<le> unat (total_assets pool)"
  shows "\<exists>w' fee. request_advance rt tx (request_accounts_for rt P pool g rid (as_signer s)) rid amount nonce w
     = Inr (w', AdvanceIssued P g (fst (find_program_address rt [ADVANCE_SEED, P, g, rid] ESCROW)) amount fee
         (word_of_int (q_expires_at r)) (as_signer s))"
  using reachable_wf [OF assms(1,3)] by (rule quoted_draw_possible [OF assms(1,2) _ assms(4-21)])

definition tx_quoted :: transaction where
  "tx_quoted = \<lparr> tx_signers = [agent], tx_now = 1000,
     tx_sysvar = sysvar_of (plain_ix ED25519 (ed25519_data bridge (q_message quote_reply) (q_signature quote_reply))) \<rparr>"

lemma quoted_agent_can_draw_witness:
  "\<exists>w' fee. request_advance ref_runtime tx_quoted (request_accounts_for ref_runtime pool_key
       (example_pool 2000000000 2000000000000 0 0) agent receivable bridge) receivable 300000000 nonce16 world_funded
     = Inr (w', AdvanceIssued pool_key agent (fst (find_program_address ref_runtime
         [ADVANCE_SEED, pool_key, agent, receivable] ESCROW)) 300000000 fee (word_of_int 1500) bridge)"
proof -
  let ?p = "example_pool 2000000000 2000000000000 0 0"
  have sg: "as_signer example_signer = bridge" "q_expires_at quote_reply = 1500" "q_outstanding quote_reply = 50000000"
    "q_credit_limit quote_reply = 400000000"
    by (simp_all add: example_signer_def quote_reply_def)
  have st: "receivable_is_new ref_runtime world_funded pool_key agent receivable"
    "accounts world_funded (fst (find_program_address ref_runtime [ALLOWED_SIGNER_SEED, as_signer example_signer] ATTESTOR_REGISTRY))
       = Some (AllowedSignerAccount example_signer)"
    "ledger_debt world_funded (ledger_address ref_runtime pool_key agent) = 0"
    "window_has_room world_funded (ledger_address ref_runtime pool_key agent) (tx_now tx_quoted) (agent_window_cap ?p) 300000000"
    by code_simp+
  have p: "accounts world_funded pool_key = Some (PoolAccount ?p)" "pool_chain_id ?p = 2"
    "unat (300000000 :: u64) = 300000000" "300000000 \<le> max_advance_abs ?p"
    "unat (deployed_amount ?p) + 300000000 \<le> unat (total_assets ?p)"
    by (simp_all add: world_funded_def example_pool_def)
  have "ledger_address ref_runtime pool_key agent = ledger_key"
    by (simp add: ledger_address_def ledger_key_def ref_runtime_def)
  then have pay: "advance_payable ref_runtime world_funded pool_key ?p agent 300000000"
    by (simp add: advance_payable_def Let_def usable_def owned_by_def balance_def example_tokens_def token_account_def
        example_pool_def ref_runtime_def agent_usdc_def [symmetric])
  have "length (q_signature quote_reply) = 64" by (simp add: quote_reply_def)
  then have "verify_prev_ed25519 (tx_sysvar tx_quoted) = Inr (as_signer example_signer, q_message quote_reply)"
    by (simp add: carried_message quoted_message quote_keys sg tx_quoted_def)
  moreover have "address_bytes quote_env (agent_pubkey_b58 quote_body) = Some agent"
    "address_bytes quote_env (pool_pubkey_b58 quote_body) = Some pool_key"
    "parse_nonce (nonce_hex quote_body) = Inr nonce16" "solanaChainId quote_cfg = 2"
    using base58_notation_inj [of pool_key agent] quote_keys
    by (auto simp: quote_env_def quote_body_def quote_cfg_def nonce_round_trip)
  ultimately show ?thesis
    using quoted_agent_can_draw [OF ref_environment ref_spl_progress examples_reachable(1) quote_runs,
        of agent pool_key nonce16 ?p example_signer tx_quoted receivable 300000000] st p pay
    by (simp add: sg tx_quoted_def)
qed

end
