(* ===== verification/Wire.thy ===== *)
theory Wire
  imports Borsh Liquidity Settlement Attestor_Registry
begin

text \<open>
  Instructions on the wire, for the four instructions that clients of the repository build: what
  the entry point that \<^verbatim>\<open>#[program]\<close> and \<^verbatim>\<open>#[derive(Accounts)]\<close> generate reads from the accounts and
  the data of an instruction.  Accounts are taken in the order of the struct, the data are the
  8-byte discriminator of the method and its arguments in Borsh; bytes after them are ignored.
\<close>

section \<open>Arguments\<close>

definition put_InitPoolParams :: "InitPoolParams \<Rightarrow> bytes" where
  "put_InitPoolParams x =
     put_FeeCurve (ipp_fee_curve x) @ put_u16 (ipp_max_advance_pct_bps x) @ put_u64 (ipp_max_advance_abs x)
     @ put_u64 (ipp_timelock_seconds x) @ ipp_governance x @ ipp_treasury_ata x
     @ put_u64 (ipp_chain_id x) @ put_u64 (ipp_agent_window_cap x)"

definition get_InitPoolParams :: "bytes \<Rightarrow> (InitPoolParams \<times> bytes) option" where
  "get_InitPoolParams b0 =
     Option.bind (get_FeeCurve b0) (\<lambda>(v_fee_curve, b1).
     Option.bind (get_u16 b1) (\<lambda>(v_max_advance_pct_bps, b2).
     Option.bind (get_u64 b2) (\<lambda>(v_max_advance_abs, b3).
     Option.bind (get_u64 b3) (\<lambda>(v_timelock_seconds, b4).
     Option.bind (get_bytes 32 b4) (\<lambda>(v_governance, b5).
     Option.bind (get_bytes 32 b5) (\<lambda>(v_treasury_ata, b6).
     Option.bind (get_u64 b6) (\<lambda>(v_chain_id, b7).
     Option.bind (get_u64 b7) (\<lambda>(v_agent_window_cap, b8).
     Some (\<lparr> ipp_fee_curve = v_fee_curve, ipp_max_advance_pct_bps = v_max_advance_pct_bps,
       ipp_max_advance_abs = v_max_advance_abs, ipp_timelock_seconds = v_timelock_seconds,
       ipp_governance = v_governance, ipp_treasury_ata = v_treasury_ata, ipp_chain_id = v_chain_id,
       ipp_agent_window_cap = v_agent_window_cap \<rparr>, b8)))))))))"

definition InitPoolParams_typed :: "InitPoolParams \<Rightarrow> bool" where
  "InitPoolParams_typed x \<longleftrightarrow> length (ipp_governance x) = 32 \<and> length (ipp_treasury_ata x) = 32"

interpretation InitPoolParams: codec put_InitPoolParams get_InitPoolParams InitPoolParams_typed 112
  using FeeCurve.put_size
  by unfold_locales (simp_all add: put_InitPoolParams_def get_InitPoolParams_def InitPoolParams_typed_def
      FeeCurve.get_put add_mono)

definition ix_args :: "(string \<Rightarrow> bytes) \<Rightarrow> string \<Rightarrow> bytes \<Rightarrow> bytes option" where
  "ix_args disc name data = (if 8 \<le> length data \<and> take 8 data = disc name then Some (drop 8 data) else None)"

fun InitPool_of_keys :: "AccountMeta list \<Rightarrow> InitPool option" where
  "InitPool_of_keys (deployer # pool # asset_mint # share_mint # usdc_vault # token_program # system_program' # rent # _) =
     Some \<lparr> ip_deployer = meta_pubkey deployer, ip_pool = meta_pubkey pool, ip_asset_mint = meta_pubkey asset_mint,
            ip_share_mint = meta_pubkey share_mint, ip_usdc_vault = meta_pubkey usdc_vault \<rparr>"
| "InitPool_of_keys _ = None"

definition decode_init_pool :: "(string \<Rightarrow> bytes) \<Rightarrow> AccountMeta list \<Rightarrow> bytes \<Rightarrow> (InitPool \<times> InitPoolParams) option" where
  "decode_init_pool disc keys data =
     Option.bind (ix_args disc ''init_pool'' data) (\<lambda>args.
     Option.bind (get_InitPoolParams args) (\<lambda>(params, _).
     Option.bind (InitPool_of_keys keys) (\<lambda>a. Some (a, params))))"

fun InitRegistry_of_keys :: "AccountMeta list \<Rightarrow> InitRegistry option" where
  "InitRegistry_of_keys (deployer # config # system_program' # _) =
     Some \<lparr> ir_deployer = meta_pubkey deployer, ir_config = meta_pubkey config \<rparr>"
| "InitRegistry_of_keys _ = None"

definition decode_init_registry :: "(string \<Rightarrow> bytes) \<Rightarrow> AccountMeta list \<Rightarrow> bytes \<Rightarrow> (InitRegistry \<times> pubkey) option" where
  "decode_init_registry disc keys data =
     Option.bind (ix_args disc ''init_registry'' data) (\<lambda>args.
     Option.bind (get_bytes 32 args) (\<lambda>(gov, _).
     Option.bind (InitRegistry_of_keys keys) (\<lambda>a. Some (a, gov))))"

fun AddAllowedSigner_of_keys :: "AccountMeta list \<Rightarrow> AddAllowedSigner option" where
  "AddAllowedSigner_of_keys (cranker # config # allowed_signer # instructions # system_program' # _) =
     Some \<lparr> aa_cranker = meta_pubkey cranker, aa_config = meta_pubkey config, aa_allowed_signer = meta_pubkey allowed_signer \<rparr>"
| "AddAllowedSigner_of_keys _ = None"

definition decode_add_allowed_signer ::
  "(string \<Rightarrow> bytes) \<Rightarrow> AccountMeta list \<Rightarrow> bytes \<Rightarrow> (AddAllowedSigner \<times> pubkey \<times> u8) option" where
  "decode_add_allowed_signer disc keys data =
     Option.bind (ix_args disc ''add_allowed_signer'' data) (\<lambda>args.
     Option.bind (get_bytes 32 args) (\<lambda>(signer, b1).
     Option.bind (get_u8 b1) (\<lambda>(kind, _).
     Option.bind (AddAllowedSigner_of_keys keys) (\<lambda>a. Some (a, signer, kind)))))"

fun Liquidate_of_keys :: "AccountMeta list \<Rightarrow> Liquidate option" where
  "Liquidate_of_keys (cranker # advance # consumed # issuance_ledger # tombstone # pool # system_program' # _) =
     Some \<lparr> lq_cranker = meta_pubkey cranker, lq_advance = meta_pubkey advance, lq_consumed = meta_pubkey consumed,
            lq_issuance_ledger = meta_pubkey issuance_ledger, lq_tombstone = meta_pubkey tombstone,
            lq_pool = meta_pubkey pool \<rparr>"
| "Liquidate_of_keys _ = None"

definition decode_liquidate :: "(string \<Rightarrow> bytes) \<Rightarrow> AccountMeta list \<Rightarrow> bytes \<Rightarrow> Liquidate option" where
  "decode_liquidate disc keys data =
     Option.bind (ix_args disc ''liquidate'' data) (\<lambda>_. Liquidate_of_keys keys)"

lemma ix_args_append [simp]: "length (disc name) = 8 \<Longrightarrow> ix_args disc name (disc name @ args) = Some args"
  by (simp add: ix_args_def)

end
