(* ===== verification/Operator_Scripts.thy ===== *)
theory Operator_Scripts
  imports Bridge_Service Wire
begin

text \<open>
  The operator's command-line scripts: \<^verbatim>\<open>scripts/lib/cluster.ts\<close> (argument parser),
  \<^verbatim>\<open>scripts/init_pool.ts\<close>, \<^verbatim>\<open>scripts/init_registry.ts\<close> and \<^verbatim>\<open>scripts/add_allowed_signer.ts\<close>.  A script
  ends in the accounts and the data of one instruction (read by theory Wire on the other side), or
  in an error.

  Key parsing, the wallet, fresh key pairs, the look-up of an account and the hash behind a
  discriminator are fields of \<open>script_env\<close>.
\<close>

section \<open>Numbers on the command line\<close>

definition digit_value :: "char \<Rightarrow> nat option" where
  "digit_value c = (let n = of_char c :: nat in if 48 \<le> n \<and> n \<le> 57 then Some (n - 48) else None)"

definition is_digit :: "char \<Rightarrow> bool" where
  "is_digit c \<longleftrightarrow> digit_value c \<noteq> None"

definition decimal :: "string \<Rightarrow> int" where
  "decimal ds = foldl (\<lambda>n c. 10 * n + int (the (digit_value c))) 0 ds"

text \<open>\<^verbatim>\<open>parseInt(s, 10)\<close>; \<^verbatim>\<open>NaN\<close> is \<open>None\<close>.\<close>

definition parseInt10 :: "string \<Rightarrow> int option" where
  "parseInt10 s =
     (let (sgn, s1) = sign_split (dropWhile js_space s); ds = takeWhile is_digit s1 in
      if ds = [] then None else Some (sgn * decimal ds))"

text \<open>
  \<^verbatim>\<open>BigInt(s)\<close>: white space around the number is dropped, the empty text is 0, a sign goes with
  decimal digits only, prefixes give base 16, 8 or 2; everything else throws.
\<close>

definition based :: "int \<Rightarrow> string \<Rightarrow> int option" where
  "based b ds =
     (if ds \<noteq> [] \<and> list_all (\<lambda>c. case hex_value c of None \<Rightarrow> False | Some v \<Rightarrow> int v < b) ds
      then Some (foldl (\<lambda>n c. b * n + int (the (hex_value c))) 0 ds) else None)"

definition js_trim :: "string \<Rightarrow> string" where
  "js_trim s = rev (dropWhile js_space (rev (dropWhile js_space s)))"

definition BigInt_text :: "string \<Rightarrow> int option" where
  "BigInt_text s =
     (let t = js_trim s in
      if t = [] then Some 0
      else if take 2 t \<in> {''0x'', ''0X''} then based 16 (drop 2 t)
      else if take 2 t \<in> {''0o'', ''0O''} then based 8 (drop 2 t)
      else if take 2 t \<in> {''0b'', ''0B''} then based 2 (drop 2 t)
      else let (sgn, ds) = sign_split t in
           if ds \<noteq> [] \<and> list_all is_digit ds then Some (sgn * decimal ds) else None)"

section \<open>Arguments\<close>

datatype script_error =
    MissingArgs | BadKey | BadNumber | GovernanceIsDeployer | GovernanceIsZero | SignerIsZero | BadKind
  | AlreadyInitialised | ChainIdNotKnown | PctTooLarge | ValueOutOfRange

definition is_flag :: "string \<Rightarrow> bool" where
  "is_flag tok \<longleftrightarrow> take 2 tok = ''--''"

fun parse_argv :: "string list \<Rightarrow> (string \<rightharpoonup> string) \<Rightarrow> (string \<rightharpoonup> string)" where
  "parse_argv [] out = out"
| "parse_argv [tok] out = (if is_flag tok then out(drop 2 tok \<mapsto> ''true'') else out)"
| "parse_argv (tok # nxt # rest) out =
     (if \<not> is_flag tok then parse_argv (nxt # rest) out
      else if is_flag nxt then parse_argv (nxt # rest) (out(drop 2 tok \<mapsto> ''true''))
      else parse_argv rest (out(drop 2 tok \<mapsto> nxt)))"

definition parseArgs :: "string list \<Rightarrow> string list \<Rightarrow> script_error + (string \<rightharpoonup> string)" where
  "parseArgs argv required =
     (let out = parse_argv argv Map.empty in
      if list_all (\<lambda>k. out k \<noteq> None) required then Inr out else Inl MissingArgs)"

section \<open>Encoding of the pool's parameters\<close>

record TsFeeCurve =
  utilizationKinkBps :: int
  baseRateBps :: int
  kinkRateBps :: int
  maxRateBps :: int
  durationPerDayBps :: int
  riskPremiumBps :: int
  poolLossSurchargeBps :: int

definition DEFAULT_FEE_CURVE :: TsFeeCurve where
  "DEFAULT_FEE_CURVE = \<lparr> utilizationKinkBps = 8000, baseRateBps = 200, kinkRateBps = 1000, maxRateBps = 5000,
     durationPerDayBps = 5, riskPremiumBps = 100, poolLossSurchargeBps = 0 \<rparr>"

text \<open>Writes at an offset of a buffer.  \<^verbatim>\<open>NaN\<close> passes the range check of \<^verbatim>\<open>writeUInt16LE\<close> as 0.\<close>

definition write_at :: "nat \<Rightarrow> bytes \<Rightarrow> bytes \<Rightarrow> bytes" where
  "write_at off x buf = take off buf @ x @ drop (off + length x) buf"

definition writeUInt16LE :: "int option \<Rightarrow> nat \<Rightarrow> bytes \<Rightarrow> bytes option" where
  "writeUInt16LE v off buf =
     (case v of None \<Rightarrow> Some (write_at off [0, 0] buf)
      | Some n \<Rightarrow> if n > 65535 \<or> n < 0 then None else Some (write_at off (to_le_bytes 2 (nat n)) buf))"

definition writeBigUInt64LE :: "int \<Rightarrow> nat \<Rightarrow> bytes \<Rightarrow> bytes option" where
  "writeBigUInt64LE n off buf =
     (if n > 2 ^ 64 - 1 \<or> n < 0 then None else Some (write_at off (to_le_bytes 8 (nat n)) buf))"

definition writeBigInt64LE :: "int \<Rightarrow> nat \<Rightarrow> bytes \<Rightarrow> bytes option" where
  "writeBigInt64LE n off buf =
     (if n > 2 ^ 63 - 1 \<or> n < - (2 ^ 63) then None else Some (write_at off (to_le_bytes 8 (nat (n mod 2 ^ 64))) buf))"

definition encodeFeeCurve :: "TsFeeCurve \<Rightarrow> bytes option" where
  "encodeFeeCurve fc =
     Option.bind (writeUInt16LE (Some (utilizationKinkBps fc)) 0 (replicate 14 0)) (\<lambda>buf.
     Option.bind (writeUInt16LE (Some (baseRateBps fc)) 2 buf) (\<lambda>buf.
     Option.bind (writeUInt16LE (Some (kinkRateBps fc)) 4 buf) (\<lambda>buf.
     Option.bind (writeUInt16LE (Some (maxRateBps fc)) 6 buf) (\<lambda>buf.
     Option.bind (writeUInt16LE (Some (durationPerDayBps fc)) 8 buf) (\<lambda>buf.
     Option.bind (writeUInt16LE (Some (riskPremiumBps fc)) 10 buf) (\<lambda>buf.
     writeUInt16LE (Some (poolLossSurchargeBps fc)) 12 buf))))))"

record TsInitPoolParams =
  feeCurve :: TsFeeCurve
  maxAdvancePctBps :: "int option"
  maxAdvanceAbs :: int
  timelockSeconds :: int
  governance :: pubkey
  treasuryAta :: pubkey
  ts_chainId :: int
  agentWindowCap :: int

definition encodeInitPoolParams :: "TsInitPoolParams \<Rightarrow> bytes option" where
  "encodeInitPoolParams p =
     Option.bind (encodeFeeCurve (feeCurve p)) (\<lambda>fc.
     Option.bind (writeUInt16LE (maxAdvancePctBps p) 0 (replicate (2 + 8 + 8 + 32 + 32 + 8 + 8) 0)) (\<lambda>buf.
     Option.bind (writeBigUInt64LE (maxAdvanceAbs p) 2 buf) (\<lambda>buf.
     Option.bind (writeBigInt64LE (timelockSeconds p) 10 buf) (\<lambda>buf.
     let buf = write_at 18 (governance p) buf; buf = write_at 50 (treasuryAta p) buf in
     Option.bind (writeBigUInt64LE (ts_chainId p) 82 buf) (\<lambda>buf.
     Option.bind (writeBigUInt64LE (agentWindowCap p) 90 buf) (\<lambda>buf.
     Some (fc @ buf)))))))"

section \<open>The scripts\<close>

record script_env =
  PublicKey_of :: "string \<Rightarrow> pubkey option"
  getAccountInfo :: "pubkey \<Rightarrow> bool"
  findProgramAddressSync :: "bytes list \<Rightarrow> pubkey \<Rightarrow> pubkey \<times> u8"
  anchorDiscriminator :: "string \<Rightarrow> bytes"
  wallet_key :: pubkey
  fresh_share_mint :: pubkey
  fresh_usdc_vault :: pubkey
  TOKEN_PROGRAM_ID :: pubkey
  system_program :: pubkey
  SYSVAR_RENT_PUBKEY :: pubkey
  SYSVAR_INSTRUCTIONS_PUBKEY :: pubkey

definition key :: "pubkey \<Rightarrow> bool \<Rightarrow> bool \<Rightarrow> AccountMeta" where
  "key k signer writable = \<lparr> meta_pubkey = k, meta_is_signer = signer, meta_is_writable = writable \<rparr>"

definition arg :: "(string \<rightharpoonup> string) \<Rightarrow> string \<Rightarrow> string" where
  "arg args k = (case args k of None \<Rightarrow> [] | Some v \<Rightarrow> v)"

definition init_pool_required :: "string list" where
  "init_pool_required = [''cluster'', ''asset-mint'', ''governance'', ''treasury-ata'', ''max-advance-pct-bps'',
     ''max-advance-abs'', ''timelock-seconds'', ''chain-id'', ''agent-window-cap'']"

definition init_pool_params :: "(string \<rightharpoonup> string) \<Rightarrow> pubkey \<Rightarrow> pubkey \<Rightarrow> script_error + TsInitPoolParams" where
  "init_pool_params args gov treasury =
     and_then (ok_or (BigInt_text (arg args ''chain-id'')) BadNumber) (\<lambda>chain.
     and_then (require (chain = 1 \<or> chain = 2) ChainIdNotKnown) (\<lambda>_.
     and_then (ok_or (BigInt_text (arg args ''max-advance-abs'')) BadNumber) (\<lambda>max_abs.
     and_then (ok_or (BigInt_text (arg args ''timelock-seconds'')) BadNumber) (\<lambda>timelock.
     and_then (ok_or (BigInt_text (arg args ''agent-window-cap'')) BadNumber) (\<lambda>cap.
     let pct = parseInt10 (arg args ''max-advance-pct-bps'') in
     and_then (require (case pct of None \<Rightarrow> True | Some n \<Rightarrow> \<not> n > 10000) PctTooLarge) (\<lambda>_.
     Inr \<lparr> feeCurve = DEFAULT_FEE_CURVE, maxAdvancePctBps = pct, maxAdvanceAbs = max_abs, timelockSeconds = timelock,
           governance = gov, treasuryAta = treasury, ts_chainId = chain, agentWindowCap = cap \<rparr>))))))"

definition init_pool_script :: "script_env \<Rightarrow> string list \<Rightarrow> script_error + AccountMeta list \<times> bytes" where
  "init_pool_script env argv =
     and_then (parseArgs argv init_pool_required) (\<lambda>args.
     let deployer = wallet_key env in
     and_then (ok_or (PublicKey_of env (arg args ''asset-mint'')) BadKey) (\<lambda>assetMint.
     and_then (ok_or (PublicKey_of env (arg args ''governance'')) BadKey) (\<lambda>gov.
     and_then (ok_or (PublicKey_of env (arg args ''treasury-ata'')) BadKey) (\<lambda>treasury.
     and_then (require (gov \<noteq> deployer) GovernanceIsDeployer) (\<lambda>_.
     let poolPda = fst (findProgramAddressSync env [map of_char ''pool'', assetMint] ESCROW) in
     and_then (require (\<not> getAccountInfo env poolPda) AlreadyInitialised) (\<lambda>_.
     and_then (init_pool_params args gov treasury) (\<lambda>params.
     and_then (ok_or (encodeInitPoolParams params) ValueOutOfRange) (\<lambda>body.
     Inr ([key deployer True True, key poolPda False True, key assetMint False False,
           key (fresh_share_mint env) True True, key (fresh_usdc_vault env) True True,
           key (TOKEN_PROGRAM_ID env) False False, key (system_program env) False False,
           key (SYSVAR_RENT_PUBKEY env) False False],
          anchorDiscriminator env ''init_pool'' @ body)))))))))"

definition init_registry_script :: "script_env \<Rightarrow> string list \<Rightarrow> script_error + AccountMeta list \<times> bytes" where
  "init_registry_script env argv =
     and_then (parseArgs argv [''cluster'', ''governance'']) (\<lambda>args.
     let deployer = wallet_key env in
     and_then (ok_or (PublicKey_of env (arg args ''governance'')) BadKey) (\<lambda>gov.
     and_then (require (gov \<noteq> default_pubkey) GovernanceIsZero) (\<lambda>_.
     and_then (require (gov \<noteq> deployer) GovernanceIsDeployer) (\<lambda>_.
     let configPda = fst (findProgramAddressSync env [map of_char ''attestor_config''] ATTESTOR_REGISTRY) in
     and_then (require (\<not> getAccountInfo env configPda) AlreadyInitialised) (\<lambda>_.
     Inr ([key deployer True True, key configPda False True, key (system_program env) False False],
          anchorDiscriminator env ''init_registry'' @ gov))))))"

definition add_allowed_signer_script :: "script_env \<Rightarrow> string list \<Rightarrow> script_error + AccountMeta list \<times> bytes" where
  "add_allowed_signer_script env argv =
     and_then (parseArgs argv [''cluster'', ''signer'', ''kind'']) (\<lambda>args.
     and_then (ok_or (PublicKey_of env (arg args ''signer'')) BadKey) (\<lambda>signer.
     and_then (require (parseInt10 (arg args ''kind'') = Some 0) BadKind) (\<lambda>_.
     and_then (require (signer \<noteq> default_pubkey) SignerIsZero) (\<lambda>_.
     and_then (if args ''cranker'' = None \<or> args ''cranker'' = Some [] then Inr (system_program env)
               else ok_or (PublicKey_of env (arg args ''cranker'')) BadKey) (\<lambda>cranker.
     let configPda = fst (findProgramAddressSync env [map of_char ''attestor_config''] ATTESTOR_REGISTRY);
         allowedSignerPda = fst (findProgramAddressSync env [map of_char ''allowed_signer'', signer] ATTESTOR_REGISTRY) in
     Inr ([key cranker True True, key configPda False False, key allowedSignerPda False True,
           key (SYSVAR_INSTRUCTIONS_PUBKEY env) False False, key (system_program env) False False],
          anchorDiscriminator env ''add_allowed_signer'' @ signer @ [0]))))))"

end
