(* ===== verification/Script_Properties.thy ===== *)
theory Script_Properties
  imports Operator_Scripts Example_Reachable
begin

text \<open>
  The scripts against the programs: what the operator's scripts encode, the programs decode, and
  the checks of a script cover those of the program, so that the instruction succeeds.
\<close>

section \<open>The encoder writes Borsh\<close>

lemma write_at_append: "length a \<le> off \<Longrightarrow> write_at off x (a @ b) = a @ write_at (off - length a) x b"
  by (simp add: write_at_def)

lemma write_at_start: "write_at 0 x (replicate n 0) = x @ replicate (n - length x) 0"
  by (simp add: write_at_def)

lemma le_bytes_words:
  "0 \<le> n \<Longrightarrow> n \<le> 65535 \<Longrightarrow> to_le_bytes 2 (nat n) = put_u16 (word_of_int n)"
  "0 \<le> n \<Longrightarrow> n \<le> 2 ^ 64 - 1 \<Longrightarrow> to_le_bytes 8 (nat n) = put_u64 (word_of_int n)"
  "to_le_bytes 8 (nat (k mod 2 ^ 64)) = put_u64 (word_of_int k)"
proof -
  have u: "unat (word_of_int n :: 'a::len word) = nat (n mod 2 ^ LENGTH('a))" for n
    by (simp add: unat_eq_nat_uint uint_word_of_int)
  show "0 \<le> n \<Longrightarrow> n \<le> 65535 \<Longrightarrow> to_le_bytes 2 (nat n) = put_u16 (word_of_int n)"
    "0 \<le> n \<Longrightarrow> n \<le> 2 ^ 64 - 1 \<Longrightarrow> to_le_bytes 8 (nat n) = put_u64 (word_of_int n)"
    "to_le_bytes 8 (nat (k mod 2 ^ 64)) = put_u64 (word_of_int k)"
    by (simp_all add: put_u16_def put_u64_def u)
qed

text \<open>The values the program reads.\<close>

definition rust_curve :: "TsFeeCurve \<Rightarrow> FeeCurve" where
  "rust_curve fc = \<lparr> utilization_kink_bps = word_of_int (utilizationKinkBps fc), base_rate_bps = word_of_int (baseRateBps fc),
     kink_rate_bps = word_of_int (kinkRateBps fc), max_rate_bps = word_of_int (maxRateBps fc),
     duration_per_day_bps = word_of_int (durationPerDayBps fc), risk_premium_bps = word_of_int (riskPremiumBps fc),
     pool_loss_surcharge_bps = word_of_int (poolLossSurchargeBps fc) \<rparr>"

definition rust_params :: "TsInitPoolParams \<Rightarrow> InitPoolParams" where
  "rust_params p = \<lparr> ipp_fee_curve = rust_curve (feeCurve p),
     ipp_max_advance_pct_bps = (case maxAdvancePctBps p of None \<Rightarrow> 0 | Some n \<Rightarrow> word_of_int n),
     ipp_max_advance_abs = word_of_int (maxAdvanceAbs p), ipp_timelock_seconds = word_of_int (timelockSeconds p),
     ipp_governance = governance p, ipp_treasury_ata = treasuryAta p, ipp_chain_id = word_of_int (ts_chainId p),
     ipp_agent_window_cap = word_of_int (agentWindowCap p) \<rparr>"

lemma writeUInt16LE_Some:
  "writeUInt16LE v off buf = Some b \<longleftrightarrow>
     (case v of None \<Rightarrow> True | Some n \<Rightarrow> 0 \<le> n \<and> n \<le> 65535)
     \<and> b = write_at off (put_u16 (case v of None \<Rightarrow> 0 | Some n \<Rightarrow> word_of_int n)) buf"
proof (cases v)
  case None
  have "put_u16 0 = [0, 0]" by code_simp
  with None show ?thesis by (auto simp: writeUInt16LE_def)
qed (auto simp: writeUInt16LE_def le_bytes_words(1))

lemma write64_Some:
  "writeBigUInt64LE n off buf = Some b \<longleftrightarrow> 0 \<le> n \<and> n < 2 ^ 64 \<and> b = write_at off (put_u64 (word_of_int n)) buf"
  "writeBigInt64LE k off buf = Some b \<longleftrightarrow> - (2 ^ 63) \<le> k \<and> k < 2 ^ 63 \<and> b = write_at off (put_u64 (word_of_int k)) buf"
  using le_bytes_words(2) [of n] by (auto simp: writeBigUInt64LE_def writeBigInt64LE_def le_bytes_words(3) [simplified])

lemma encodeFeeCurve_Some:
  assumes "encodeFeeCurve fc = Some b"
  shows "b = put_FeeCurve (rust_curve fc)"
  using assms
  by (auto simp: encodeFeeCurve_def Option.bind_eq_Some_conv writeUInt16LE_Some write_at_append write_at_start
      put_FeeCurve_def rust_curve_def)

lemma encodeInitPoolParams_Some:
  assumes "encodeInitPoolParams p = Some b" and "length (governance p) = 32" and "length (treasuryAta p) = 32"
  shows "b = put_InitPoolParams (rust_params p)"
    and "0 \<le> maxAdvanceAbs p" "maxAdvanceAbs p < 2 ^ 64" "- (2 ^ 63) \<le> timelockSeconds p" "timelockSeconds p < 2 ^ 63"
    and "0 \<le> ts_chainId p" "ts_chainId p < 2 ^ 64" "0 \<le> agentWindowCap p" "agentWindowCap p < 2 ^ 64"
    and "case maxAdvancePctBps p of None \<Rightarrow> True | Some n \<Rightarrow> 0 \<le> n \<and> n \<le> 65535"
  using assms
  by (auto simp: encodeInitPoolParams_def Option.bind_eq_Some_conv writeUInt16LE_Some write64_Some
      write_at_append write_at_start put_InitPoolParams_def rust_params_def Let_def dest!: encodeFeeCurve_Some)

section \<open>The instruction succeeds\<close>

text \<open>
  The token program initialises a mint or an account at an unused address; an account needs its
  mint.
\<close>

definition spl_init_progress :: "runtime \<Rightarrow> bool" where
  "spl_init_progress rt \<longleftrightarrow>
     (\<forall>ts k decs auth. tok_mints ts k = None \<and> tok_accounts ts k = None \<longrightarrow> spl_init_mint rt ts k decs auth \<noteq> None)
     \<and> (\<forall>ts k m auth. tok_mints ts k = None \<and> tok_accounts ts k = None \<and> tok_mints ts m \<noteq> None
          \<longrightarrow> spl_init_account rt ts k m auth \<noteq> None)"

lemma ref_spl_init_progress: "spl_init_progress ref_runtime"
  by (simp add: spl_init_progress_def ref_runtime_def ref_init_mint_def ref_init_account_def)

definition pool_of_params :: "InitPool \<Rightarrow> u8 \<Rightarrow> InitPoolParams \<Rightarrow> Pool" where
  "pool_of_params a bump params =
     \<lparr> pool_bump = bump, pool_asset_mint = ip_asset_mint a, pool_usdc_vault = ip_usdc_vault a,
       pool_share_mint = ip_share_mint a, pool_treasury_ata = ipp_treasury_ata params,
       pool_governance = ipp_governance params, total_assets = 0, total_shares = 0,
       deployed_amount = 0, accrued_protocol_fees = 0, fee_curve = ipp_fee_curve params,
       max_advance_pct_bps = ipp_max_advance_pct_bps params,
       max_advance_abs = ipp_max_advance_abs params, agent_window_cap = ipp_agent_window_cap params,
       timelock_seconds = ipp_timelock_seconds params, pool_chain_id = ipp_chain_id params,
       pending_params = None \<rparr>"

definition fresh_pool_accounts :: "runtime \<Rightarrow> world \<Rightarrow> InitPool \<Rightarrow> bool" where
  "fresh_pool_accounts rt w a \<longleftrightarrow>
     fst (find_program_address rt [POOL_SEED, ip_asset_mint a] ESCROW) = ip_pool a
     \<and> address_free w (ip_pool a) \<and> address_free w (ip_share_mint a) \<and> address_free w (ip_usdc_vault a)
     \<and> distinct [ip_pool a, ip_share_mint a, ip_usdc_vault a] \<and> tok_mints (tokens w) (ip_asset_mint a) \<noteq> None"

definition params_accepted :: "InitPoolParams \<Rightarrow> bool" where
  "params_accepted p \<longleftrightarrow> as_u64 (ipp_max_advance_pct_bps p) \<le> BPS_DENOMINATOR \<and> 0 \<le> sint (ipp_timelock_seconds p)
     \<and> ipp_chain_id p \<in> {CHAIN_ID_MAINNET, CHAIN_ID_DEVNET} \<and> valid_curve (ipp_fee_curve p)"

lemma init_pool_possible:
  assumes laws: "spl_token_laws rt" "spl_init_progress rt"
    and fresh: "fresh_pool_accounts rt w a" and ok: "params_accepted params"
    and sig: "{ip_deployer a, ip_share_mint a, ip_usdc_vault a} \<subseteq> set (tx_signers tx)"
  shows "\<exists>w'. init_pool rt tx a params w
       = Inr (w', PoolInitialized (ip_pool a) (ip_asset_mint a) (ip_share_mint a) (ipp_governance params))
     \<and> accounts w' (ip_pool a) = Some (PoolAccount (pool_of_params a
         (snd (find_program_address rt [POOL_SEED, ip_asset_mint a] ESCROW)) params))"
proof -
  note F = fresh [unfolded fresh_pool_accounts_def address_free_def]
  obtain ts1 where ts1: "spl_init_mint rt (tokens w) (ip_share_mint a) 6 (ip_pool a) = Some ts1"
    using laws(2) F unfolding spl_init_progress_def by blast
  note E1 = spl_init_mint_Some(3) [OF laws(1) ts1]
  have "tok_mints ts1 (ip_usdc_vault a) = None" "tok_accounts ts1 (ip_usdc_vault a) = None"
    "tok_mints ts1 (ip_asset_mint a) \<noteq> None"
    using F by (auto simp: E1)
  then obtain ts2 where ts2: "spl_init_account rt ts1 (ip_usdc_vault a) (ip_asset_mint a) (ip_pool a) = Some ts2"
    using laws(2) unfolding spl_init_progress_def by blast
  have init: "init_pda rt ESCROW [POOL_SEED, ip_asset_mint a] w (ip_pool a)
      = (Inr (snd (find_program_address rt [POOL_SEED, ip_asset_mint a] ESCROW)) :: escrow_error + u8)"
    using fresh by (simp add: init_pda_def fresh_pool_accounts_def)
  obtain m where m: "load_mint (tokens w) (ip_asset_mint a) = (Inr m :: escrow_error + Mint)"
    using F by (auto simp: load_mint_def)
  have "InitPool_accounts rt tx a w = Inr (snd (find_program_address rt [POOL_SEED, ip_asset_mint a] ESCROW), ts2)"
    using sig fresh not_sym [of "ip_pool a" "ip_share_mint a"] not_sym [of "ip_pool a" "ip_usdc_vault a"]
    by (simp add: InitPool_accounts_def check_signer_def init m ts1 ts2 fresh_pool_accounts_def)
  moreover have "FeeCurve_validate (ipp_fee_curve params) = Inr ()" using ok by (simp add: FeeCurve_validate_ok_iff params_accepted_def)
  ultimately show ?thesis
    using ok by (auto simp: init_pool_def init_pool_handler_def params_accepted_def pool_of_params_def)
qed

section \<open>What the pool script sends\<close>

lemma default_curve_valid: "valid_curve (rust_curve DEFAULT_FEE_CURVE)"
  by code_simp

lemma init_pool_script_Inr:
  assumes "init_pool_script env argv = Inr (keys, data)"
    and "PublicKey_of env (arg (parse_argv argv Map.empty) ''asset-mint'') = Some mint"
    and "BigInt_text (arg (parse_argv argv Map.empty) ''timelock-seconds'') = Some timelock"
  obtains gov treasury chain max_abs cap p body where
    "PublicKey_of env (arg (parse_argv argv Map.empty) ''governance'') = Some gov"
    "PublicKey_of env (arg (parse_argv argv Map.empty) ''treasury-ata'') = Some treasury"
    "BigInt_text (arg (parse_argv argv Map.empty) ''chain-id'') = Some chain" "chain = 1 \<or> chain = 2"
    "BigInt_text (arg (parse_argv argv Map.empty) ''max-advance-abs'') = Some max_abs"
    "BigInt_text (arg (parse_argv argv Map.empty) ''agent-window-cap'') = Some cap"
    "gov \<noteq> wallet_key env" "\<not> getAccountInfo env (fst (findProgramAddressSync env [map of_char ''pool'', mint] ESCROW))"
    "p = \<lparr> feeCurve = DEFAULT_FEE_CURVE, maxAdvancePctBps = parseInt10 (arg (parse_argv argv Map.empty) ''max-advance-pct-bps''),
       maxAdvanceAbs = max_abs, timelockSeconds = timelock, governance = gov, treasuryAta = treasury,
       ts_chainId = chain, agentWindowCap = cap \<rparr>"
    "case maxAdvancePctBps p of None \<Rightarrow> True | Some n \<Rightarrow> n \<le> 10000"
    "encodeInitPoolParams p = Some body" "data = anchorDiscriminator env ''init_pool'' @ body"
    "keys = [key (wallet_key env) True True, key (fst (findProgramAddressSync env [map of_char ''pool'', mint] ESCROW)) False True,
       key mint False False, key (fresh_share_mint env) True True, key (fresh_usdc_vault env) True True,
       key (TOKEN_PROGRAM_ID env) False False, key (system_program env) False False,
       key (SYSVAR_RENT_PUBKEY env) False False]"
  using assms that
  by (auto simp: init_pool_script_def init_pool_params_def parseArgs_def Let_def result not_less
      split: if_splits option.splits)

lemma script_params_accepted:
  assumes "- (2 ^ 63) \<le> timelockSeconds p" "timelockSeconds p < 2 ^ 63"
    and "case maxAdvancePctBps p of None \<Rightarrow> True | Some n \<Rightarrow> 0 \<le> n \<and> n \<le> 65535"
    and "case maxAdvancePctBps p of None \<Rightarrow> True | Some n \<Rightarrow> n \<le> 10000"
    and "feeCurve p = DEFAULT_FEE_CURVE" and "ts_chainId p = 1 \<or> ts_chainId p = 2" and "0 \<le> timelockSeconds p"
  shows "params_accepted (rust_params p)"
proof -
  have "unat (ipp_max_advance_pct_bps (rust_params p)) \<le> 10000"
  proof (cases "maxAdvancePctBps p")
    case (Some n)
    then have "0 \<le> n" "n \<le> 10000" using assms(3,4) by simp_all
    then have "unat (word_of_int n :: u16) = nat n" by (simp add: unat_eq_nat_uint uint_word_of_int)
    with Some \<open>n \<le> 10000\<close> show ?thesis by (simp add: rust_params_def)
  qed (simp add: rust_params_def)
  moreover have "ipp_chain_id (rust_params p) \<in> {CHAIN_ID_MAINNET, CHAIN_ID_DEVNET}"
    using assms(6) by (auto simp: rust_params_def)
  moreover have "sint (ipp_timelock_seconds (rust_params p)) = timelockSeconds p"
    using assms(1,2) by (simp add: rust_params_def sint_word_of_int_fits i64_fits_def)
  ultimately show ?thesis
    using assms(5,7) default_curve_valid by (simp add: params_accepted_def rust_params_def word_le_nat_alt)
qed

section \<open>Properties\<close>

text \<open>What the script's environment answers, in a given state of the chain.\<close>

definition script_env_ok :: "runtime \<Rightarrow> world \<Rightarrow> script_env \<Rightarrow> bool" where
  "script_env_ok rt w env \<longleftrightarrow>
     findProgramAddressSync env = find_program_address rt
     \<and> (\<forall>t k. PublicKey_of env t = Some k \<longrightarrow> length k = 32)
     \<and> (\<forall>name. length (anchorDiscriminator env name) = 8)
     \<and> (\<forall>k. getAccountInfo env k \<longleftrightarrow> \<not> address_free w k)"

text \<open>The two fresh key pairs of the script are unused, and the named asset mint exists.\<close>

definition script_keys_ok :: "runtime \<Rightarrow> world \<Rightarrow> script_env \<Rightarrow> pubkey \<Rightarrow> bool" where
  "script_keys_ok rt w env mint \<longleftrightarrow>
     address_free w (fresh_share_mint env) \<and> address_free w (fresh_usdc_vault env)
     \<and> distinct [fst (find_program_address rt [POOL_SEED, mint] ESCROW), fresh_share_mint env, fresh_usdc_vault env]
     \<and> tok_mints (tokens w) mint \<noteq> None"

text \<open>
  C18: the pool script brings up the pool the operator asked for.  When \<^verbatim>\<open>init_pool.ts\<close> gets as far as
  sending, the program decodes accounts and data, and with the signatures the script provides,
  unused fresh keys, an existing asset mint and a timelock that is not negative, \<open>init_pool\<close>
  succeeds; the stored pool has the mint, governance key, treasury, chain id, the two caps in atoms
  and the timelock of the command line and the script's default fee curve.  Its cap in basis points
  is the number that \<^verbatim>\<open>parseInt\<close> reads from the command line, and 0 when \<^verbatim>\<open>parseInt\<close> reads none: the
  script accepts such an argument and writes \<^verbatim>\<open>NaN\<close> as 0.
\<close>

theorem pool_script_brings_up_pool:
  assumes "spl_token_laws rt" and "spl_init_progress rt" and "script_env_ok rt w env"
    and "init_pool_script env argv = Inr (keys, data)"
    and "\<forall>m\<in>set keys. meta_is_signer m \<longrightarrow> meta_pubkey m \<in> set (tx_signers tx)"
    and "PublicKey_of env (arg (parse_argv argv Map.empty) ''asset-mint'') = Some mint" and "script_keys_ok rt w env mint"
    and "BigInt_text (arg (parse_argv argv Map.empty) ''timelock-seconds'') = Some timelock" and "0 \<le> timelock"
  shows "\<exists>a params w' ev p. decode_init_pool (anchorDiscriminator env) keys data = Some (a, params)
     \<and> init_pool rt tx a params w = Inr (w', ev)
     \<and> accounts w' (fst (find_program_address rt [POOL_SEED, mint] ESCROW)) = Some (PoolAccount p)
     \<and> pool_asset_mint p = mint
     \<and> PublicKey_of env (arg (parse_argv argv Map.empty) ''governance'') = Some (pool_governance p)
     \<and> PublicKey_of env (arg (parse_argv argv Map.empty) ''treasury-ata'') = Some (pool_treasury_ata p)
     \<and> BigInt_text (arg (parse_argv argv Map.empty) ''chain-id'') = Some (uint (pool_chain_id p))
     \<and> BigInt_text (arg (parse_argv argv Map.empty) ''max-advance-abs'') = Some (uint (max_advance_abs p))
     \<and> BigInt_text (arg (parse_argv argv Map.empty) ''agent-window-cap'') = Some (uint (agent_window_cap p))
     \<and> uint (max_advance_pct_bps p)
         = (case parseInt10 (arg (parse_argv argv Map.empty) ''max-advance-pct-bps'') of Some n \<Rightarrow> n | None \<Rightarrow> 0)
     \<and> sint (timelock_seconds p) = timelock \<and> fee_curve p = rust_curve DEFAULT_FEE_CURVE"
proof (rule init_pool_script_Inr [OF assms(4,6,8)])
  fix gov treasury chain max_abs cap p body
  assume args: "PublicKey_of env (arg (parse_argv argv Map.empty) ''governance'') = Some gov"
    "PublicKey_of env (arg (parse_argv argv Map.empty) ''treasury-ata'') = Some treasury"
    "BigInt_text (arg (parse_argv argv Map.empty) ''chain-id'') = Some chain"
    "BigInt_text (arg (parse_argv argv Map.empty) ''max-advance-abs'') = Some max_abs"
    "BigInt_text (arg (parse_argv argv Map.empty) ''agent-window-cap'') = Some cap"
    and chain: "chain = 1 \<or> chain = 2"
    and free: "\<not> getAccountInfo env (fst (findProgramAddressSync env [map of_char ''pool'', mint] ESCROW))"
    and p: "p = \<lparr> feeCurve = DEFAULT_FEE_CURVE, maxAdvancePctBps = parseInt10 (arg (parse_argv argv Map.empty) ''max-advance-pct-bps''),
       maxAdvanceAbs = max_abs, timelockSeconds = timelock, governance = gov, treasuryAta = treasury,
       ts_chainId = chain, agentWindowCap = cap \<rparr>"
    and pct: "case maxAdvancePctBps p of None \<Rightarrow> True | Some n \<Rightarrow> n \<le> 10000"
    and out: "encodeInitPoolParams p = Some body" "data = anchorDiscriminator env ''init_pool'' @ body"
    and keys: "keys = [key (wallet_key env) True True, key (fst (findProgramAddressSync env [map of_char ''pool'', mint] ESCROW)) False True,
       key mint False False, key (fresh_share_mint env) True True, key (fresh_usdc_vault env) True True,
       key (TOKEN_PROGRAM_ID env) False False, key (system_program env) False False,
       key (SYSVAR_RENT_PUBKEY env) False False]"
  have find: "findProgramAddressSync env [map of_char ''pool'', mint] ESCROW = find_program_address rt [POOL_SEED, mint] ESCROW"
    using assms(3) by (simp add: script_env_ok_def POOL_SEED_def)
  let ?a = "\<lparr> ip_deployer = wallet_key env, ip_pool = fst (find_program_address rt [POOL_SEED, mint] ESCROW),
    ip_asset_mint = mint, ip_share_mint = fresh_share_mint env, ip_usdc_vault = fresh_usdc_vault env \<rparr>"
  have len: "length gov = 32" "length treasury = 32" "length (anchorDiscriminator env ''init_pool'') = 8"
    using assms(3) args(1,2) by (auto simp: script_env_ok_def)
  then have "length (governance p) = 32" "length (treasuryAta p) = 32" by (simp_all add: p)
  note E = encodeInitPoolParams_Some [OF out(1) this]
  have dec: "decode_init_pool (anchorDiscriminator env) keys data = Some (?a, rust_params p)"
    using InitPoolParams.get_put [of "rust_params p" "[]"] len
    by (simp add: decode_init_pool_def out(2) E(1) keys [unfolded find] key_def InitPoolParams_typed_def rust_params_def p)
  have "params_accepted (rust_params p)"
    by (rule script_params_accepted [OF E(4,5,10) pct]) (use chain assms(9) in \<open>simp_all add: p\<close>)
  moreover have "fresh_pool_accounts rt w ?a"
    using assms(3,7) free [unfolded find] by (simp add: fresh_pool_accounts_def script_env_ok_def script_keys_ok_def)
  moreover have "{ip_deployer ?a, ip_share_mint ?a, ip_usdc_vault ?a} \<subseteq> set (tx_signers tx)"
    using assms(5) by (simp add: keys [unfolded find] key_def)
  ultimately obtain w' ev where run: "init_pool rt tx ?a (rust_params p) w = Inr (w', ev)"
    "accounts w' (ip_pool ?a) = Some (PoolAccount (pool_of_params ?a
       (snd (find_program_address rt [POOL_SEED, mint] ESCROW)) (rust_params p)))"
    using init_pool_possible [OF assms(1,2)] by fastforce
  have "uint (ipp_max_advance_pct_bps (rust_params p))
      = (case parseInt10 (arg (parse_argv argv Map.empty) ''max-advance-pct-bps'') of Some n \<Rightarrow> n | None \<Rightarrow> 0)"
    using E(10) by (simp add: p rust_params_def uint_word_of_int_eq take_bit_int_eq_self split: option.splits)
  then show ?thesis
    using dec run args E(2-9)
    by (intro exI [of _ ?a] exI [of _ "rust_params p"] exI [of _ w'] exI [of _ ev] conjI
        exI [of _ "pool_of_params ?a (snd (find_program_address rt [POOL_SEED, mint] ESCROW)) (rust_params p)"])
       (simp_all add: pool_of_params_def rust_params_def p uint_word_of_int_eq take_bit_int_eq_self sint_word_of_int_fits
         i64_fits_def)
qed

definition example_script_env :: script_env where
  "example_script_env = \<lparr> PublicKey_of = [''usdc'' \<mapsto> usdc, ''squads'' \<mapsto> squads_vault, ''treasury'' \<mapsto> treasury],
     getAccountInfo = (\<lambda>k. \<not> address_free world_signer k), findProgramAddressSync = find_program_address ref_runtime,
     anchorDiscriminator = (\<lambda>name. if name = ''init_pool'' then replicate 8 1 else replicate 8 2),
     wallet_key = deployer, fresh_share_mint = share_mint, fresh_usdc_vault = vault, TOKEN_PROGRAM_ID = replicate 32 91,
     system_program = replicate 32 0, SYSVAR_RENT_PUBKEY = replicate 32 92, SYSVAR_INSTRUCTIONS_PUBKEY = replicate 32 93 \<rparr>"

definition example_argv :: "string list" where
  "example_argv = [''--cluster'', ''devnet'', ''--asset-mint'', ''usdc'', ''--governance'', ''squads'', ''--treasury-ata'', ''treasury'',
     ''--max-advance-pct-bps'', ''3000'', ''--max-advance-abs'', ''100000000'', ''--timelock-seconds'', ''86400'',
     ''--chain-id'', ''2'', ''--agent-window-cap'', ''500000000'']"

lemma example_script_runs:
  "is_ok (init_pool_script example_script_env example_argv)"
  "PublicKey_of example_script_env (arg (parse_argv example_argv Map.empty) ''asset-mint'') = Some usdc"
  "PublicKey_of example_script_env (arg (parse_argv example_argv Map.empty) ''governance'') = Some squads_vault"
  "BigInt_text (arg (parse_argv example_argv Map.empty) ''timelock-seconds'') = Some 86400"
  "BigInt_text (arg (parse_argv example_argv Map.empty) ''max-advance-abs'') = Some 100000000"
  by code_simp+

lemma example_script_env_ok: "script_env_ok ref_runtime world_signer example_script_env"
  by (auto simp: script_env_ok_def example_script_env_def usdc_def squads_vault_def treasury_def split: if_splits)

lemma example_script_keys_ok: "script_keys_ok ref_runtime world_signer example_script_env usdc"
  unfolding script_keys_ok_def by code_simp

lemma pool_script_witness:
  "\<exists>a params w' ev p. init_pool ref_runtime tx_init_pool a params world_signer = Inr (w', ev)
     \<and> accounts w' (fst (find_program_address ref_runtime [POOL_SEED, usdc] ESCROW)) = Some (PoolAccount p)
     \<and> pool_governance p = squads_vault \<and> uint (max_advance_abs p) = 100000000 \<and> sint (timelock_seconds p) = 86400"
proof -
  obtain keys data where r: "init_pool_script example_script_env example_argv = Inr (keys, data)"
    using example_script_runs(1) by (auto simp: is_ok_iff)
  have "\<forall>m\<in>set keys. meta_is_signer m \<longrightarrow> meta_pubkey m \<in> set (tx_signers tx_init_pool)"
    by (rule init_pool_script_Inr [OF r example_script_runs(2,4)])
       (simp add: key_def example_script_env_def tx_defs)
  note signed = this
  have "(0::int) \<le> 86400" by simp
  from pool_script_brings_up_pool [OF ref_spl_token_laws ref_spl_init_progress example_script_env_ok r signed
      example_script_runs(2) example_script_keys_ok example_script_runs(4) this, unfolded example_script_runs(3,5) option.inject]
  obtain a params w' ev p where "init_pool ref_runtime tx_init_pool a params world_signer = Inr (w', ev)"
    "accounts w' (fst (find_program_address ref_runtime [POOL_SEED, usdc] ESCROW)) = Some (PoolAccount p)"
    "squads_vault = pool_governance p" "100000000 = uint (max_advance_abs p)" "sint (timelock_seconds p) = 86400"
    by blast
  then show ?thesis by (intro exI [of _ a] exI [of _ params] exI [of _ w'] exI [of _ ev] exI [of _ p]) simp
qed

section \<open>The registry scripts\<close>

lemma registry_script_initialises:
  assumes env: "script_env_ok rt w env" and run: "init_registry_script env argv = Inr (keys, data)"
    and sig: "\<forall>m\<in>set keys. meta_is_signer m \<longrightarrow> meta_pubkey m \<in> set (tx_signers tx)"
  shows "\<exists>a gov w' ev. decode_init_registry (anchorDiscriminator env) keys data = Some (a, gov)
     \<and> PublicKey_of env (arg (parse_argv argv Map.empty) ''governance'') = Some gov \<and> gov \<noteq> wallet_key env
     \<and> init_registry rt tx a gov w = Inr (w', ev)
     \<and> (\<exists>b. accounts w' (fst (find_program_address rt [ATTESTOR_CONFIG_SEED] ATTESTOR_REGISTRY))
          = Some (ConfigAccount \<lparr>cfg_bump = b, cfg_governance = gov\<rparr>))"
proof -
  let ?C = "fst (find_program_address rt [ATTESTOR_CONFIG_SEED] ATTESTOR_REGISTRY)"
  have find: "findProgramAddressSync env [map of_char ''attestor_config''] ATTESTOR_REGISTRY
      = find_program_address rt [ATTESTOR_CONFIG_SEED] ATTESTOR_REGISTRY"
    using env by (simp add: script_env_ok_def ATTESTOR_CONFIG_SEED_def)
  from run obtain gov where g: "PublicKey_of env (arg (parse_argv argv Map.empty) ''governance'') = Some gov"
    "gov \<noteq> default_pubkey" "gov \<noteq> wallet_key env" "\<not> getAccountInfo env ?C"
    and out: "keys = [key (wallet_key env) True True, key ?C False True, key (system_program env) False False]"
      "data = anchorDiscriminator env ''init_registry'' @ gov"
    unfolding init_registry_script_def find by (auto simp: parseArgs_def Let_def result split: if_splits)
  have len: "length gov = 32" "length (anchorDiscriminator env ''init_registry'') = 8" and free: "address_free w ?C"
    using env g by (auto simp: script_env_ok_def)
  have "init_pda rt ATTESTOR_REGISTRY [ATTESTOR_CONFIG_SEED] w ?C
      = (Inr (snd (find_program_address rt [ATTESTOR_CONFIG_SEED] ATTESTOR_REGISTRY)) :: registry_error + u8)"
    using free by (simp add: init_pda_def)
  then show ?thesis
    using g sig len get_bytes_append [of gov 32 "[]"]
    by (simp add: out key_def decode_init_registry_def init_registry_def check_signer_def)
qed

lemma signer_script_registers_signer:
  assumes env: "script_env_ok rt w env" and run: "add_allowed_signer_script env argv = Inr (keys, data)"
    and sig: "\<forall>m\<in>set keys. meta_is_signer m \<longrightarrow> meta_pubkey m \<in> set (tx_signers tx)"
    and s: "PublicKey_of env (arg (parse_argv argv Map.empty) ''signer'') = Some s"
    and cfg: "load_config rt w (fst (find_program_address rt [ATTESTOR_CONFIG_SEED] ATTESTOR_REGISTRY)) = Inr c"
    and gate: "require_squads_governance_cpi (tx_sysvar tx) (cfg_governance c) = Inr ()"
    and free: "address_free w (fst (find_program_address rt [ALLOWED_SIGNER_SEED, s] ATTESTOR_REGISTRY))"
  shows "\<exists>a kind w' ev e. decode_add_allowed_signer (anchorDiscriminator env) keys data = Some (a, s, kind)
     \<and> add_allowed_signer rt tx a s kind w = Inr (w', ev)
     \<and> accounts w' (fst (find_program_address rt [ALLOWED_SIGNER_SEED, s] ATTESTOR_REGISTRY)) = Some (AllowedSignerAccount e)
     \<and> as_signer e = s \<and> as_kind e = AttestorKind_as_u8 CreditBridge"
proof -
  let ?C = "fst (find_program_address rt [ATTESTOR_CONFIG_SEED] ATTESTOR_REGISTRY)"
    and ?S = "fst (find_program_address rt [ALLOWED_SIGNER_SEED, s] ATTESTOR_REGISTRY)"
  have find: "findProgramAddressSync env [map of_char ''attestor_config''] ATTESTOR_REGISTRY
      = find_program_address rt [ATTESTOR_CONFIG_SEED] ATTESTOR_REGISTRY"
    "findProgramAddressSync env [map of_char ''allowed_signer'', k] ATTESTOR_REGISTRY
      = find_program_address rt [ALLOWED_SIGNER_SEED, k] ATTESTOR_REGISTRY" for k
    using env by (simp_all add: script_env_ok_def ATTESTOR_CONFIG_SEED_def ALLOWED_SIGNER_SEED_def)
  from run s obtain cranker where
    out: "keys = [key cranker True True, key ?C False False, key ?S False True,
       key (SYSVAR_INSTRUCTIONS_PUBKEY env) False False, key (system_program env) False False]"
      "data = anchorDiscriminator env ''add_allowed_signer'' @ s @ [0]"
    unfolding add_allowed_signer_script_def find by (auto simp: parseArgs_def Let_def result split: if_splits)
  have len: "length s = 32" "length (anchorDiscriminator env ''add_allowed_signer'') = 8"
    using env s by (auto simp: script_env_ok_def)
  have "init_pda rt ATTESTOR_REGISTRY [ALLOWED_SIGNER_SEED, s] w ?S
      = (Inr (snd (find_program_address rt [ALLOWED_SIGNER_SEED, s] ATTESTOR_REGISTRY)) :: registry_error + u8)"
    using free by (simp add: init_pda_def)
  moreover have "AttestorKind_as_u8 CreditBridge = 0" "\<exists>k. AttestorKind_as_u8 k = 0" by (simp, rule exI [of _ CreditBridge], simp)
  ultimately show ?thesis
    using sig len cfg gate
    by (simp add: out key_def decode_add_allowed_signer_def add_allowed_signer_def AddAllowedSigner_accounts_def
        check_signer_def require_governance_cpi_def)
qed

end
