(* ===== verification/Ts_Constants.thy ===== *)
theory Ts_Constants
  imports Keeper Wire Base58
begin

text \<open>
  The constants that the TypeScript packages keep beside the Rust ones, \<^verbatim>\<open>ts/shared/src/index.ts\<close>
  and \<^verbatim>\<open>scripts/lib/program-ids.ts\<close>, and the instruction the keeper puts on the wire.  The names
  that both languages use carry the prefix \<open>ts_\<close> here.
\<close>

section \<open>Shared constants\<close>

text \<open>\<^verbatim>\<open>new TextEncoder().encode(s)\<close> for the ASCII texts below.\<close>

definition TextEncoder_encode :: "string \<Rightarrow> bytes" where
  "TextEncoder_encode s = map of_char s"

definition ts_BPS_DENOMINATOR :: int where "ts_BPS_DENOMINATOR = 10000"
definition ts_POOL_SEED :: string where "ts_POOL_SEED = ''pool''"
definition ts_ADVANCE_SEED :: string where "ts_ADVANCE_SEED = ''advance''"
definition ts_CONSUMED_SEED :: string where "ts_CONSUMED_SEED = ''consumed''"
definition ts_ISSUANCE_LEDGER_SEED :: string where "ts_ISSUANCE_LEDGER_SEED = ''issuance_ledger''"
definition ts_ALLOWED_SIGNER_SEED :: string where "ts_ALLOWED_SIGNER_SEED = ''allowed_signer''"
definition ts_ATTESTOR_CONFIG_SEED :: string where "ts_ATTESTOR_CONFIG_SEED = ''attestor_config''"
definition ts_LIQUIDATION_TOMBSTONE_SEED :: string where "ts_LIQUIDATION_TOMBSTONE_SEED = ''liq_tombstone''"
definition ts_LIQUIDATION_GRACE_SECONDS :: int where "ts_LIQUIDATION_GRACE_SECONDS = 14 * 24 * 60 * 60"
definition ts_MAX_LATE_DAYS :: int where "ts_MAX_LATE_DAYS = 365"
definition ED25519_CREDIT_MSG_VERSION :: int where "ED25519_CREDIT_MSG_VERSION = 1"
definition ED25519_CREDIT_MSG_LEN :: nat where "ED25519_CREDIT_MSG_LEN = 128"

record credit_msg_offsets =
  off_agent :: nat
  off_pool :: nat
  off_creditLimit :: nat
  off_outstanding :: nat
  off_expiresAt :: nat
  off_attestedAt :: nat
  off_nonce :: nat
  off_chainId :: nat
  off_version :: nat

definition ED25519_CREDIT_MSG_OFFSETS :: credit_msg_offsets where
  "ED25519_CREDIT_MSG_OFFSETS = \<lparr> off_agent = 0, off_pool = 32, off_creditLimit = 64, off_outstanding = 72,
     off_expiresAt = 80, off_attestedAt = 88, off_nonce = 96, off_chainId = 112, off_version = 120 \<rparr>"

definition ts_MAX_ATTESTATION_AGE_SECONDS :: int where "ts_MAX_ATTESTATION_AGE_SECONDS = 15 * 60"
definition SOLANA_CHAIN_ID_MAINNET :: int where "SOLANA_CHAIN_ID_MAINNET = 1"
definition SOLANA_CHAIN_ID_DEVNET :: int where "SOLANA_CHAIN_ID_DEVNET = 2"
definition ATTESTOR_KIND_CreditBridge :: int where "ATTESTOR_KIND_CreditBridge = 0"

text \<open>The program ids, as the scripts spell them.\<close>

definition ESCROW_PROGRAM_ID :: string where
  "ESCROW_PROGRAM_ID = ''DLy82HRrSnSVZfQTxze8CEZwequnGyBcJNvYZX1L9yuF''"

definition ATTESTOR_REGISTRY_PROGRAM_ID :: string where
  "ATTESTOR_REGISTRY_PROGRAM_ID = ''ALVf6iyB6P5RFizRtxorJ3pAcc4731VziAn67sW6brvk''"

definition ts_SQUADS_V4 :: string where
  "ts_SQUADS_V4 = ''SQDS4ep65T869zMMBKyuUq6aD6EgTu8psMjkvj52pCf''"

section \<open>They agree with the program\<close>

lemma seeds_agree:
  "TextEncoder_encode ts_POOL_SEED = POOL_SEED"
  "TextEncoder_encode ts_ADVANCE_SEED = ADVANCE_SEED"
  "TextEncoder_encode ts_CONSUMED_SEED = CONSUMED_SEED"
  "TextEncoder_encode ts_ISSUANCE_LEDGER_SEED = ISSUANCE_LEDGER_SEED"
  "TextEncoder_encode ts_ALLOWED_SIGNER_SEED = ALLOWED_SIGNER_SEED"
  "TextEncoder_encode ts_ATTESTOR_CONFIG_SEED = ATTESTOR_CONFIG_SEED"
  "TextEncoder_encode ts_LIQUIDATION_TOMBSTONE_SEED = LIQUIDATION_TOMBSTONE_SEED"
  by code_simp+

lemma numbers_agree:
  "ts_BPS_DENOMINATOR = uint BPS_DENOMINATOR"
  "ts_LIQUIDATION_GRACE_SECONDS = sint LIQUIDATION_GRACE_SECONDS"
  "ts_MAX_LATE_DAYS = uint MAX_LATE_DAYS"
  "ED25519_CREDIT_MSG_VERSION = uint VERSION"
  "ts_MAX_ATTESTATION_AGE_SECONDS = sint MAX_ATTESTATION_AGE_SECONDS"
  "SOLANA_CHAIN_ID_MAINNET = uint CHAIN_ID_MAINNET" "SOLANA_CHAIN_ID_DEVNET = uint CHAIN_ID_DEVNET"
  "ATTESTOR_KIND_CreditBridge = uint (AttestorKind_as_u8 CreditBridge)"
  by code_simp+

lemma message_layout_agrees:
  "ED25519_CREDIT_MSG_LEN = TOTAL_LEN"
  "ED25519_CREDIT_MSG_OFFSETS = \<lparr> off_agent = AGENT_OFFSET, off_pool = POOL_OFFSET, off_creditLimit = CREDIT_LIMIT_OFFSET,
     off_outstanding = OUTSTANDING_OFFSET, off_expiresAt = EXPIRES_AT_OFFSET, off_attestedAt = ATTESTED_AT_OFFSET,
     off_nonce = NONCE_OFFSET, off_chainId = CHAIN_ID_OFFSET, off_version = VERSION_OFFSET \<rparr>"
  by (simp_all add: ED25519_CREDIT_MSG_LEN_def ED25519_CREDIT_MSG_OFFSETS_def)

text \<open>The texts are the base-58 spellings of the ids in the Rust crate.\<close>

lemma base58_text:
  assumes "digits_value ds = be_nat bs" and "\<forall>d\<in>set ds. d < 58" and "ds \<noteq> []" "last ds \<noteq> 0" and "hd bs \<noteq> 0" "bs \<noteq> []"
  shows "bytesToBase58 bs = map (\<lambda>d. ALPHABET ! d) (rev ds)"
proof -
  have "base58_digits (be_nat bs) = ds" using base58_digits_unique [of ds] assms by simp
  moreover have "leading_zeros bs = 0" "\<not> (\<forall>b\<in>set bs. b = 0)"
    using assms(5,6) by (cases bs; simp add: leading_zeros_def)+
  ultimately show ?thesis by (simp only: base58_printer_eq base58_notation_def) simp
qed

lemma program_ids_agree:
  "bytesToBase58 ESCROW = ESCROW_PROGRAM_ID"
  "bytesToBase58 ATTESTOR_REGISTRY = ATTESTOR_REGISTRY_PROGRAM_ID"
  "bytesToBase58 SQUADS_V4 = ts_SQUADS_V4"
proof -
  have "bytesToBase58 ESCROW = map (\<lambda>d. ALPHABET ! d) (rev
      [14, 52, 56, 8, 19, 0, 30, 32, 31, 53, 21, 17, 35, 10, 56, 15, 45, 52, 48, 37, 54, 32, 13, 11, 7, 37,
       57, 55, 26, 23, 38, 32, 28, 25, 45, 25, 49, 24, 16, 1, 7, 56, 19, 12])"
    by (rule base58_text) (simp_all add: ESCROW_def be_nat_def)
  then show "bytesToBase58 ESCROW = ESCROW_PROGRAM_ID" by (simp add: ALPHABET_def ESCROW_PROGRAM_ID_def)
  have "bytesToBase58 ATTESTOR_REGISTRY = map (\<lambda>d. ALPHABET ! d) (rev
      [43, 53, 49, 34, 5, 29, 50, 6, 5, 45, 9, 41, 57, 28, 0, 2, 6, 3, 35, 35, 9, 47, 2, 17, 49, 46, 55,
       51, 24, 57, 41, 14, 24, 4, 22, 5, 10, 56, 41, 5, 38, 28, 19, 9])"
    by (rule base58_text) (simp_all add: ATTESTOR_REGISTRY_def be_nat_def)
  then show "bytesToBase58 ATTESTOR_REGISTRY = ATTESTOR_REGISTRY_PROGRAM_ID" by (simp add: ALPHABET_def ATTESTOR_REGISTRY_PROGRAM_ID_def)
  have "bytesToBase58 SQUADS_V4 = map (\<lambda>d. ALPHABET ! d) (rev
      [38, 11, 47, 1, 4, 42, 53, 43, 42, 20, 50, 47, 7, 52, 26, 39, 13, 5, 12, 33, 5, 48, 27, 52, 56, 18,
       10, 20, 20, 57, 8, 5, 7, 26, 4, 5, 47, 37, 3, 25, 12, 23, 25])"
    by (rule base58_text) (simp_all add: SQUADS_V4_def be_nat_def)
  then show "bytesToBase58 SQUADS_V4 = ts_SQUADS_V4" by (simp add: ALPHABET_def ts_SQUADS_V4_def)
qed

section \<open>The keeper's instruction on the wire\<close>

datatype AccountRole = READONLY | WRITABLE | READONLY_SIGNER | WRITABLE_SIGNER

fun role_meta :: "pubkey \<Rightarrow> AccountRole \<Rightarrow> AccountMeta" where
  "role_meta k READONLY = \<lparr> meta_pubkey = k, meta_is_signer = False, meta_is_writable = False \<rparr>"
| "role_meta k WRITABLE = \<lparr> meta_pubkey = k, meta_is_signer = False, meta_is_writable = True \<rparr>"
| "role_meta k READONLY_SIGNER = \<lparr> meta_pubkey = k, meta_is_signer = True, meta_is_writable = False \<rparr>"
| "role_meta k WRITABLE_SIGNER = \<lparr> meta_pubkey = k, meta_is_signer = True, meta_is_writable = True \<rparr>"

definition liquidate_instruction :: "pubkey \<Rightarrow> Liquidate \<Rightarrow> pubkey \<Rightarrow> bytes \<Rightarrow> Instruction" where
  "liquidate_instruction programId a systemProgram liquidateDiscriminator =
     \<lparr> ix_program_id = programId,
       ix_accounts = [role_meta (lq_cranker a) WRITABLE_SIGNER, role_meta (lq_advance a) WRITABLE,
         role_meta (lq_consumed a) READONLY, role_meta (lq_issuance_ledger a) WRITABLE,
         role_meta (lq_tombstone a) WRITABLE, role_meta (lq_pool a) WRITABLE, role_meta systemProgram READONLY],
       ix_data = liquidateDiscriminator \<rparr>"

text \<open>
  The program decodes the keeper's instruction to the accounts the keeper derived, and the only
  signature it needs is the keeper's own.
\<close>

lemma keeper_instruction_decodes:
  assumes "length (disc ''liquidate'') = 8"
    and "ix = liquidate_instruction program (buildLiquidateIx rt program signer pool adv) sys (disc ''liquidate'')"
  shows "decode_liquidate disc (ix_accounts ix) (ix_data ix) = Some (buildLiquidateIx rt program signer pool adv)"
    and "map meta_pubkey (filter meta_is_signer (ix_accounts ix)) = [signer]"
  using assms(1) ix_args_append [of disc "''liquidate''" "[]"]
  by (auto simp: assms(2) liquidate_instruction_def decode_liquidate_def buildLiquidateIx_def)

end
