(* ===== verification/Js_Number.thy ===== *)
theory Js_Number
  imports Complex_Main Prelude
begin

text \<open>
  The numbers of JavaScript, as far as the services compute with them: IEEE 754 doubles, rounded
  to nearest, ties to even, with gradual underflow and infinities.  A finite double is its
  rational value; the sign of a zero is not kept, which no code below observes (no divisor there
  is zero, and zeros are only added, multiplied and compared).

  \<open>rnd\<close> is the rounding of a rational without the limit of the exponent range, \<open>js_round\<close> the
  result of an operation.  Everything computes, so a quote of the services can be evaluated.
\<close>

section \<open>Rounding\<close>

function ipow2 :: "int \<Rightarrow> int" where
  "ipow2 n = (if n \<le> 0 then 1 else 2 * ipow2 (n - 1))"
  by pat_completeness auto
termination by (relation "measure nat") auto

function nbits :: "int \<Rightarrow> int" where
  "nbits n = (if n \<le> 0 then 0 else 1 + nbits (n div 2))"
  by pat_completeness auto
termination by (relation "measure nat") auto

declare ipow2.simps [simp del] nbits.simps [simp del]

definition pow2 :: "int \<Rightarrow> rat" where
  "pow2 e = (if 0 \<le> e then of_int (ipow2 e) else 1 / of_int (ipow2 (- e)))"

text \<open>The binary exponent of a positive rational.\<close>

definition ilog2 :: "rat \<Rightarrow> int" where
  "ilog2 q = (let (n, d) = quotient_of q; k = nbits n - nbits d in if pow2 k \<le> q then k else k - 1)"

definition round_even :: "rat \<Rightarrow> int" where
  "round_even q =
     (let m = \<lfloor>q\<rfloor>; r = q - of_int m in if r < 1 / 2 \<or> r = 1 / 2 \<and> m mod 2 = 0 then m else m + 1)"

text \<open>The exponent of the last place: 53 bits, and no place below \<open>2\<^sup>-\<^sup>1\<^sup>0\<^sup>7\<^sup>4\<close>.\<close>

definition last_place :: "rat \<Rightarrow> int" where
  "last_place q = max (ilog2 \<bar>q\<bar> - 52) (- 1074)"

definition rnd :: "rat \<Rightarrow> rat" where
  "rnd q = (if q = 0 then 0 else of_int (round_even (q / pow2 (last_place q))) * pow2 (last_place q))"

section \<open>Numbers and their operations\<close>

datatype jsnum = NaN | PInf | NInf | Fin rat

definition js_round :: "rat \<Rightarrow> jsnum" where
  "js_round q = (let v = rnd q in if pow2 1024 \<le> v then PInf else if v \<le> - pow2 1024 then NInf else Fin v)"

fun js_neg :: "jsnum \<Rightarrow> jsnum" where
  "js_neg (Fin a) = Fin (- a)"
| "js_neg PInf = NInf"
| "js_neg NInf = PInf"
| "js_neg NaN = NaN"

fun js_add :: "jsnum \<Rightarrow> jsnum \<Rightarrow> jsnum" where
  "js_add (Fin a) (Fin b) = js_round (a + b)"
| "js_add NaN y = NaN"
| "js_add x NaN = NaN"
| "js_add PInf NInf = NaN"
| "js_add NInf PInf = NaN"
| "js_add (Fin a) y = y"
| "js_add x y = x"

definition js_sub :: "jsnum \<Rightarrow> jsnum \<Rightarrow> jsnum" where
  "js_sub x y = js_add x (js_neg y)"

text \<open>The sign of a number that is not NaN.\<close>

fun js_sgn :: "jsnum \<Rightarrow> int" where
  "js_sgn (Fin a) = (if a < 0 then - 1 else if a = 0 then 0 else 1)"
| "js_sgn PInf = 1"
| "js_sgn NInf = - 1"
| "js_sgn NaN = 0"

definition js_inf :: "int \<Rightarrow> jsnum" where
  "js_inf s = (if s < 0 then NInf else if s = 0 then NaN else PInf)"

fun js_mult :: "jsnum \<Rightarrow> jsnum \<Rightarrow> jsnum" where
  "js_mult (Fin a) (Fin b) = js_round (a * b)"
| "js_mult NaN y = NaN"
| "js_mult x NaN = NaN"
| "js_mult x y = js_inf (js_sgn x * js_sgn y)"

fun js_div :: "jsnum \<Rightarrow> jsnum \<Rightarrow> jsnum" where
  "js_div (Fin a) (Fin b) = (if b = 0 then js_inf (js_sgn (Fin a)) else js_round (a / b))"
| "js_div NaN y = NaN"
| "js_div x NaN = NaN"
| "js_div (Fin a) y = Fin 0"
| "js_div x (Fin b) = js_inf (js_sgn x * (if b < 0 then - 1 else 1))"
| "js_div x y = NaN"

fun js_le :: "jsnum \<Rightarrow> jsnum \<Rightarrow> bool" where
  "js_le (Fin a) (Fin b) \<longleftrightarrow> a \<le> b"
| "js_le NaN y \<longleftrightarrow> False"
| "js_le x NaN \<longleftrightarrow> False"
| "js_le NInf y \<longleftrightarrow> True"
| "js_le x PInf \<longleftrightarrow> True"
| "js_le x y \<longleftrightarrow> False"

definition js_less :: "jsnum \<Rightarrow> jsnum \<Rightarrow> bool" where
  "js_less x y \<longleftrightarrow> js_le x y \<and> \<not> js_le y x"

definition js_min :: "jsnum \<Rightarrow> jsnum \<Rightarrow> jsnum" where
  "js_min x y = (if x = NaN \<or> y = NaN then NaN else if js_le x y then x else y)"

definition js_max :: "jsnum \<Rightarrow> jsnum \<Rightarrow> jsnum" where
  "js_max x y = (if x = NaN \<or> y = NaN then NaN else if js_le x y then y else x)"

text \<open>\<^verbatim>\<open>Math.floor\<close> and \<^verbatim>\<open>Math.round\<close> (ties upwards); both results are doubles.\<close>

fun js_floor :: "jsnum \<Rightarrow> jsnum" where
  "js_floor (Fin a) = Fin (of_int \<lfloor>a\<rfloor>)"
| "js_floor x = x"

fun js_math_round :: "jsnum \<Rightarrow> jsnum" where
  "js_math_round (Fin a) = Fin (of_int \<lfloor>a + 1 / 2\<rfloor>)"
| "js_math_round x = x"

section \<open>Facts on rounding\<close>

lemma ipow2_eq: "ipow2 (int k) = 2 ^ k"
proof (induction k)
  case 0
  show ?case by (subst ipow2.simps) simp
next
  case (Suc k)
  then show ?case by (subst ipow2.simps) simp
qed

lemma pow2_eq: "pow2 e = 2 powi e"
proof (cases e rule: int_cases2)
  case (nonneg n)
  then show ?thesis by (simp add: pow2_def ipow2_eq)
next
  case (nonpos n)
  then show ?thesis using ipow2_eq [of 0] by (cases "n = 0") (simp_all add: pow2_def ipow2_eq power_int_minus divide_inverse)
qed

lemma pow2_pos [simp]: "0 < pow2 e" "0 \<le> pow2 e" "pow2 e \<noteq> 0"
  by (simp_all add: pow2_eq)

lemma pow2_add: "pow2 (a + b) = pow2 a * pow2 b"
  by (simp add: pow2_eq power_int_add)

lemma pow2_diff: "pow2 (a - b) = pow2 a / pow2 b"
  by (simp add: pow2_eq power_int_diff)

lemma pow2_0 [simp]: "pow2 0 = 1" and pow2_1 [simp]: "pow2 1 = 2"
  by (simp_all add: pow2_eq)

lemma pow2_less_iff [simp]: "pow2 a < pow2 b \<longleftrightarrow> a < b"
  using power_int_strict_increasing [of a b "2 :: rat"] power_int_strict_increasing [of b a "2 :: rat"]
  unfolding pow2_eq by (cases a b rule: linorder_cases) auto

lemma pow2_le_iff [simp]: "pow2 a \<le> pow2 b \<longleftrightarrow> a \<le> b"
  by (simp flip: not_less)

lemma pow2_int: "pow2 (int k) = 2 ^ k"
  by (simp add: pow2_eq)

lemma nbits_bits: "0 < n \<Longrightarrow> \<exists>k. nbits n = int (Suc k) \<and> 2 ^ k \<le> n \<and> n < 2 ^ Suc k"
proof (induction n rule: nbits.induct)
  case (1 n)
  show ?case
  proof (cases "n = 1")
    case True
    have "nbits 1 = 1" by (subst nbits.simps, subst nbits.simps) simp
    with True show ?thesis by (intro exI [of _ 0]) simp
  next
    case False
    with "1.prems" have "0 < n div 2" by simp
    then obtain k where "nbits (n div 2) = int (Suc k)" "2 ^ k \<le> n div 2" "n div 2 < 2 ^ Suc k"
      using 1 by force
    then show ?thesis using "1.prems"
      by (intro exI [of _ "Suc k"] conjI) (simp_all add: nbits.simps [of n])
  qed
qed

lemma nbits_bounds:
  assumes "0 < n"
  shows "pow2 (nbits n - 1) \<le> of_int n" and "of_int n < pow2 (nbits n)"
proof -
  obtain k where k: "nbits n = int (Suc k)" "2 ^ k \<le> n" "n < 2 ^ Suc k" using nbits_bits [OF assms] by blast
  have "rat_of_int (2 ^ k) \<le> of_int n" "rat_of_int n < of_int (2 ^ Suc k)"
    using k(2,3) by (simp_all only: of_int_le_iff of_int_less_iff)
  moreover have "nbits n - 1 = int k" using k(1) by simp
  ultimately show "pow2 (nbits n - 1) \<le> of_int n" "of_int n < pow2 (nbits n)"
    unfolding k(1) by (simp_all only: pow2_int of_int_power of_int_numeral)
qed

lemma ilog2_bounds:
  assumes "0 < q"
  shows "pow2 (ilog2 q) \<le> q" and "q < pow2 (ilog2 q + 1)"
proof -
  obtain n d where nd: "quotient_of q = (n, d)" by force
  define k where "k = nbits n - nbits d"
  have q: "q = of_int n / of_int d" and d: "0 < d"
    using quotient_of_div [OF nd] quotient_of_denom_pos [OF nd] by simp_all
  then have n: "0 < n" using assms by (simp add: zero_less_divide_iff)
  note N = nbits_bounds [OF n] and D = nbits_bounds [OF d]
  have "of_int n / of_int d < pow2 (nbits n) / pow2 (nbits d - 1)"
    using N(2) D(1) d n by (intro frac_less) simp_all
  moreover have "pow2 (nbits n - 1) / pow2 (nbits d) \<le> of_int n / of_int d"
    using N(1) D(2) d n by (intro frac_le) simp_all
  ultimately have "q < pow2 (k + 1)" "pow2 (k - 1) \<le> q"
    unfolding q k_def by (simp_all flip: pow2_diff add: algebra_simps)
  moreover have "ilog2 q = (if pow2 k \<le> q then k else k - 1)" by (simp add: ilog2_def nd k_def)
  ultimately show "pow2 (ilog2 q) \<le> q" "q < pow2 (ilog2 q + 1)" by simp_all
qed

lemma round_even_near: "\<bar>of_int (round_even q) - q\<bar> \<le> 1 / 2"
  using floor_correct [of q] by (auto simp: round_even_def Let_def abs_le_iff)

lemma round_even_of_int [simp]: "round_even (of_int n) = n"
  by (simp add: round_even_def)

lemma round_even_mono:
  assumes "p \<le> q"
  shows "round_even p \<le> round_even q"
proof (cases "\<lfloor>p\<rfloor> = \<lfloor>q\<rfloor>")
  case True
  with assms show ?thesis by (auto simp: round_even_def Let_def)
next
  case False
  then have "\<lfloor>p\<rfloor> + 1 \<le> \<lfloor>q\<rfloor>" using floor_mono [OF assms] by simp
  then show ?thesis by (auto simp: round_even_def Let_def)
qed


lemma last_place_mono: "0 < p \<Longrightarrow> p \<le> q \<Longrightarrow> last_place p \<le> last_place q"
proof -
  assume "0 < p" "p \<le> q"
  then have "pow2 (ilog2 p) < pow2 (ilog2 q + 1)" using ilog2_bounds(1) [of p] ilog2_bounds(2) [of q] by linarith
  then show ?thesis using \<open>0 < p\<close> \<open>p \<le> q\<close> by (simp add: last_place_def)
qed

lemma rnd_0 [simp]: "rnd 0 = 0"
  by (simp add: rnd_def)

lemma rnd_nonneg: "0 \<le> q \<Longrightarrow> 0 \<le> rnd q"
  using round_even_mono [of 0 "q / pow2 (last_place q)"] round_even_of_int [of 0]
  by (simp add: rnd_def)

text \<open>The rounding error: half a unit in the last place.\<close>

lemma rnd_near:
  assumes "0 \<le> q"
  shows "\<bar>rnd q - q\<bar> \<le> q * pow2 (- 53) + pow2 (- 1075)"
proof (cases "q = 0")
  case False
  let ?e = "last_place q"
  have "pow2 (ilog2 q) \<le> q" using assms False ilog2_bounds(1) [of q] by simp
  then have "pow2 (ilog2 q - 53) \<le> q * pow2 (- 53)" using pow2_add [of "ilog2 q" "- 53"] by simp
  moreover have "pow2 (?e - 1) = pow2 (ilog2 q - 53) \<or> pow2 (?e - 1) = pow2 (- 1075)"
    using assms by (simp add: last_place_def max_def)
  moreover have "0 \<le> q * pow2 (- 53)" "0 < pow2 (- 1075)" using assms by simp_all
  ultimately have e: "pow2 (?e - 1) \<le> q * pow2 (- 53) + pow2 (- 1075)" by (elim disjE) linarith+
  have "rnd q - q = (of_int (round_even (q / pow2 ?e)) - q / pow2 ?e) * pow2 ?e"
    using False by (simp add: rnd_def algebra_simps)
  then have "\<bar>rnd q - q\<bar> = \<bar>of_int (round_even (q / pow2 ?e)) - q / pow2 ?e\<bar> * pow2 ?e"
    by (simp add: abs_mult)
  also have "\<dots> \<le> 1 / 2 * pow2 ?e" by (intro mult_right_mono round_even_near) simp
  also have "\<dots> = pow2 (?e - 1)" by (simp add: pow2_diff)
  finally show ?thesis using e by linarith
qed (use pow2_pos(2) [of "- 1075"] in simp)

text \<open>The finite doubles; they are fixed points of rounding.\<close>

definition is_double :: "rat \<Rightarrow> bool" where
  "is_double v \<longleftrightarrow> (\<exists>m e. v = of_int m * pow2 e \<and> \<bar>m\<bar> < 2 ^ 53 \<and> - 1074 \<le> e)"

lemma rnd_double:
  assumes "is_double v"
  shows "rnd v = v"
proof (cases "v = 0")
  case False
  obtain m e where v: "v = of_int m * pow2 e" and m: "\<bar>m\<bar> < 2 ^ 53" and e: "- 1074 \<le> e"
    using assms by (auto simp: is_double_def)
  have "\<bar>rat_of_int m\<bar> < pow2 53" using m pow2_int [of 53] by (simp flip: of_int_abs)
  then have "\<bar>v\<bar> < pow2 (53 + e)" by (simp add: v abs_mult pow2_add)
  moreover have "pow2 (ilog2 \<bar>v\<bar>) \<le> \<bar>v\<bar>" using False by (intro ilog2_bounds(1)) simp
  ultimately have "ilog2 \<bar>v\<bar> < 53 + e" using pow2_less_iff order_le_less_trans by blast
  then have le: "last_place v \<le> e" using e by (simp add: last_place_def)
  then obtain k where k: "e - last_place v = int k" using nonneg_int_cases [of "e - last_place v"] by auto
  have "v / pow2 (last_place v) = of_int m * pow2 (e - last_place v)" by (simp add: v pow2_diff)
  also have "\<dots> = of_int (m * 2 ^ k)" by (simp add: k pow2_int)
  finally have "rnd v = of_int (m * 2 ^ k) * pow2 (last_place v)"
    using False by (simp only: rnd_def round_even_of_int if_False)
  also have "\<dots> = of_int m * pow2 (int k + last_place v)" by (simp add: pow2_add pow2_int)
  finally show ?thesis using k by (simp add: v algebra_simps)
qed simp

lemma is_double_pow2: "- 1074 \<le> e \<Longrightarrow> is_double (pow2 e)"
  unfolding is_double_def by (intro exI [of _ 1] exI [of _ e]) simp

lemma rnd_upper:
  assumes "0 < p"
  shows "rnd p \<le> pow2 (last_place p + 53)"
proof -
  have "ilog2 p + 1 \<le> last_place p + 53" using assms by (simp add: last_place_def)
  then have "pow2 (ilog2 p + 1) \<le> pow2 (last_place p + 53)" by (simp only: pow2_le_iff)
  then have "p \<le> pow2 (last_place p + 53)" using ilog2_bounds(2) [OF assms] by linarith
  then have "p / pow2 (last_place p) \<le> of_int (2 ^ 53)" using pow2_int [of 53] by (simp add: pow2_add field_simps)
  then have "round_even (p / pow2 (last_place p)) \<le> 2 ^ 53"
    using round_even_mono round_even_of_int by metis
  then have "of_int (round_even (p / pow2 (last_place p))) \<le> rat_of_int (2 ^ 53)" by (simp only: of_int_le_iff)
  then show ?thesis using assms pow2_int [of 53] by (simp add: rnd_def pow2_add)
qed

lemma rnd_lower:
  assumes "0 < q" and "- 1074 < last_place q"
  shows "pow2 (last_place q + 52) \<le> rnd q"
proof -
  have "last_place q + 52 = ilog2 q" using assms by (simp add: last_place_def max_def split: if_splits)
  then have "pow2 (last_place q + 52) \<le> q" using ilog2_bounds(1) [OF assms(1)] by simp
  then have "of_int (2 ^ 52) \<le> q / pow2 (last_place q)" using pow2_int [of 52] by (simp add: pow2_add field_simps)
  then have "2 ^ 52 \<le> round_even (q / pow2 (last_place q))"
    using round_even_mono round_even_of_int by metis
  then have "rat_of_int (2 ^ 52) \<le> of_int (round_even (q / pow2 (last_place q)))" by (simp only: of_int_le_iff)
  then show ?thesis using assms pow2_int [of 52] by (simp add: rnd_def pow2_add)
qed

lemma rnd_mono:
  assumes "0 \<le> p" "p \<le> q"
  shows "rnd p \<le> rnd q"
proof (cases "p = 0")
  case True
  with assms show ?thesis by (simp add: rnd_nonneg)
next
  case False
  with assms have p: "0 < p" "0 < q" by simp_all
  show ?thesis
  proof (cases "last_place p = last_place q")
    case True
    with assms p show ?thesis
      by (simp add: rnd_def round_even_mono divide_right_mono mult_right_mono)
  next
    case False
    then have "last_place p + 53 \<le> last_place q + 52" using last_place_mono [of p q] p assms by simp
    then have le: "pow2 (last_place p + 53) \<le> pow2 (last_place q + 52)" by (simp only: pow2_le_iff)
    moreover have "- 1074 \<le> last_place p" by (simp add: last_place_def)
    ultimately have "- 1074 < last_place q" by simp
    with le show ?thesis using rnd_upper [OF p(1)] rnd_lower [OF p(2)] by linarith
  qed
qed

text \<open>For evaluation: numbers of ordinary size need no comparison with \<open>2\<^sup>1\<^sup>0\<^sup>2\<^sup>4\<close>.\<close>

lemma js_round_code [code]:
  "js_round q =
     (let v = rnd q in
      if - 18446744073709551616 < v \<and> v < 18446744073709551616 then Fin v
      else if pow2 1024 \<le> v then PInf else if v \<le> - pow2 1024 then NInf else Fin v)"
proof -
  have "pow2 64 = 18446744073709551616" using pow2_int [of 64] by simp
  then have "18446744073709551616 < pow2 1024" using pow2_less_iff [of 64 1024] by simp
  then show ?thesis by (simp add: js_round_def Let_def)
qed

end
