(* ===== verification/Bridge_Http.thy ===== *)
theory Bridge_Http
  imports Js_Number Operator_Scripts
begin

text \<open>
  The HTTP front of the bridge, \<^verbatim>\<open>ts/bridge/src/index.ts\<close>: the bearer tokens, the token-bucket
  \<^verbatim>\<open>RateLimiter\<close> with its double arithmetic, and the request handler of \<^verbatim>\<open>main\<close>.

  A request carries its parsed body, \<open>None\<close> when \<^verbatim>\<open>JSON.parse\<close> throws; the fields of a parsed body
  have the types of the interface \<^verbatim>\<open>QuoteRequest\<close>.  The clock is read twice per request, by the
  limiter in milliseconds and by \<open>handleQuote\<close> in seconds; both readings are arguments.
\<close>

section \<open>Bearer tokens\<close>

text \<open>\<^verbatim>\<open>split(",")\<close>.\<close>

fun split_commas :: "string \<Rightarrow> string list" where
  "split_commas [] = [[]]"
| "split_commas (c # cs) =
     (if c = CHR '','' then [] # split_commas cs
      else case split_commas cs of [] \<Rightarrow> [[c]] | p # ps \<Rightarrow> (c # p) # ps)"

datatype token_error = NoTokens

definition loadAuthTokens :: "string option \<Rightarrow> token_error + string list option" where
  "loadAuthTokens envValue =
     (case envValue of
        None \<Rightarrow> Inr None
      | Some s \<Rightarrow>
          if s = [] then Inr None
          else let tokens = filter (\<lambda>t. 0 < length t) (map js_trim (split_commas s)) in
               if tokens = [] then Inl NoTokens else Inr (Some tokens))"

section \<open>The rate limiter\<close>

record bucket =
  bucket_tokens :: jsnum
  last_seen :: jsnum

record RateLimiter =
  capacity :: jsnum
  refillPerSecond :: jsnum
  buckets :: "string \<rightharpoonup> bucket"

definition new_RateLimiter :: "jsnum \<Rightarrow> jsnum \<Rightarrow> RateLimiter" where
  "new_RateLimiter cap refill = \<lparr> capacity = cap, refillPerSecond = refill, buckets = Map.empty \<rparr>"

definition RateLimiter_consume :: "int \<Rightarrow> string \<Rightarrow> jsnum \<Rightarrow> RateLimiter \<Rightarrow> bool \<times> RateLimiter" where
  "RateLimiter_consume date_now k cost rl =
     (let now = js_div (Fin (of_int date_now)) (Fin 1000);
          b = (case buckets rl k of Some b \<Rightarrow> b | None \<Rightarrow> \<lparr> bucket_tokens = capacity rl, last_seen = now \<rparr>);
          elapsed = js_sub now (last_seen b);
          t = js_min (capacity rl) (js_add (bucket_tokens b) (js_mult elapsed (refillPerSecond rl)))
      in if js_less t cost
         then (False, rl\<lparr>buckets := (buckets rl)(k \<mapsto> \<lparr> bucket_tokens = t, last_seen = now \<rparr>)\<rparr>)
         else (True, rl\<lparr>buckets := (buckets rl)(k \<mapsto> \<lparr> bucket_tokens = js_sub t cost, last_seen = now \<rparr>)\<rparr>))"

section \<open>The request handler\<close>

record http_request =
  req_method :: string
  req_url :: string
  req_authorization :: "string option"
  req_remoteAddress :: "string option"
  req_body :: "QuoteRequest option"

datatype http_response =
    HealthOk | QuoteReply QuoteResponse | Unauthorized | RateLimited | BadRequest "bridge_error option" | NotFound

fun http_status :: "http_response \<Rightarrow> nat" where
  "http_status HealthOk = 200"
| "http_status (QuoteReply r) = 200"
| "http_status Unauthorized = 401"
| "http_status RateLimited = 429"
| "http_status (BadRequest e) = 400"
| "http_status NotFound = 404"

text \<open>The key of the caller's bucket; \<open>None\<close> is the answer 401.\<close>

definition bearer :: "http_request \<Rightarrow> string option" where
  "bearer req =
     (case req_authorization req of
        None \<Rightarrow> None
      | Some auth \<Rightarrow> if take 7 auth = ''Bearer '' then Some (drop 7 auth) else None)"

definition rate_key :: "string list option \<Rightarrow> http_request \<Rightarrow> string option" where
  "rate_key authTokens req =
     (case authTokens of
        Some toks \<Rightarrow>
          (case bearer req of
             None \<Rightarrow> None
           | Some token \<Rightarrow> if token = [] \<or> token \<notin> set toks then None else Some (''tok:'' @ token))
      | None \<Rightarrow> Some (''ip:'' @ (case req_remoteAddress req of Some a \<Rightarrow> a | None \<Rightarrow> ''unknown'')))"

definition bridge_handler ::
  "bridge_env \<Rightarrow> bridge_config \<Rightarrow> string list option \<Rightarrow> int \<Rightarrow> int \<Rightarrow> http_request \<Rightarrow> RateLimiter
     \<Rightarrow> http_response \<times> RateLimiter" where
  "bridge_handler env cfg authTokens date_now now req rl =
     (if req_method req = ''GET'' \<and> req_url req = ''/health'' then (HealthOk, rl)
      else if req_method req = ''POST'' \<and> req_url req = ''/quote'' then
        (case rate_key authTokens req of
           None \<Rightarrow> (Unauthorized, rl)
         | Some k \<Rightarrow>
             let (granted, rl') = RateLimiter_consume date_now k (Fin 1) rl in
             if \<not> granted then (RateLimited, rl')
             else (case req_body req of
                     None \<Rightarrow> (BadRequest None, rl')
                   | Some body \<Rightarrow>
                       (case handleQuote env cfg now body of
                          Inl e \<Rightarrow> (BadRequest (Some e), rl')
                        | Inr r \<Rightarrow> (QuoteReply r, rl'))))
      else (NotFound, rl))"

section \<open>Who is served\<close>

lemma bridge_handler_QuoteReply:
  assumes "bridge_handler env cfg toks date_now now req rl = (QuoteReply r, rl')"
  obtains k body where "rate_key toks req = Some k" "RateLimiter_consume date_now k (Fin 1) rl = (True, rl')"
    "req_body req = Some body" "handleQuote env cfg now body = Inr r"
  using assms
  by (auto simp: bridge_handler_def split: if_splits option.splits prod.splits sum.splits)

lemma rate_key_token:
  assumes "rate_key (Some toks) req = Some k"
  obtains token where "req_authorization req = Some (''Bearer '' @ token)" "token \<in> set toks" "k = ''tok:'' @ token"
proof -
  obtain auth where auth: "req_authorization req = Some auth" "take 7 auth = ''Bearer ''"
    "drop 7 auth \<in> set toks" "k = ''tok:'' @ drop 7 auth"
    using assms by (auto simp: rate_key_def bearer_def split: option.splits if_splits)
  then have "auth = ''Bearer '' @ drop 7 auth" by (metis append_take_drop_id)
  with auth that show ?thesis by metis
qed

lemma split_commas_not_Nil: "split_commas s \<noteq> []"
  by (induction s) (auto split: list.splits)

text \<open>An accepted list of tokens is not empty and holds no empty token.\<close>

lemma loadAuthTokens_Some: "loadAuthTokens e = Inr (Some toks) \<Longrightarrow> toks \<noteq> [] \<and> [] \<notin> set toks"
  by (auto simp: loadAuthTokens_def Let_def split: option.splits if_splits)

end
