(* ===== verification/Rate_Limit.thy ===== *)
theory Rate_Limit
  imports Bridge_Http
begin

text \<open>
  What the token buckets of the bridge guarantee, with the rounding of every double operation
  accounted for: the levels stay between zero and the capacity, and over any run of requests a
  caller is served at most the capacity plus the refill of the elapsed time, up to a rounding
  error per request.
\<close>

section \<open>Double arithmetic without a sign\<close>

lemma js_round_Fin: "0 \<le> q \<Longrightarrow> rnd q < pow2 1024 \<Longrightarrow> js_round q = Fin (rnd q)"
  using rnd_nonneg [of q] pow2_pos(1) [of 1024] by (simp add: js_round_def Let_def)

lemma js_round_PInf: "pow2 1024 \<le> rnd q \<Longrightarrow> js_round q = PInf"
  by (simp add: js_round_def)

lemma rnd_large: "pow2 1024 \<le> q \<Longrightarrow> pow2 1024 \<le> rnd q"
  using rnd_mono [of "pow2 1024" q] rnd_double [OF is_double_pow2 [of 1024]] by simp

lemma js_min_Fin: "js_min (Fin a) (Fin b) = Fin (min a b)"
  by (simp add: js_min_def min_def)

text \<open>An overflow on the way makes the sum infinite, and the minimum is the capacity all the same.\<close>

lemma refill_level:
  assumes "0 \<le> t" "0 \<le> x" "0 \<le> r" "c < pow2 1024"
  shows "js_min (Fin c) (js_add (Fin t) (js_mult (Fin x) (Fin r))) = Fin (min c (rnd (t + rnd (x * r))))"
proof (cases "rnd (x * r) < pow2 1024")
  case True
  have y: "0 \<le> rnd (x * r)" "js_mult (Fin x) (Fin r) = Fin (rnd (x * r))"
    using assms True by (simp_all add: rnd_nonneg js_round_Fin)
  show ?thesis
  proof (cases "rnd (t + rnd (x * r)) < pow2 1024")
    case True
    with y assms show ?thesis by (simp add: js_round_Fin js_min_Fin del: js_mult.simps)
  next
    case False
    with y assms show ?thesis by (simp add: js_round_PInf js_min_def min_def del: js_mult.simps)
  qed
next
  case False
  then have "pow2 1024 \<le> rnd (t + rnd (x * r))" using assms by (intro rnd_large) simp
  with False assms show ?thesis by (simp add: js_round_PInf js_min_def min_def)
qed

section \<open>One call of the limiter\<close>

text \<open>The clock in seconds, and the range of \<^verbatim>\<open>Date.now()\<close> from the epoch on.\<close>

definition secs :: "int \<Rightarrow> rat" where
  "secs ms = rnd (of_int ms / 1000)"

definition valid_time :: "int \<Rightarrow> bool" where
  "valid_time ms \<longleftrightarrow> 0 \<le> ms \<and> ms \<le> 8640000000000000"

lemma secs_mono: "0 \<le> a \<Longrightarrow> a \<le> b \<Longrightarrow> secs a \<le> secs b"
  unfolding secs_def by (intro rnd_mono) (simp_all add: divide_right_mono)

lemma secs_nonneg: "0 \<le> ms \<Longrightarrow> 0 \<le> secs ms"
  by (simp add: secs_def rnd_nonneg)

lemma secs_bound: "valid_time ms \<Longrightarrow> secs ms \<le> pow2 53"
proof -
  assume v: "valid_time ms"
  have "rat_of_int ms \<le> 8640000000000000" using v by (simp add: valid_time_def)
  then have "of_int ms / 1000 \<le> pow2 53" using pow2_int [of 53] by simp
  then show ?thesis using rnd_mono [of "of_int ms / 1000" "pow2 53"] v rnd_double [OF is_double_pow2 [of 53]]
    by (simp add: secs_def valid_time_def)
qed

lemma small_finite: "0 \<le> q \<Longrightarrow> q \<le> pow2 53 \<Longrightarrow> js_round q = Fin (rnd q)"
proof -
  assume "0 \<le> q" "q \<le> pow2 53"
  then have "rnd q \<le> pow2 53" using rnd_mono [of q "pow2 53"] rnd_double [OF is_double_pow2 [of 53]] by simp
  moreover have "pow2 53 < pow2 1024" by simp
  ultimately show ?thesis using \<open>0 \<le> q\<close> by (intro js_round_Fin) linarith+
qed

text \<open>A sound limiter: finite numbers, no negative ones, and a level within the capacity.\<close>

definition limiter_params :: "RateLimiter \<Rightarrow> rat \<Rightarrow> rat \<Rightarrow> bool" where
  "limiter_params rl c r \<longleftrightarrow> capacity rl = Fin c \<and> refillPerSecond rl = Fin r
     \<and> is_double c \<and> 0 \<le> c \<and> c \<le> pow2 53 \<and> 0 \<le> r"

text \<open>A bucket not later than \<open>s\<close> holds \<open>t\<close> tokens since \<open>l\<close>; a caller not seen before has a full one.\<close>

definition bucket_holds :: "rat \<Rightarrow> rat \<Rightarrow> bucket option \<Rightarrow> rat \<Rightarrow> rat \<Rightarrow> bool" where
  "bucket_holds c s ob t l \<longleftrightarrow>
     (case ob of
        None \<Rightarrow> t = c \<and> l = s
      | Some b \<Rightarrow> b = \<lparr> bucket_tokens = Fin t, last_seen = Fin l \<rparr> \<and> 0 \<le> t \<and> t \<le> c \<and> 0 \<le> l \<and> l \<le> s)"

definition refilled :: "rat \<Rightarrow> rat \<Rightarrow> rat \<Rightarrow> rat \<Rightarrow> rat" where
  "refilled c r t elapsed = min c (rnd (t + rnd (rnd elapsed * r)))"

definition after_call :: "rat \<Rightarrow> rat" where
  "after_call t1 = (if 1 \<le> t1 then rnd (t1 - 1) else t1)"

lemma bucket_holds_bounds:
  assumes "limiter_params rl c r" "0 \<le> s" "bucket_holds c s ob t l"
  shows "0 \<le> t" "t \<le> c" "0 \<le> l" "l \<le> s"
  using assms by (auto simp: bucket_holds_def limiter_params_def split: option.splits)

lemma refilled_bounds:
  assumes "limiter_params rl c r" "0 \<le> t" "0 \<le> x"
  shows "0 \<le> refilled c r t x" "refilled c r t x \<le> c"
  using assms by (auto simp: refilled_def limiter_params_def rnd_nonneg)

lemma after_call_bounds:
  assumes "limiter_params rl c r" "0 \<le> t" "t \<le> c"
  shows "0 \<le> after_call t" "after_call t \<le> c"
  using assms rnd_mono [of "t - 1" c] rnd_double [of c]
  by (auto simp: after_call_def limiter_params_def rnd_nonneg)

lemma limiter_call_exact:
  assumes P: "limiter_params rl c r" and ms: "valid_time ms" and b: "bucket_holds c (secs ms) (buckets rl k) t l"
  shows "RateLimiter_consume ms k (Fin 1) rl =
     (let t1 = refilled c r t (secs ms - l)
      in (1 \<le> t1, rl\<lparr>buckets := (buckets rl)(k \<mapsto> \<lparr> bucket_tokens = Fin (after_call t1), last_seen = Fin (secs ms) \<rparr>)\<rparr>))"
proof -
  let ?t1 = "refilled c r t (secs ms - l)"
  have s: "0 \<le> secs ms" using ms by (simp add: secs_nonneg valid_time_def)
  note B = bucket_holds_bounds [OF P s b]
  have "of_int ms / 1000 \<le> pow2 53" using ms pow2_int [of 53] by (simp add: valid_time_def field_simps flip: of_int_le_iff)
  then have now: "js_div (Fin (of_int ms)) (Fin 1000) = Fin (secs ms)"
    using ms by (simp add: secs_def small_finite valid_time_def)
  have "secs ms - l \<le> pow2 53" using B secs_bound [OF ms] by linarith
  then have elapsed: "js_sub (Fin (secs ms)) (Fin l) = Fin (rnd (secs ms - l))"
    using B by (simp add: js_sub_def small_finite)
  have x: "0 \<le> rnd (secs ms - l)" using B by (simp add: rnd_nonneg)
  have c: "c < pow2 1024" using P pow2_less_iff [of 53 1024] by (auto simp: limiter_params_def simp del: pow2_less_iff)
  have lev: "js_min (Fin c) (js_add (Fin t) (js_mult (Fin (rnd (secs ms - l))) (Fin r))) = Fin ?t1"
    using refill_level [OF B(1) x _ c] P by (simp add: refilled_def limiter_params_def)
  have spend: "js_sub (Fin ?t1) (Fin 1) = Fin (rnd (?t1 - 1))" if "1 \<le> ?t1"
    using that refilled_bounds(2) [OF P B(1), of "secs ms - l"] B P
    by (simp add: js_sub_def small_finite limiter_params_def)
  have bk: "(case buckets rl k of Some b \<Rightarrow> b | None \<Rightarrow> \<lparr> bucket_tokens = Fin c, last_seen = Fin (secs ms) \<rparr>)
      = \<lparr> bucket_tokens = Fin t, last_seen = Fin l \<rparr>"
    using b P by (simp add: bucket_holds_def limiter_params_def split: option.splits)
  have cap: "capacity rl = Fin c" "refillPerSecond rl = Fin r" using P by (simp_all add: limiter_params_def)
  show ?thesis
    unfolding RateLimiter_consume_def now Let_def cap bk
    by (simp only: bucket.simps elapsed lev) (simp add: js_less_def after_call_def spend)
qed

lemma limiter_call_other:
  assumes "RateLimiter_consume ms k' cost rl = (g, rl')"
  shows "capacity rl' = capacity rl" "refillPerSecond rl' = refillPerSecond rl"
    "k \<noteq> k' \<Longrightarrow> buckets rl' k = buckets rl k"
  using assms by (auto simp: RateLimiter_consume_def Let_def split: if_splits)

lemma limiter_call_params: "RateLimiter_consume ms k' cost rl = (g, rl') \<Longrightarrow> limiter_params rl c r \<Longrightarrow> limiter_params rl' c r"
  using limiter_call_other(1,2) [of ms k' cost rl g rl'] by (simp add: limiter_params_def)

section \<open>The account of one call\<close>

text \<open>The refill rate with two rounding errors, and the absolute error of one call.\<close>

definition true_rate :: "rat \<Rightarrow> rat" where
  "true_rate r = r * (1 + pow2 (- 53)) ^ 2"

definition call_slack :: "rat \<Rightarrow> rat \<Rightarrow> rat" where
  "call_slack c r = 2 * c * pow2 (- 53) + 3 * pow2 (- 1075) + pow2 (- 1075) * r * (1 + pow2 (- 53))"

lemma rnd_above: "0 \<le> q \<Longrightarrow> rnd q \<le> q * (1 + pow2 (- 53)) + pow2 (- 1075)"
  using rnd_near [of q] by (simp add: algebra_simps)

lemma rnd_above_bounded:
  assumes "0 \<le> q" "q \<le> c"
  shows "rnd q \<le> q + c * pow2 (- 53) + pow2 (- 1075)"
proof -
  have "q * pow2 (- 53) \<le> c * pow2 (- 53)" using assms by (intro mult_right_mono) simp_all
  moreover have "rnd q \<le> q + q * pow2 (- 53) + pow2 (- 1075)" using rnd_above [OF assms(1)] by (simp add: algebra_simps)
  ultimately show ?thesis by linarith
qed

lemma refill_above:
  assumes "0 \<le> x" "0 \<le> r"
  shows "rnd (rnd x * r) \<le> true_rate r * x + pow2 (- 1075) * r * (1 + pow2 (- 53)) + pow2 (- 1075)"
proof -
  let ?u = "1 + pow2 (- 53)" and ?h = "pow2 (- 1075)"
  have "rnd (rnd x * r) \<le> rnd x * r * ?u + ?h" using assms by (intro rnd_above) (simp add: rnd_nonneg)
  also have "rnd x * r * ?u \<le> (x * ?u + ?h) * r * ?u"
    using assms rnd_above [of x] by (intro mult_right_mono) simp_all
  finally show ?thesis by (simp add: true_rate_def algebra_simps power2_eq_square)
qed

lemma spend_above:
  assumes "0 \<le> c" "t1 \<le> c"
  shows "after_call t1 + of_bool (1 \<le> t1) \<le> t1 + (c * pow2 (- 53) + pow2 (- 1075))"
proof (cases "1 \<le> t1")
  case True
  then have "rnd (t1 - 1) \<le> t1 - 1 + c * pow2 (- 53) + pow2 (- 1075)" using rnd_above_bounded [of "t1 - 1" c] assms by simp
  with True show ?thesis by (simp add: after_call_def)
next
  case False
  have "0 \<le> c * pow2 (- 53)" "0 \<le> pow2 (- 1075)" using assms by simp_all
  with False show ?thesis by (simp add: after_call_def)
qed

lemma add_chain:
  fixes a b y e t z w :: rat
  assumes "a \<le> t + y + e" "b \<le> a + e" "y + 2 * e \<le> z + w"
  shows "b \<le> t + z + w"
  using assms by linarith

lemma call_account:
  assumes P: "limiter_params rl c r" and t: "0 \<le> t" "t \<le> c" and x: "0 \<le> x"
  shows "after_call (refilled c r t x) + of_bool (1 \<le> refilled c r t x) \<le> t + true_rate r * x + call_slack c r"
proof -
  let ?t1 = "refilled c r t x" and ?y = "rnd (rnd x * r)" and ?e = "c * pow2 (- 53) + pow2 (- 1075)"
  have r: "0 \<le> r" "0 \<le> c" using P by (simp_all add: limiter_params_def)
  then have y: "0 \<le> ?y" using x by (simp add: rnd_nonneg)
  have e: "0 \<le> ?e" using r by simp
  have "?t1 \<le> t + ?y + ?e"
  proof (cases "t + ?y \<le> c")
    case True
    then have "rnd (t + ?y) \<le> t + ?y + ?e" using rnd_above_bounded [of "t + ?y" c] t y by simp
    then show ?thesis by (simp add: refilled_def min_le_iff_disj)
  next
    case False
    then have "c \<le> t + ?y + ?e" using e by linarith
    then show ?thesis by (simp add: refilled_def min_le_iff_disj)
  qed
  moreover have "after_call ?t1 + of_bool (1 \<le> ?t1) \<le> ?t1 + ?e"
    by (rule spend_above [OF r(2) refilled_bounds(2) [OF P t(1) x]])
  moreover have "?y + 2 * ?e \<le> true_rate r * x + call_slack c r"
    using refill_above [OF x r(1)] by (simp add: call_slack_def algebra_simps)
  ultimately show ?thesis by (rule add_chain)
qed

text \<open>Whatever the time since the last call, it is worth at most a full bucket.\<close>

lemma call_account_full:
  assumes P: "limiter_params rl c r" and t: "0 \<le> t" and x: "0 \<le> x"
  shows "after_call (refilled c r t x) + of_bool (1 \<le> refilled c r t x) \<le> c + call_slack c r"
proof -
  have r: "0 \<le> r" "0 \<le> c" using P by (simp_all add: limiter_params_def)
  then have "0 \<le> pow2 (- 1075) * r * (1 + pow2 (- 53))" "0 \<le> c * pow2 (- 53)" "0 \<le> pow2 (- 1075)" by simp_all
  then have "c * pow2 (- 53) + pow2 (- 1075) \<le> call_slack c r" unfolding call_slack_def by linarith
  moreover note spend_above [OF r(2) refilled_bounds(2) [OF P t x]] refilled_bounds(2) [OF P t x]
  ultimately show ?thesis by linarith
qed

section \<open>Runs of requests\<close>

text \<open>An arrival: the limiter's clock in milliseconds, the quote's clock in seconds, the request.\<close>

type_synonym arrival = "int \<times> int \<times> http_request"

fun bridge_run ::
  "bridge_env \<Rightarrow> bridge_config \<Rightarrow> string list option \<Rightarrow> arrival list \<Rightarrow> RateLimiter
     \<Rightarrow> (string option \<times> http_response) list" where
  "bridge_run env cfg toks [] rl = []"
| "bridge_run env cfg toks ((ms, now, req) # as) rl =
     (let (resp, rl') = bridge_handler env cfg toks ms now req rl
      in (rate_key toks req, resp) # bridge_run env cfg toks as rl')"

fun is_quote :: "http_response \<Rightarrow> bool" where
  "is_quote (QuoteReply r) \<longleftrightarrow> True"
| "is_quote _ \<longleftrightarrow> False"

fun quotes_to :: "string \<Rightarrow> (string option \<times> http_response) list \<Rightarrow> nat" where
  "quotes_to k [] = 0"
| "quotes_to k ((k', resp) # es) = (if k' = Some k \<and> is_quote resp then 1 else 0) + quotes_to k es"

lemma bridge_handler_cases:
  assumes "bridge_handler env cfg toks ms now req rl = (resp, rl')"
  obtains (untouched) "\<not> is_quote resp" "rl' = rl"
  | (call) k g where "rate_key toks req = Some k" "RateLimiter_consume ms k (Fin 1) rl = (g, rl')" "is_quote resp \<longrightarrow> g"
  using assms
  by (auto simp: bridge_handler_def split: if_splits option.splits prod.splits sum.splits)

text \<open>What a bucket can give at a later time, were nothing rounded.\<close>

definition worth :: "rat \<Rightarrow> rat \<Rightarrow> rat \<Rightarrow> rat \<Rightarrow> rat" where
  "worth c r t idle = min c (t + true_rate r * idle)"

lemma true_rate_nonneg: "limiter_params rl c r \<Longrightarrow> 0 \<le> true_rate r"
  by (simp add: true_rate_def limiter_params_def)

lemma call_slack_nonneg: "limiter_params rl c r \<Longrightarrow> 0 \<le> call_slack c r"
  by (simp add: call_slack_def limiter_params_def)

lemma bucket_holds_later:
  assumes P: "limiter_params rl c r" and b: "bucket_holds c s ob t l" and s: "s \<le> s'"
  shows "\<exists>l'. bucket_holds c s' ob t l' \<and> worth c r t (s' - l') \<le> worth c r t (s - l) + true_rate r * (s' - s)"
proof (cases ob)
  case None
  then show ?thesis using b s true_rate_nonneg [OF P] by (auto simp: bucket_holds_def worth_def)
next
  case (Some bk)
  have "true_rate r * (s' - l) = true_rate r * (s - l) + true_rate r * (s' - s)" by (simp add: algebra_simps)
  moreover have "0 \<le> true_rate r * (s' - s)" using s true_rate_nonneg [OF P] by simp
  ultimately have "worth c r t (s' - l) \<le> worth c r t (s - l) + true_rate r * (s' - s)" by (simp add: worth_def min_def)
  with Some b s show ?thesis by (intro exI [of _ l]) (auto simp: bucket_holds_def)
qed

text \<open>One arrival, seen from the bucket of one caller.\<close>

lemma arrival_account:
  assumes P: "limiter_params rl c r" and ms: "valid_time ms" and b: "bucket_holds c (secs ms) (buckets rl k) t l"
    and h: "bridge_handler env cfg toks ms now req rl = (resp, rl')"
  shows "limiter_params rl' c r \<and> (\<exists>t' l'. bucket_holds c (secs ms) (buckets rl' k) t' l' \<and>
     worth c r t' (secs ms - l') + of_bool (rate_key toks req = Some k \<and> is_quote resp)
       \<le> worth c r t (secs ms - l) + call_slack c r)"
  using h
proof (cases rule: bridge_handler_cases)
  case untouched
  then show ?thesis
    using P b call_slack_nonneg [OF P] by (intro conjI, simp) (rule exI [of _ t], rule exI [of _ l], simp)
next
  case (call k' g)
  note P' = limiter_call_params [OF call(2) P]
  show ?thesis
  proof (cases "k = k'")
    case False
    with call P' b limiter_call_other(3) [OF call(2) False] show ?thesis
      using call_slack_nonneg [OF P] by (intro conjI, simp) (rule exI [of _ t], rule exI [of _ l], simp)
  next
    case True
    let ?x = "secs ms - l"
    let ?t1 = "refilled c r t ?x"
    have s: "0 \<le> secs ms" using ms by (simp add: secs_nonneg valid_time_def)
    note B = bucket_holds_bounds [OF P s b]
    then have x: "0 \<le> ?x" by simp
    have res: "g = (1 \<le> ?t1)" "buckets rl' k = Some \<lparr> bucket_tokens = Fin (after_call ?t1), last_seen = Fin (secs ms) \<rparr>"
      using limiter_call_exact [OF P ms b] call(2) True by (auto simp: Let_def)
    have "bucket_holds c (secs ms) (buckets rl' k) (after_call ?t1) (secs ms)"
      using after_call_bounds [OF P refilled_bounds [OF P B(1) x]] s by (simp add: bucket_holds_def res)
    moreover have "worth c r (after_call ?t1) 0 + of_bool (rate_key toks req = Some k \<and> is_quote resp)
        \<le> after_call ?t1 + of_bool (1 \<le> ?t1)"
      using call(3) res(1) by (auto simp: worth_def of_bool_def)
    moreover have "after_call ?t1 + of_bool (1 \<le> ?t1) \<le> worth c r t ?x + call_slack c r"
      using call_account [OF P B(1,2) x] call_account_full [OF P B(1) x] by (simp add: worth_def min_def)
    ultimately show ?thesis
      using P' by (intro conjI, simp) (rule exI [of _ "after_call ?t1"], rule exI [of _ "secs ms"], simp)
  qed
qed

lemma run_account:
  assumes "limiter_params rl c r" "valid_time m0" "bucket_holds c (secs m0) (buckets rl k) t l"
    and "sorted (m0 # map fst as @ [m1])" "\<forall>a\<in>set as. valid_time (fst a)"
  shows "of_nat (quotes_to k (bridge_run env cfg toks as rl))
      \<le> worth c r t (secs m0 - l) + true_rate r * (secs m1 - secs m0) + of_nat (length as) * call_slack c r"
  using assms
proof (induction as arbitrary: rl m0 t l)
  case Nil
  have s: "0 \<le> secs m0" "secs m0 \<le> secs m1" using Nil.prems by (simp_all add: secs_nonneg secs_mono valid_time_def)
  note B = bucket_holds_bounds [OF Nil.prems(1) s(1) Nil.prems(3)]
  show ?case using B s true_rate_nonneg [OF Nil.prems(1)] by (simp add: worth_def)
next
  case (Cons a as)
  obtain ms now req where a: "a = (ms, now, req)" by (cases a) auto
  obtain resp rl' where h: "bridge_handler env cfg toks ms now req rl = (resp, rl')" by force
  have times: "valid_time ms" "m0 \<le> ms" "sorted (ms # map fst as @ [m1])"
    using Cons.prems(4,5) by (simp_all add: a)
  then have "secs m0 \<le> secs ms" using Cons.prems(2) by (simp add: secs_mono valid_time_def)
  then obtain l1 where l1: "bucket_holds c (secs ms) (buckets rl k) t l1"
    "worth c r t (secs ms - l1) \<le> worth c r t (secs m0 - l) + true_rate r * (secs ms - secs m0)"
    using bucket_holds_later [OF Cons.prems(1,3)] by blast
  let ?g = "of_bool (rate_key toks req = Some k \<and> is_quote resp) :: rat"
  obtain t' l' where P': "limiter_params rl' c r" and b': "bucket_holds c (secs ms) (buckets rl' k) t' l'"
    and acc: "worth c r t' (secs ms - l') + ?g \<le> worth c r t (secs ms - l1) + call_slack c r"
    using arrival_account [OF Cons.prems(1) times(1) l1(1) h] by blast
  have "of_nat (quotes_to k (bridge_run env cfg toks as rl'))
      \<le> worth c r t' (secs ms - l') + true_rate r * (secs m1 - secs ms) + of_nat (length as) * call_slack c r"
    using Cons.IH [OF P' times(1) b' times(3)] Cons.prems(5) by simp
  moreover have "true_rate r * (secs m1 - secs m0) = true_rate r * (secs m1 - secs ms) + true_rate r * (secs ms - secs m0)"
    by (simp add: algebra_simps)
  moreover have "rat_of_nat (quotes_to k (bridge_run env cfg toks (a # as) rl))
      = ?g + of_nat (quotes_to k (bridge_run env cfg toks as rl'))" by (simp add: a h)
  moreover have "rat_of_nat (length (a # as)) * call_slack c r = of_nat (length as) * call_slack c r + call_slack c r"
    by (simp add: algebra_simps)
  ultimately show ?case using acc l1(2) by linarith
qed

section \<open>The default configuration\<close>

text \<open>A limiter after some arrivals.\<close>

fun bridge_state ::
  "bridge_env \<Rightarrow> bridge_config \<Rightarrow> string list option \<Rightarrow> arrival list \<Rightarrow> RateLimiter \<Rightarrow> RateLimiter" where
  "bridge_state env cfg toks [] rl = rl"
| "bridge_state env cfg toks ((ms, now, req) # as) rl =
     bridge_state env cfg toks as (snd (bridge_handler env cfg toks ms now req rl))"

lemma state_holds:
  assumes "limiter_params rl c r" "valid_time m0" "bucket_holds c (secs m0) (buckets rl k) t l"
    and "sorted (m0 # map fst as @ [m1])" "\<forall>a\<in>set as. valid_time (fst a)"
  shows "limiter_params (bridge_state env cfg toks as rl) c r
     \<and> (\<exists>t l. bucket_holds c (secs m1) (buckets (bridge_state env cfg toks as rl) k) t l)"
  using assms
proof (induction as arbitrary: rl m0 t l)
  case Nil
  then have "secs m0 \<le> secs m1" by (simp add: secs_mono valid_time_def)
  from bucket_holds_later [OF Nil.prems(1,3) this] Nil.prems(1) show ?case by auto
next
  case (Cons a as)
  obtain ms now req where a: "a = (ms, now, req)" by (cases a) auto
  obtain resp rl' where h: "bridge_handler env cfg toks ms now req rl = (resp, rl')" by force
  have times: "valid_time ms" "m0 \<le> ms" "sorted (ms # map fst as @ [m1])"
    using Cons.prems(4,5) by (simp_all add: a)
  then have "secs m0 \<le> secs ms" using Cons.prems(2) by (simp add: secs_mono valid_time_def)
  then obtain l1 where "bucket_holds c (secs ms) (buckets rl k) t l1"
    using bucket_holds_later [OF Cons.prems(1,3)] by blast
  then obtain t' l' where "limiter_params rl' c r" "bucket_holds c (secs ms) (buckets rl' k) t' l'"
    using arrival_account [OF Cons.prems(1) times(1) _ h] by blast
  with Cons.IH [of rl' ms t' l'] times Cons.prems(5) show ?case by (simp add: a h)
qed

text \<open>\<^verbatim>\<open>new RateLimiter(30, 12 / 60)\<close>, the limiter when neither environment variable is set.\<close>

definition default_limiter :: RateLimiter where
  "default_limiter = new_RateLimiter (Fin 30) (js_div (Fin 12) (Fin 60))"

lemma default_refill: "js_div (Fin 12) (Fin 60) = Fin (3602879701896397 / 18014398509481984)"
  by code_simp

lemma default_params: "limiter_params default_limiter 30 (3602879701896397 / 18014398509481984)"
proof -
  have "is_double 30" unfolding is_double_def by (intro exI [of _ 30] exI [of _ 0]) simp
  then show ?thesis
    using pow2_int [of 53] by (simp add: limiter_params_def default_limiter_def new_RateLimiter_def default_refill del: js_div.simps)
qed

lemma fresh_holds: "buckets rl k = None \<Longrightarrow> bucket_holds c s (buckets rl k) c s"
  by (simp add: bucket_holds_def)

lemma pow2_m53: "pow2 (- 53) = 1 / 9007199254740992"
  using pow2_diff [of 0 53] pow2_int [of 53] by simp

lemma pow2_m1075: "pow2 (- 1075) \<le> 1 / 9007199254740992"
  using pow2_le_iff [of "- 1075" "- 53"] by (simp add: pow2_m53 del: pow2_le_iff)

lemma minute_in_seconds:
  assumes "valid_time m" "valid_time (m + 60000)"
  shows "secs (m + 60000) - secs m \<le> 60 + 1 / 100"
proof -
  have near: "\<bar>secs k - of_int k / 1000\<bar> \<le> 1 / 500" if "valid_time k" for k
  proof -
    have k: "0 \<le> rat_of_int k / 1000" "rat_of_int k / 1000 \<le> 8640000000000" using that by (simp_all add: valid_time_def)
    then have "\<bar>secs k - of_int k / 1000\<bar> \<le> of_int k / 1000 * pow2 (- 53) + pow2 (- 1075)"
      unfolding secs_def by (intro rnd_near)
    then show ?thesis using k(2) pow2_m1075 unfolding pow2_m53 by linarith
  qed
  have "- (secs m - of_int m / 1000) \<le> 1 / 500" "secs (m + 60000) - of_int (m + 60000) / 1000 \<le> 1 / 500"
    using near [OF assms(1)] near [OF assms(2)] by (simp_all only: abs_le_iff)
  moreover have "rat_of_int (m + 60000) / 1000 = of_int m / 1000 + 60" by simp
  ultimately show ?thesis by linarith
qed

text \<open>
  C19: no caller gets more than 42 quotes in a minute from a bridge with the default limits (a
  burst of 30 and 12 a minute).  Whatever requests came before, in any order from any callers,
  and whatever a billion requests of the minute ask for, the answers with a quote that count
  against one caller's bucket are at most 42, with every rounding of the double arithmetic
  included.
\<close>

theorem quotes_per_minute:
  assumes "sorted (map fst before @ [m0] @ map fst window @ [m0 + 60000])"
    and "\<forall>a\<in>set (before @ window). valid_time (fst a)" and "valid_time m0" "valid_time (m0 + 60000)"
    and "length window \<le> 1000000000"
  shows "quotes_to k (bridge_run env cfg toks window (bridge_state env cfg toks before default_limiter)) \<le> 42"
proof -
  let ?r = "3602879701896397 / 18014398509481984 :: rat" and ?rl = "bridge_state env cfg toks before default_limiter"
  have "valid_time 0" "sorted (0 # map fst before @ [m0])" "\<forall>a\<in>set before. valid_time (fst a)"
    using assms(1-3) by (auto simp: valid_time_def sorted_append)
  moreover have "bucket_holds 30 (secs 0) (buckets default_limiter k) 30 (secs 0)"
    by (rule fresh_holds) (simp add: default_limiter_def new_RateLimiter_def)
  ultimately obtain t l where P: "limiter_params ?rl 30 ?r" and b: "bucket_holds 30 (secs m0) (buckets ?rl k) t l"
    using state_holds [OF default_params] by blast
  have "of_nat (quotes_to k (bridge_run env cfg toks window ?rl))
      \<le> worth 30 ?r t (secs m0 - l) + true_rate ?r * (secs (m0 + 60000) - secs m0) + of_nat (length window) * call_slack 30 ?r"
    using assms by (intro run_account [OF P assms(3) b]) (auto simp: sorted_append)
  moreover have "worth 30 ?r t (secs m0 - l) \<le> 30" by (simp add: worth_def)
  moreover have "true_rate ?r * (secs (m0 + 60000) - secs m0) \<le> true_rate ?r * (60 + 1 / 100)"
    using minute_in_seconds [OF assms(3,4)] true_rate_nonneg [OF P] by (intro mult_left_mono)
  moreover have "true_rate ?r * (60 + 1 / 100) \<le> 12 + 1 / 100" by (simp add: true_rate_def pow2_m53 power2_eq_square)
  moreover have "call_slack 30 ?r \<le> 1 / 100000000000" using pow2_m1075 by (simp add: call_slack_def pow2_m53)
  then have "of_nat (length window) * call_slack 30 ?r \<le> 1000000000 * (1 / 100000000000)"
    using assms(5) call_slack_nonneg [OF P] by (intro mult_mono) simp_all
  ultimately have "rat_of_nat (quotes_to k (bridge_run env cfg toks window ?rl)) < of_nat 43" by simp
  then show ?thesis by (simp only: of_nat_less_iff)
qed

text \<open>Two callers with tokens, one of whom asks twice.\<close>

definition example_ask :: "string \<Rightarrow> http_request" where
  "example_ask token = \<lparr> req_method = ''POST'', req_url = ''/quote'', req_authorization = Some (''Bearer '' @ token),
     req_remoteAddress = None,
     req_body = Some \<lparr> agent_pubkey_b58 = ''agent'', pool_pubkey_b58 = ''pool'', nonce_hex = replicate 32 (CHR ''0''), ttl_seconds = None \<rparr> \<rparr>"

theorem quotes_per_minute_witness:
  "\<forall>env cfg. quotes_to ''tok:alice''
     (bridge_run env cfg (Some [''alice'', ''bob''])
        [(1700000000000, 1700000000, example_ask ''alice''), (1700000005000, 1700000005, example_ask ''alice'')]
        (bridge_state env cfg (Some [''alice'', ''bob'']) [(1699999990000, 1699999990, example_ask ''bob'')] default_limiter)) \<le> 42"
  by (intro allI quotes_per_minute [of _ 1700000000000]) (simp_all add: valid_time_def)

section \<open>A limiter with a number that is none\<close>

text \<open>
  \<^verbatim>\<open>Number("many")\<close> is NaN.  A limiter with such a capacity or refill rate never says no, since
  every comparison with NaN is false.
\<close>

lemma nan_never_limits:
  assumes "capacity rl = NaN \<or> refillPerSecond rl = NaN"
  shows "fst (RateLimiter_consume ms k cost rl)"
proof -
  have "js_min (capacity rl) (js_add x (js_mult y (refillPerSecond rl))) = NaN" for x y
    using assms by (cases x; cases y) (auto simp: js_min_def)
  then show ?thesis by (simp add: RateLimiter_consume_def Let_def js_less_def)
qed

end
