(* ===== verification/Base58_Loops.thy ===== *)
theory Base58_Loops
  imports Base58 "HOL-Library.While_Combinator"
begin

text \<open>
  The loops of \<^verbatim>\<open>bytesToBase58\<close> as they are written: an index into an array that is updated in
  place, and a \<^verbatim>\<open>while\<close> that pushes digits until the carry is used up.  \<open>while_option\<close> is \<open>None\<close>
  for a loop that does not end, so an equation with \<open>Some\<close> says that it does.  The shift and the
  truncation of JavaScript act on 32-bit integers.
\<close>

section \<open>The loops\<close>

definition to_int32 :: "int \<Rightarrow> int" where
  "to_int32 x = sint (word_of_int x :: 32 word)"

text \<open>\<^verbatim>\<open>x << 8\<close>, \<^verbatim>\<open>(x / 58) | 0\<close> and \<^verbatim>\<open>x % 58\<close>; the last has the sign of its first operand.\<close>

definition shl8 :: "int \<Rightarrow> int" where
  "shl8 x = to_int32 (to_int32 x * 256)"

definition div58 :: "int \<Rightarrow> int" where
  "div58 x = to_int32 (if 0 \<le> x then x div 58 else - ((- x) div 58))"

definition rem58 :: "int \<Rightarrow> int" where
  "rem58 x = (if 0 \<le> x then x mod 58 else - ((- x) mod 58))"

text \<open>The inner \<^verbatim>\<open>for\<close> loop on \<^verbatim>\<open>j\<close>, \<^verbatim>\<open>carry\<close> and \<^verbatim>\<open>digits\<close>.\<close>

definition digit_loop :: "int \<Rightarrow> int list \<Rightarrow> (nat \<times> int \<times> int list) option" where
  "digit_loop carry digits =
     while_option (\<lambda>(j, carry, digits). j < length digits)
       (\<lambda>(j, carry, digits). let c = carry + shl8 (digits ! j) in (j + 1, div58 c, digits[j := rem58 c]))
       (0, carry, digits)"

definition carry_loop :: "int \<Rightarrow> int list \<Rightarrow> (int \<times> int list) option" where
  "carry_loop carry digits =
     while_option (\<lambda>(carry, digits). 0 < carry) (\<lambda>(carry, digits). (div58 carry, digits @ [rem58 carry])) (carry, digits)"

text \<open>The outer \<^verbatim>\<open>for\<close> loop over the bytes after the leading zeros.\<close>

fun byte_loop :: "bytes \<Rightarrow> int list \<Rightarrow> int list option" where
  "byte_loop [] digits = Some digits"
| "byte_loop (b # bs) digits =
     (case digit_loop (uint b) digits of
        None \<Rightarrow> None
      | Some (j, carry, ds) \<Rightarrow>
          (case carry_loop carry ds of None \<Rightarrow> None | Some (carry', ds') \<Rightarrow> byte_loop bs ds'))"

definition bytesToBase58_loops :: "bytes \<Rightarrow> string option" where
  "bytesToBase58_loops bs =
     (let zeros = leading_zeros bs in
      map_option (\<lambda>digits. replicate zeros CHR ''1'' @ map (\<lambda>d. ALPHABET ! nat d) (rev digits))
        (byte_loop (drop zeros bs) [0]))"

section \<open>They end\<close>

lemma to_int32_id: "0 \<le> x \<Longrightarrow> x < 2 ^ 31 \<Longrightarrow> to_int32 x = x"
  by (simp add: to_int32_def signed_of_int signed_take_bit_int_eq_self)

lemma shl8_digit: "d < 58 \<Longrightarrow> shl8 (int d) = int (d * 256)"
  by (simp add: shl8_def to_int32_id)

lemma div58_nat: "n < 2 ^ 31 \<Longrightarrow> div58 (int n) = int (n div 58)"
proof -
  assume "n < 2 ^ 31"
  moreover have "n div 58 \<le> n" by simp
  ultimately have "n div 58 < 2 ^ 31" by (rule le_less_trans [rotated])
  then show ?thesis by (simp add: div58_def to_int32_id zdiv_int)
qed

lemma rem58_nat: "rem58 (int n) = int (n mod 58)"
  by (simp add: rem58_def zmod_int)

lemma carry_digits_carry: "carry_digits c ds = (ds', c') \<Longrightarrow> c < 256 \<Longrightarrow> \<forall>d\<in>set ds. d < 58 \<Longrightarrow> c' < 256"
proof (induction c ds arbitrary: ds' c' rule: carry_digits.induct)
  case (2 c d ds)
  then show ?case using carry_bounds(2) [of c d] by (auto simp: Let_def split: prod.splits)
qed simp

lemma digit_loop_from:
  assumes "c < 256" and "\<forall>d\<in>set rest. d < 58" and "carry_digits c rest = (rest', c')"
  shows "while_option (\<lambda>(j, carry, digits). j < length digits)
       (\<lambda>(j, carry, digits). let c = carry + shl8 (digits ! j) in (j + 1, div58 c, digits[j := rem58 c]))
       (length pre, int c, pre @ map int rest) = Some (length pre + length rest, int c', pre @ map int rest')"
  using assms
proof (induction rest arbitrary: pre c rest' c')
  case Nil
  then show ?case by (subst while_option_unfold) simp
next
  case (Cons d ds)
  let ?x = "c + d * 256"
  obtain es e where es: "carry_digits (?x div 58) ds = (es, e)" by force
  have bounds: "?x < 2 ^ 31" "?x div 58 < 256" using carry_bounds [of c d] Cons.prems by auto
  have x: "int c + shl8 (int d) = int ?x" using Cons.prems(2) by (simp add: shl8_digit)
  have out: "rest' = ?x mod 58 # es" "c' = e" using Cons.prems(3) es by (auto simp: Let_def)
  have "while_option (\<lambda>(j, carry, digits). j < length digits)
       (\<lambda>(j, carry, digits). let c = carry + shl8 (digits ! j) in (j + 1, div58 c, digits[j := rem58 c]))
       (length (pre @ [int (?x mod 58)]), int (?x div 58), (pre @ [int (?x mod 58)]) @ map int ds)
     = Some (length (pre @ [int (?x mod 58)]) + length ds, int e, (pre @ [int (?x mod 58)]) @ map int es)"
    using Cons.prems(2) by (intro Cons.IH [OF bounds(2) _ es]) simp
  then show ?case
    by (subst while_option_unfold)
       (simp add: nth_append list_update_append x div58_nat [OF bounds(1)] rem58_nat out del: of_nat_add)
qed

lemma carry_loop_ends: "c < 2 ^ 31 \<Longrightarrow> carry_loop (int c) ds = Some (0, ds @ map int (push_carry c))"
proof (induction c arbitrary: ds rule: push_carry.induct)
  case (1 c)
  show ?case
  proof (cases "0 < c")
    case True
    have "c div 58 < 2 ^ 31" using "1.prems" by (meson div_le_dividend le_less_trans)
    with 1 True have "carry_loop (int (c div 58)) (ds @ [int (c mod 58)])
        = Some (0, (ds @ [int (c mod 58)]) @ map int (push_carry (c div 58)))" by simp
    with True "1.prems" show ?thesis
      unfolding carry_loop_def
      by (subst while_option_unfold) (simp add: div58_nat rem58_nat push_carry.simps [of c])
  next
    case False
    then show ?thesis unfolding carry_loop_def by (subst while_option_unfold) (simp add: push_carry.simps [of 0])
  qed
qed

lemma byte_loop_ends:
  "\<forall>d\<in>set ds. d < 58 \<Longrightarrow> byte_loop bs (map int ds) = Some (map int (foldl push_byte ds bs))"
proof (induction bs arbitrary: ds)
  case (Cons b bs)
  obtain es c where es: "carry_digits (unat b) ds = (es, c)" by force
  have b: "unat b < 256" using unsigned_less [of b] by simp
  have "digit_loop (uint b) (map int ds) = Some (length ds, int c, map int es)"
    using digit_loop_from [OF b Cons.prems es, of "[]"] by (simp add: digit_loop_def)
  moreover have "c < 2 ^ 31" using carry_digits_carry [OF es b Cons.prems] by simp
  then have "carry_loop (int c) (map int es) = Some (0, map int (push_byte ds b))"
    by (simp add: carry_loop_ends push_byte_def es)
  moreover have "\<forall>d\<in>set (push_byte ds b). d < 58" using push_byte_less by blast
  ultimately show ?case using Cons.IH by simp
qed simp

text \<open>
  C20: the base-58 printer ends on every byte string: none of its loops runs forever.  Computed
  with 32-bit integers that wrap, they build the same text as the recursive printer does with
  unbounded numbers.
\<close>

theorem base58_loops_terminate: "bytesToBase58_loops bs = Some (bytesToBase58 bs)"
proof -
  have "byte_loop (drop (leading_zeros bs) bs) [0] = Some (map int (foldl push_byte [0] (drop (leading_zeros bs) bs)))"
    using byte_loop_ends [of "[0]"] by simp
  then show ?thesis by (simp add: bytesToBase58_loops_def bytesToBase58_def Let_def rev_map comp_def)
qed

end
