(* ===== verification/Server_Pricing.thy ===== *)
theory Server_Pricing
  imports Js_Number Pricing
begin

text \<open>
  The fee engine of the server, \<^verbatim>\<open>ts/server/src/pricing.ts\<close>, in its double arithmetic, and its
  relation to the fee the program charges (\<open>compute_fee_amount\<close>).  A decimal literal is the
  double nearest to it.
\<close>

section \<open>Constants and helpers\<close>

definition js_lit :: "rat \<Rightarrow> jsnum" where
  "js_lit q = js_round q"

definition MIN_FEE_RATE :: jsnum where "MIN_FEE_RATE = js_lit (2 / 100)"
definition MAX_FEE_RATE :: jsnum where "MAX_FEE_RATE = js_lit (25 / 100)"
definition ts_PROTOCOL_FEE_BPS :: jsnum where "ts_PROTOCOL_FEE_BPS = js_lit 1500"
definition OPTIMAL_UTILIZATION :: jsnum where "OPTIMAL_UTILIZATION = js_lit (80 / 100)"
definition BASE_RATE :: jsnum where "BASE_RATE = js_lit (2 / 100)"
definition SLOPE_1 :: jsnum where "SLOPE_1 = js_lit (4 / 100)"
definition SLOPE_2 :: jsnum where "SLOPE_2 = js_lit (60 / 100)"

text \<open>Brackets of \<^verbatim>\<open>maxHours\<close> and \<^verbatim>\<open>premium\<close>.\<close>

definition DURATION_BRACKETS :: "(jsnum \<times> jsnum) list" where
  "DURATION_BRACKETS =
     [(js_lit 4, js_lit 0), (js_lit 24, js_lit (1 / 100)), (js_lit 72, js_lit (25 / 1000)),
      (js_lit 168, js_lit (4 / 100)), (PInf, js_lit (6 / 100))]"

record PoolStateForPricing =
  totalAssets :: jsnum
  deployedAmount :: jsnum
  accruedDefaultLoss :: jsnum

definition clamp :: "jsnum \<Rightarrow> jsnum \<Rightarrow> jsnum \<Rightarrow> jsnum" where
  "clamp n lo hi = js_max lo (js_min hi n)"

definition roundTo :: "jsnum \<Rightarrow> nat \<Rightarrow> jsnum" where
  "roundTo n places = js_div (js_math_round (js_mult n (js_lit (10 ^ places)))) (js_lit (10 ^ places))"

definition rc :: "jsnum \<Rightarrow> jsnum" where
  "rc n = roundTo n 2"

section \<open>The components of the fee\<close>

definition computeUtilization :: "PoolStateForPricing \<Rightarrow> jsnum" where
  "computeUtilization pool =
     (let totalCapital = js_sub (totalAssets pool) (accruedDefaultLoss pool) in
      if js_le totalCapital (Fin 0) then Fin 1
      else let idle = js_sub (totalAssets pool) (deployedAmount pool) in
           clamp (js_sub (Fin 1) (js_div idle totalCapital)) (Fin 0) (Fin 1))"

definition computeUtilizationPremium :: "jsnum \<Rightarrow> jsnum" where
  "computeUtilizationPremium utilization =
     (if js_le utilization OPTIMAL_UTILIZATION
      then js_add BASE_RATE (js_mult (js_div utilization OPTIMAL_UTILIZATION) SLOPE_1)
      else let excess = js_div (js_sub utilization OPTIMAL_UTILIZATION) (js_sub (Fin 1) OPTIMAL_UTILIZATION) in
           js_add (js_add BASE_RATE SLOPE_1) (js_mult excess SLOPE_2))"

fun bracket_premium :: "(jsnum \<times> jsnum) list \<Rightarrow> jsnum \<Rightarrow> jsnum" where
  "bracket_premium [] hours = Fin 0"
| "bracket_premium ((maxHours, premium) # bs) hours =
     (if js_le hours maxHours then premium else bracket_premium bs hours)"

definition computeDurationPremium :: "jsnum \<Rightarrow> jsnum" where
  "computeDurationPremium durationHours = bracket_premium DURATION_BRACKETS durationHours"

definition computeRiskPremium :: "jsnum \<Rightarrow> jsnum \<Rightarrow> jsnum" where
  "computeRiskPremium repaymentRate completionRate =
     (let repayPenalty = js_mult (js_sub (Fin 1) repaymentRate) (js_lit (5 / 100));
          completionPenalty = js_mult (js_sub (Fin 1) completionRate) (js_lit (3 / 100))
      in js_add repayPenalty completionPenalty)"

definition computePoolLossSurcharge :: "PoolStateForPricing \<Rightarrow> jsnum" where
  "computePoolLossSurcharge pool =
     (if js_le (totalAssets pool) (Fin 0) then Fin 0
      else let lossRatio = js_div (accruedDefaultLoss pool) (totalAssets pool) in
           clamp (js_mult lossRatio (js_lit (15 / 100))) (Fin 0) (js_lit (3 / 100)))"

text \<open>\<^verbatim>\<open>splitFee\<close>: the underwriters' part and the protocol's.\<close>

definition splitFee :: "jsnum \<Rightarrow> jsnum \<times> jsnum" where
  "splitFee totalFee =
     (let protocolFee = js_div (js_floor (js_div (js_mult totalFee ts_PROTOCOL_FEE_BPS) (Fin 100))) (Fin 100);
          underwriterFee = rc (js_sub totalFee protocolFee)
      in (underwriterFee, protocolFee))"

record FeeComponents =
  utilizationRate :: jsnum
  utilizationPremium :: jsnum
  durationPremium :: jsnum
  riskPremium :: jsnum
  poolLossSurcharge :: jsnum
  totalRate :: jsnum

record FeeBreakdown =
  totalFee :: jsnum
  effectiveRate :: jsnum
  underwriterFee :: jsnum
  protocolFee :: jsnum
  fee_components :: FeeComponents

definition computeFee ::
  "jsnum \<Rightarrow> jsnum \<Rightarrow> jsnum \<Rightarrow> jsnum \<Rightarrow> PoolStateForPricing \<Rightarrow> FeeBreakdown" where
  "computeFee amount durationHours repaymentRate completionRate pool =
     (let u = computeUtilization pool;
          up = computeUtilizationPremium u;
          dp = computeDurationPremium durationHours;
          rp = computeRiskPremium repaymentRate completionRate;
          ls = computePoolLossSurcharge pool;
          rawRate = js_add (js_add (js_add up dp) rp) ls;
          rate = clamp (roundTo rawRate 4) MIN_FEE_RATE MAX_FEE_RATE;
          fee = rc (js_mult amount rate);
          (uf, pf) = splitFee fee
      in \<lparr> totalFee = fee, effectiveRate = roundTo rate 4, underwriterFee = uf, protocolFee = pf,
           fee_components = \<lparr> utilizationRate = roundTo u 4, utilizationPremium = roundTo up 4,
             durationPremium = roundTo dp 4, riskPremium = roundTo rp 4, poolLossSurcharge = roundTo ls 4,
             totalRate = rate \<rparr> \<rparr>)"

lemma computeFee_total:
  "totalFee (computeFee p h rr cr pool) =
     rc (js_mult p (clamp (roundTo (js_add (js_add (js_add (computeUtilizationPremium (computeUtilization pool))
       (computeDurationPremium h)) (computeRiskPremium rr cr)) (computePoolLossSurcharge pool)) 4) MIN_FEE_RATE MAX_FEE_RATE))"
  by (simp add: computeFee_def Let_def split: prod.splits)

section \<open>The rate is clamped\<close>

lemma clamp_within:
  assumes "clamp n lo hi \<noteq> NaN" "js_le lo hi"
  shows "js_le lo (clamp n lo hi)" "js_le (clamp n lo hi) hi"
  using assms by (cases n; cases lo; cases hi; simp add: clamp_def js_min_def js_max_def split: if_splits)+

lemma fee_rate_limits: "js_le MIN_FEE_RATE MAX_FEE_RATE"
  by code_simp

text \<open>Whatever the server is given, the rate it quotes is NaN or between 2 and 25 per cent.\<close>

lemma server_rate_clamped:
  fixes p h rr cr pool
  defines "rate \<equiv> totalRate (fee_components (computeFee p h rr cr pool))"
  shows "rate = NaN \<or> js_le MIN_FEE_RATE rate \<and> js_le rate MAX_FEE_RATE"
proof -
  have "\<exists>n. rate = clamp n MIN_FEE_RATE MAX_FEE_RATE"
    by (auto simp: rate_def computeFee_def Let_def split: prod.splits)
  then show ?thesis using clamp_within fee_rate_limits by metis
qed

section \<open>The server's quote and the program's fee\<close>

text \<open>A pool with 100000 USDC, none of it lent, and no losses.\<close>

definition idle_pool :: PoolStateForPricing where
  "idle_pool = \<lparr> totalAssets = Fin 100000, deployedAmount = Fin 0, accruedDefaultLoss = Fin 0 \<rparr>"

lemma idle_premiums:
  "computeUtilizationPremium (computeUtilization idle_pool) = BASE_RATE"
  "computeRiskPremium (Fin 1) (Fin 1) = Fin 0"
  "computePoolLossSurcharge idle_pool = Fin 0"
  by code_simp+

text \<open>
  C32: the server's quote cannot equal the fee of the program, whatever curve governance stores.
  For 1000 USDC from an idle pool and an agent without a fault the server asks 20 USDC for four
  hours and 30 for five; the program counts whole days, so its answer for the two durations is
  the same at every utilisation, every default count and every curve.
\<close>

theorem server_quote_cannot_match:
  "totalFee (computeFee (Fin 1000) (Fin 4) (Fin 1) (Fin 1) idle_pool) = Fin 20
   \<and> totalFee (computeFee (Fin 1000) (Fin 5) (Fin 1) (Fin 1) idle_pool) = Fin 30
   \<and> (\<forall>curve u n. compute_fee_amount 1000000000 (4 * 3600) u n curve = compute_fee_amount 1000000000 (5 * 3600) u n curve)"
proof (intro conjI allI)
  show "totalFee (computeFee (Fin 1000) (Fin 4) (Fin 1) (Fin 1) idle_pool) = Fin 20"
    unfolding computeFee_total idle_premiums by code_simp
  show "totalFee (computeFee (Fin 1000) (Fin 5) (Fin 1) (Fin 1) idle_pool) = Fin 30"
    unfolding computeFee_total idle_premiums by code_simp
  show "compute_fee_amount 1000000000 (4 * 3600) u n curve = compute_fee_amount 1000000000 (5 * 3600) u n curve" for u n curve
    by (simp add: compute_fee_amount_def)
qed

end
