(* ===== verification/Spec2Isabelle.thy ===== *)
theory Spec2Isabelle
  imports Lifecycle_Properties Governance_Properties Attestation_Reuse Liveness Solvency Issuance_Window Pricing_Tests
    Bridge_Properties Keeper_Properties Siws_Auth Origination_Properties Script_Properties Ts_Constants
    Rate_Limit Base58_Loops Server_Pricing
begin

text \<open>
  CredMesh on Solana: a verification of the two on-chain programs, the crate they share, and the
  off-chain services that feed and watch them.

  \<^bold>\<open>The system.\<close>  Liquidity providers deposit USDC into a pool and receive shares.  An agent
  draws an advance from the pool against a credit attestation: a 128-byte message signed by a
  bridge that reads the agent's reputation on an EVM chain.  The agent settles the advance with
  a fee and, when late, a penalty; an advance not settled 14 days after expiry can be liquidated
  by anybody, at the cost of the liquidity providers.  Governance is a Squads multisig vault: a
  governance instruction must sit in a transaction with a Squads instruction that has the vault
  writable.  A second program, the attestor registry, keeps the list of bridge signers.  Off chain,
  the bridge quotes attestations over HTTP and tails the escrow's events back to the EVM side, a
  keeper liquidates overdue advances, a server signs agents in, and scripts set the programs up.

  \<^bold>\<open>Theories and sources\<close> (paths under \<^verbatim>\<open>src/\<close>).
  \<^item> Prelude: results as sums, Rust's checked and saturating arithmetic on 64- and 128-bit words
    and on signed 64-bit integers, little-endian bytes, slices.
  \<^item> Shared: \<^verbatim>\<open>crates/credmesh-shared/src/lib.rs\<close> (seeds, program ids, message layout, kinds).
  \<^item> Introspection: \<^verbatim>\<open>ix_introspection.rs\<close> and \<^verbatim>\<open>cross_program.rs\<close> of the same crate.
  \<^item> Escrow_State, Registry_State: the account structs, constants, errors and events of both
    programs (\<^verbatim>\<open>state.rs\<close>, \<^verbatim>\<open>errors.rs\<close>, \<^verbatim>\<open>events.rs\<close>).  A struct is a record, an enum a datatype.
  \<^item> Pricing: \<^verbatim>\<open>pricing.rs\<close> (share quotes, fee curve, late penalty, utilization); Pricing_Tests:
    the unit tests of that file, evaluated on the model.
  \<^item> Runtime: the world an instruction runs in: accounts by address, token accounts and mints,
    the account constraints of Anchor, calls to the token program.
  \<^item> Attestation, Issuance: \<^verbatim>\<open>instructions/request_advance.rs\<close>, and the encoder of the bridge,
    \<^verbatim>\<open>ts/bridge/src/attestation.ts\<close>.
  \<^item> Liquidity: \<^verbatim>\<open>init_pool.rs\<close>, \<^verbatim>\<open>deposit.rs\<close>, \<^verbatim>\<open>withdraw.rs\<close>, \<^verbatim>\<open>skim_protocol_fees.rs\<close>.
  \<^item> Governance: \<^verbatim>\<open>propose_params.rs\<close>, \<^verbatim>\<open>execute_params.rs\<close>.
  \<^item> Settlement: \<^verbatim>\<open>claim_and_settle.rs\<close>, \<^verbatim>\<open>liquidate.rs\<close>.
  \<^item> Attestor_Registry: \<^verbatim>\<open>programs/credmesh-attestor-registry/src/lib.rs\<close>.
  \<^item> Machine: the dispatch of both programs and the step relation on worlds; Histories: its runs
    as labelled histories with the log of events (\<^verbatim>\<open>events.rs\<close>).
  \<^item> Borsh: the bytes of the stored accounts, from the same structs (\<^verbatim>\<open>state.rs\<close> of both programs).
  \<^item> Base58, Bridge_Service: \<^verbatim>\<open>ts/bridge/src/index.ts\<close>, \<^verbatim>\<open>evm.ts\<close>, \<^verbatim>\<open>attestation.ts\<close>; Event_Tail:
    the bytes of \<^verbatim>\<open>events.rs\<close> and \<^verbatim>\<open>ts/bridge/src/event_tail.ts\<close>.
  \<^item> Keeper: \<^verbatim>\<open>ts/keeper/src/index.ts\<close>.  Siws_Auth: \<^verbatim>\<open>ts/server/src/auth.ts\<close> and the nonce endpoint
    of \<^verbatim>\<open>server.ts\<close>.  The server mounts the nonce endpoint only; the runs of that theory put the
    middleware of \<^verbatim>\<open>auth.ts\<close> behind it.
  \<^item> Js_Number: the doubles of JavaScript.  Bridge_Http: bearer tokens, rate limiter and request
    handler of \<^verbatim>\<open>ts/bridge/src/index.ts\<close>.  Server_Pricing: \<^verbatim>\<open>ts/server/src/pricing.ts\<close>.
    Base58_Loops: the loops of the base-58 printer as they are written.
  \<^item> Wire: what the generated entry points read from the accounts and the data of an instruction
    (\<^verbatim>\<open>init_pool.rs\<close>, \<^verbatim>\<open>liquidate.rs\<close>, the registry's \<^verbatim>\<open>lib.rs\<close>).  Operator_Scripts:
    \<^verbatim>\<open>scripts/init_pool.ts\<close>, \<^verbatim>\<open>init_registry.ts\<close>, \<^verbatim>\<open>add_allowed_signer.ts\<close> and the argument parser of
    \<^verbatim>\<open>lib/cluster.ts\<close>.  Ts_Constants: \<^verbatim>\<open>ts/shared/src/index.ts\<close>, \<^verbatim>\<open>scripts/lib/program-ids.ts\<close> and the
    keeper's instruction on the wire.

  An instruction is a function from runtime, transaction, accounts, arguments and world to an
  error or a new world with the event it emits.  It is the composition of the account validation
  (\<open>X_accounts\<close>, from the struct's constraints) and the handler (\<open>X_handler\<close>, the function's
  body in its order); a failed instruction has no effect, as on chain.  Every \<^verbatim>\<open>require!\<close>, every
  \<^verbatim>\<open>checked_\<close> operation, every conversion and every panic of the source is a branch of the model.

  \<^bold>\<open>What is outside.\<close>  The Solana runtime, the SPL Token program and the derivation of program
  addresses are fields of the record \<open>runtime\<close>, an argument of every instruction; the instructions
  sysvar and the clock are part of the transaction; the ed25519 precompile is a predicate.  What
  the programs rely on is stated as hypotheses: \<open>spl_token_laws\<close> (the documented effect of
  token instructions that succeed), \<open>spl_progress\<close> (which token instructions succeed, theory
  Token_Progress; used for liveness only), \<open>pda_find_law\<close> and \<open>pda_collision_free\<close> (equal addresses come
  from equal concatenations of seeds), \<open>no_pda_signer\<close> (a derived address signs no transaction),
  \<open>ed25519_precompile_ok\<close>.  Theory Reference_Runtime gives a runtime that satisfies them, theory
  Example_Run executes both programs on it, theory Example_Reachable shows that the states it
  passes are reachable; the witnesses of the theorems are taken from there.  The services add:
  \<open>discriminators_ok\<close> and \<open>event_discriminators_ok\<close> (the 8-byte prefixes of Anchor are distinct),
  \<open>address_codec\<close> (the address decoder accepts only the base-58 text of 32 bytes), \<open>rpc_lists\<close> (the
  node answers with the stored accounts), \<open>keeper_tx\<close> (the keeper signs and the chain's clock is not
  behind its own), \<open>spl_init_progress\<close> (a mint and a token account can be created at unused
  addresses) and \<open>script_env_ok\<close> (the client library derives addresses as the chain does and sees its
  accounts); ed25519, base-58 decoding, date parsing and EVM reads of the services are fields
  of \<open>bridge_env\<close> and \<open>auth_env\<close>.

  \<^bold>\<open>What the lemmas show.\<close>
  \<^item> Pricing, Introspection, Issuance, Settlement end with the properties of the pure parts:
    quotes and fees equal their formulas, fees never fail on validated curves at a utilisation of at
    most 100 per cent, round trips of deposits and redemptions make no profit, scans of the
    transaction decide exactly what they should, the issuance window, the settlement waterfall.
  \<^item> Escrow_Properties, Lifecycle_Properties, Governance_Properties, Attestation_Reuse: the guards
    and the exact effect of every instruction, who can change what, that a revoked signer
    underwrites nothing in any later history, and that one attestation serves several receivables.
  \<^item> Persistence, Account_Invariant, Exposure: what no run undoes, the invariant of the account
    map, and the counters as sums over live advances.
  \<^item> Token_Effects, Books, Refinement: the effect on token balances, and the accounting of a pool.
    The specification is a deterministic machine with eight operations that carry their amounts;
    \<open>book_at\<close> reads a book off a state, \<open>ix_ops\<close> and \<open>event_ops\<close> say which operations an
    instruction and an event stand for.  Each step does to the book exactly what its operations do
    (a functional refinement), so that every history determines the book, and the book equals the
    sums over the log of events.  The machine is a specification and translates no code.
  \<^item> Issuance_Window: the issuance windows of a ledger over whole histories.  Solvency, Liveness:
    the backing of the assets, the price of a share; that overdue advances can be written off,
    agents can repay and providers can leave with what is idle.
  \<^item> Borsh ends with the round trip of every account, Base58 with the printer against positional
    notation, Event_Tail with what is forwarded for each event, Siws_Auth with the freshness of
    sign-ins.  Bridge_Properties joins service and program: what is quoted is accepted, and events
    are reported for the account that was quoted.  Keeper and Keeper_Properties: the keeper reads
    accounts as the program writes them, and a tick closes exactly the overdue advances of its pool.
  \<^item> Origination and Origination_Properties: an agent with a quote, a registered signer and room in
    limit, window and vault does get the advance.  Script_Properties: what the scripts send is
    decoded and accepted, and the stored accounts hold the arguments of the command line.
    Ts_Constants: the constants of both languages agree.  Rate_Limit: how many quotes a caller can
    get, with all rounding errors; Base58_Loops: the loops end; Server_Pricing: the server's rate is
    clamped, and its quote is not the program's fee.
  \<^item> Transitions, Runs and Governance_Gate hold the interfaces as locales: invariants and preorders
    of step relations, functional refinement of labelled runs, operations gated by governance.  They
    are interpreted on the step relation, on the labelled steps and the accounting machine, and on
    the five gated instructions; the locale of
    bounded scans in Introspection on both scans, the locale of share quotes in Pricing on the two
    previews, the locale of codecs in Borsh on the nine structs and on the parameters of a pool.
  \<^item> This theory: the properties of runs.

  \<^bold>\<open>Bounds.\<close>  All definitions are total.  The two scans of a transaction carry the source's bound
  of 64 instructions as a counter; no other loop occurs in the programs.  The loops of the base-58
  printer are \<open>while_option\<close> with a proof that they end; the other loops of the services run over
  lists.  Doubles are rounded to 53 bits with ties to even and have infinities and NaN; only the
  sign of a zero is left out.

  \<^bold>\<open>Not modelled.\<close>  Rent and lamports; compute limits; the order in which two violated account
  constraints are reported; of the accounts structs the \<^verbatim>\<open>mut\<close> markers (an account is taken to be
  writable where the handler writes it) and the fixed addresses of token program, system program and
  sysvars; sockets, JSON, WebSocket and RPC transport, key files and the environment of the
  processes, so that \<open>loadConfig\<close> starts from the parsed chain id and leaves out the list of required
  variables; SHA-256, hence the values of the discriminators; \<^verbatim>\<open>deploy.ts\<close>, which runs
  the solana command line; the routes of \<^verbatim>\<open>server.ts\<close> that return constants.  In the states of the
  programs an account is its record, and its constructor stands for owner and discriminator;
  theory Borsh connects it with bytes: \<open>put_X\<close> and \<open>get_X\<close> are what the derive macros of Anchor and
  Borsh make of the structs, and the numbers in \<open>account_space\<close> are the \<^verbatim>\<open>INIT_SPACE\<close> they compute.

  \<^bold>\<open>Findings.\<close>  The protocol cut of a settlement is paid to the treasury and also accrued, so a skim
  takes it a second time from the vault (\<open>skim_pays_the_cut_again\<close>).  The issuance window resets at
  a boundary, so twice the cap fits into two seconds (\<open>window_reset_doubles_the_cap\<close>), and twice the
  cap is the bound (\<open>any_day_at_most_twice_the_cap\<close>).  One
  attestation serves several receivables (\<open>attestation_serves_two_receivables\<close>).  An expiry within
  14 days of the largest timestamp makes an advance that no instruction can close
  (\<open>far_expiry_locks_advance\<close>).  After a loss the quote for all shares can exceed the assets, by
  less than one USDC (\<open>redeem_quote_above_assets\<close>).  Quotes live 15 minutes at most, so their
  advances never pay the premium per day (\<open>quoted_advances_pay_no_duration_premium\<close>).  The printer of
  addresses adds a digit for the zero key (\<open>base58_printer_exact\<close>); a nonce of letters is read as
  zeros (\<open>nonce_of_letters_accepted\<close>); the keeper submits liquidations for other pools, which are
  refused (\<open>submit_foreign\<close>); sign-in accepts expired messages (\<open>expired_message_accepted\<close>).  A limit
  that is not a number turns the rate limiter off (\<open>nan_never_limits\<close>).  No fee curve makes the
  program charge what the server quotes (\<open>server_quote_cannot_match\<close>).
\<close>

section \<open>Accounting\<close>

text \<open>
  C1: the books of a pool follow from the log.  Take any history that starts on an empty chain.
  The pool's assets are what the \<open>Deposited\<close> events report and the LP part of the fees of the
  \<open>AdvanceSettled\<close> events, less what was withdrawn and written off; its shares are those minted less
  those redeemed; its deployed amount is what was issued less what was repaid or written off; its
  accrued fees are the protocol cuts less what was skimmed.  The vault holds deposits, repayments and
  LP fees, less withdrawals, advances and skims, plus what it received without booking; the share
  supply is what was minted, less what was redeemed and what holders burned on their own.
\<close>

theorem pool_books_follow_from_log:
  assumes "environment rt" and "initial w0" and "history (performs rt) w0 h w"
    and "accounts w P = Some (PoolAccount p)"
  shows "unat (total_assets p) + total (withdrawn P) h + total (written_off P) h
           = total (deposited P) h + total (lp_fees P) h
     \<and> unat (total_shares p) + total (redeemed P) h = total (minted P) h
     \<and> unat (deployed_amount p) + total (repaid P) h + total (written_off P) h = total (issued P) h
     \<and> unat (accrued_protocol_fees p) + total (skimmed P) h = total (protocol_cuts P) h
     \<and> balance (tokens w) (pool_usdc_vault p) + total (withdrawn P) h + total (issued P) h + total (skimmed P) h
           = total (deposited P) h + total (repaid P) h + total (lp_fees P) h + received P h
     \<and> supply_of (tokens w) (pool_share_mint p) + total (redeemed P) h + burned P h = total (minted P) h"
  using history_tallies [OF assms(3,1,2), of P] unfolding book_at_pool [OF assms(4)] tallies_def pool_book_def by simp

lemma pool_books_follow_from_log_witness:
  "balance (tokens world_skimmed) vault = 2006300000 \<and> received pool_key example_history = 0
   \<and> total (lp_fees pool_key) example_history = 7650000
   \<and> balance (tokens world_skimmed) vault + 300000000 + 1350000 = 2000000000 + 300000000 + 7650000"
proof -
  have "received pool_key example_history = 0"
    by (simp add: example_history_def received_def paid_into_def gained_outside_def book_at_def pool_book_def
        world_pool_def balance_def example_tokens_def token_account_def)
  then show ?thesis
    using pool_books_follow_from_log [OF ref_environment genesis_initial example_history example_pool_accounts(5)]
    by (simp add: example_history_def)
qed

text \<open>
  C2: the programs refine the abstract accounting machine, operation by operation.  From a reachable
  state, run the machine on the operations that the instructions of a history stand for: a deposit of
  its argument at the quoted floor, a withdrawal at the quoted floor, an advance of its argument, a
  settlement of the stored principal with 15 per cent of the fees due to the protocol and the rest to
  the LPs, a write-off of the stored principal, a skim of its argument, and what the vault gained and
  holders burned elsewhere.  Every operation is accepted, and the book it ends with is the one read
  off the final state: vault balance, assets, shares, share supply, deployed amount, accrued fees.
\<close>

theorem histories_refine_the_book:
  assumes "environment rt" and "reachable rt w" and "history (performs rt) w h w'"
  shows "book_run (concat (map (entry_ops P) h)) (book_at P w) = Some (book_at P w')"
  using assms(3) reachable_well_formed [OF assms(1,2)] by (rule books.history_refines)

lemma histories_refine_the_book_witness:
  "book_run [BDeposit 2000000000 2000000000000, BIssue 300000000, BSettle 300000000 7650000 1350000, BReceive 0,
      BSkim 1350000, BReceive 0] (book_at pool_key world_empty)
     = Some (book_at pool_key world_skimmed)"
proof -
  let ?h = "drop 4 example_history"
  have h: "history (performs ref_runtime) world_empty ?h world_skimmed"
    unfolding example_history_def
    by (simp, intro history_cons history_nil)
       (simp_all add: deposit_runs request_runs settle_runs skim_runs)
  have adv: "accounts world_issued advance_key = Some (AdvanceAccount example_advance)"
    by (simp add: world_issued_def)
  have due: "fees_due 865200 example_advance = 9000000" "unat (principal example_advance) = 300000000"
    by (simp_all add: fees_due_def days_late_def example_advance_def)
  have "concat (map (entry_ops pool_key) ?h) = [BDeposit 2000000000 2000000000000, BIssue 300000000,
      BSettle 300000000 7650000 1350000, BReceive 0, BSkim 1350000, BReceive 0]"
    by (simp add: example_history_def on_pool_def book_at_pool pool_book_def shares_for_def adv due protocol_share_def
        Let_def paid_into_def)
  moreover have "reachable ref_runtime world_empty"
    using genesis_reachable registry_step signer_step pool_step empty_step by (meson reachable_step)
  ultimately show ?thesis using histories_refine_the_book [OF ref_environment _ h, of pool_key] by simp
qed

text \<open>
  C3: in every reachable state a pool's deployed amount is the sum of the principals of its live
  advances, and the live principal of an agent's ledger is the sum over the agent's live advances
  in the ledger's pool.
\<close>

theorem counters_count_live_advances:
  assumes "environment rt" and "reachable rt w"
  shows "(\<forall>P p. accounts w P = Some (PoolAccount p) \<longrightarrow>
            unat (deployed_amount p) = (\<Sum>k\<in>live rt (accounts w) P (\<lambda>_. True). principal_at (accounts w) k))
     \<and> (\<forall>k l. accounts w k = Some (LedgerAccount l) \<longrightarrow>
            unat (live_principal l) =
              (\<Sum>k\<in>live rt (accounts w) (led_pool l) (\<lambda>adv. adv_agent adv = led_agent l). principal_at (accounts w) k))"
  using reachable_exposure [OF assms] unfolding exposure_ok_def outstanding_def .

lemma counters_witness:
  "300000000 = (\<Sum>k\<in>live ref_runtime (accounts world_issued) pool_key (\<lambda>_. True). principal_at (accounts world_issued) k)"
  using counters_count_live_advances [OF ref_environment examples_reachable(2), THEN conjunct1, rule_format,
      OF example_pool_accounts(3)] by simp

text \<open>
  C4: whatever the history, after an advance the principals of all live advances of the agent in
  the pool, together with the outstanding amount the bridge attests, stay within the attested
  credit limit.
\<close>

theorem live_advances_within_credit_limit:
  assumes "environment rt" and "reachable rt w" and "no_pda_signer rt tx"
    and "escrow_ix_typed (Ix_request_advance a rid amount nonce)"
    and "request_advance rt tx a rid amount nonce w = Inr (w', ev)"
  shows "\<exists>s pool att. accounts w (ra_allowed_signer a) = Some (AllowedSignerAccount s)
     \<and> accounts w (ra_pool a) = Some (PoolAccount pool)
     \<and> verify_attestation (tx_sysvar tx) (tx_now tx) s (ra_agent a) (ra_pool a) (pool_chain_id pool) nonce = Inr att
     \<and> outstanding rt (accounts w') (ra_pool a) (\<lambda>adv. adv_agent adv = ra_agent a) + unat (att_outstanding att)
         \<le> unat (att_credit_limit att)"
  using assms(5)
proof (rule request_advance_Inr)
  fix c att l1 l2 fee late D'
  assume acc: "RequestAdvance_accounts rt tx a rid w = Inr c"
    and min: "MIN_ADVANCE_ATOMS \<le> amount"
    and att: "verify_attestation (tx_sysvar tx) (tx_now tx) (rc_allowed_signer c) (ra_agent a) (ra_pool a)
       (pool_chain_id (rc_pool c)) nonce = Inr att"
    and roll: "roll_ledger (tx_now tx) (rc_ledger_bump c) (ra_agent a) (ra_pool a) (agent_window_cap (rc_pool c))
       amount (rc_ledger c) = Inr l1"
    and und: "underwrite att (max_advance_abs (rc_pool c)) amount l1 = Inr l2"
    and w': "accounts w' = (accounts w)(
       ra_pool a \<mapsto> PoolAccount (rc_pool c\<lparr>deployed_amount := D'\<rparr>),
       ra_advance a \<mapsto> AdvanceAccount (advance_of tx a c rid amount att fee late),
       ra_consumed a \<mapsto> ConsumedAccount (consumed_of tx a c nonce),
       ra_issuance_ledger a \<mapsto> LedgerAccount l2)"
  note A = RequestAdvance_accounts_Inr [OF acc] and U = underwrite_Inr [OF und]
  have id: "led_agent l2 = ra_agent a" "led_pool l2 = ra_pool a"
    using request_ledger_identity [OF environmentD(2,3) [OF assms(1)] reachable_wf [OF assms(1,2)] _ _ A(10) roll und]
      assms(4) by simp_all
  have "step rt w w'"
    by (rule step.escrow [OF assms(3,4), of w w' ev]) (simp add: assms(5))
  then have "exposure_ok rt w'" using reachable_exposure assms(1) reachable_step [OF assms(2)] by blast
  then have "outstanding rt (accounts w') (ra_pool a) (\<lambda>adv. adv_agent adv = ra_agent a) = unat (live_principal l2)"
    using exposureD(2) [of rt w' "ra_issuance_ledger a" l2] id by (simp add: w')
  moreover have "1000000 \<le> unat amount" using min by (simp add: word_le_nat_alt)
  ultimately show ?thesis using A(2,4) att U(6,7) by auto
qed

lemma live_advances_witness:
  "\<exists>att. verify_attestation attestation_sysvar 1000 example_signer agent pool_key 2 nonce16 = Inr att
     \<and> outstanding ref_runtime (accounts world_issued) pool_key (\<lambda>adv. adv_agent adv = agent)
         + unat (att_outstanding att) \<le> unat (att_credit_limit att)"
proof -
  have "accounts world_funded signer_key = Some (AllowedSignerAccount example_signer)"
    by (simp add: world_funded_def)
  then show ?thesis
    using live_advances_within_credit_limit [OF ref_environment examples_reachable(1) _ _ request_runs] by auto
qed

section \<open>Replay protection and identity\<close>

text \<open>
  C5: a receivable backs at most one advance: after a successful advance for a pool, an agent
  and a receivable, every later request for the same three fails, whatever happened in between
  and whatever the amount, the nonce or the attestation.
\<close>

theorem receivable_never_advanced_twice:
  assumes "request_advance rt tx a rid amount nonce w = Inr (w1, ev)"
    and "(step rt)\<^sup>*\<^sup>* w1 w2"
    and "ra_pool b = ra_pool a" and "ra_agent b = ra_agent a"
  shows "\<exists>e. request_advance rt tx' b rid amount' nonce' w2 = Inl e"
proof (rule ccontr)
  assume "\<nexists>e. request_advance rt tx' b rid amount' nonce' w2 = Inl e"
  then obtain w3 ev' where "request_advance rt tx' b rid amount' nonce' w2 = Inr (w3, ev')"
    by (metis old.sum.exhaust surj_pair)
  then obtain c' where acc': "RequestAdvance_accounts rt tx' b rid w2 = Inr c'"
    by (auto elim!: request_advance_Inr)
  from assms(1) obtain c m where acc: "RequestAdvance_accounts rt tx a rid w = Inr c"
    and m: "accounts w1 (ra_consumed a) = Some (ConsumedAccount m)"
    by (rule request_advance_Inr) (auto dest: RequestAdvance_accounts_Inr(12))
  have "evolves (accounts w1) (accounts w2)" using persistence.run_le [OF assms(2)] by simp
  then have "accounts w2 (ra_consumed a) = Some (ConsumedAccount m)" using m unfolding evolves_def by blast
  moreover have "ra_consumed b = ra_consumed a"
    using RequestAdvance_accounts_Inr(7) [OF acc] RequestAdvance_accounts_Inr(7) [OF acc'] assms(3,4) by simp
  ultimately show False
    using RequestAdvance_accounts_Inr(8) [OF acc'] by (simp add: address_free_def)
qed

lemma receivable_never_advanced_twice_witness:
  "\<exists>e. request_advance ref_runtime tx_request acc_request receivable 300000000 nonce16 world_settled = Inl e"
  using receivable_never_advanced_twice [OF request_runs, of world_settled acc_request] settled_step by blast

text \<open>
  No run removes a pool or changes its asset mint, vault, share mint, treasury, governance
  key, timelock, chain or bump.
\<close>

theorem pool_identity_is_permanent:
  assumes "(step rt)\<^sup>*\<^sup>* w w'" and "accounts w P = Some (PoolAccount p)"
  shows "\<exists>p'. accounts w' P = Some (PoolAccount p') \<and> same_identity p p'"
  using persistence.run_le [OF assms(1)] assms(2) by (auto elim!: evolves_poolE)

lemma pool_identity_witness:
  "\<exists>p'. accounts world_settled pool_key = Some (PoolAccount p')
     \<and> same_identity (example_pool 2000000000 2000000000000 300000000 0) p'"
  by (rule pool_identity_is_permanent [OF r_into_rtranclp [of "step ref_runtime", OF settled_step] example_pool_accounts(3)])

text \<open>
  C9: in every reachable state every account is well-formed: pools and signers sit at the
  address of their contents, fee curves (live and staged) are valid, timelocks are not negative
  and chain ids known; every stored advance is issued, is worth at least one USDC and has its
  pool, its agent's ledger and its consumed-payment record; the registry's governance is never
  the zero key; every allowed signer is a credit bridge.
\<close>

theorem reachable_accounts_are_well_formed:
  assumes "environment rt" and "reachable rt w" and "accounts w k = Some d"
  shows "account_wf rt (accounts w) k d"
  using reachable_wf [OF assms(1,2)] assms(3) by (rule accounts_wf_D)

lemma reachable_accounts_witness:
  "account_wf ref_runtime (accounts world_issued) advance_key (AdvanceAccount example_advance)"
  by (rule reachable_accounts_are_well_formed [OF ref_environment examples_reachable(2)]) simp

section \<open>Solvency\<close>

text \<open>
  C7: in a reachable state an escrow instruction lowers the surplus of a pool (vault balance
  plus deployed amount less assets) by at most what it skims from it: deposits, withdrawals,
  advances, settlements, liquidations and parameter changes never leave the LPs' assets less
  backed than before.
\<close>

theorem backing_lost_only_by_skims:
  assumes "environment rt" and "reachable rt w" and "no_pda_signer rt tx"
    and "process_escrow rt tx ix w = Inr (w', ev)"
    and "accounts w P = Some (PoolAccount p)" and "accounts w' P = Some (PoolAccount p')"
  shows "surplus w p - int (skimmed_from P ix) \<le> surplus w' p'"
  using reachable_well_formed [OF assms(1,2)] environmentD(1) [OF assms(1)] assms(3-)
  by (intro process_escrow_surplus [where rt = rt and tx = tx and ev = ev]) (auto simp: well_formed_def)

lemma backing_witness:
  "surplus world_issued (example_pool 2000000000 2000000000000 300000000 0)
     \<le> surplus world_settled (example_pool 2007650000 2000000000000 0 1350000)"
  using backing_lost_only_by_skims [OF ref_environment examples_reachable(2), of tx_settle
      "Ix_claim_and_settle acc_settle 400000000" world_settled _ pool_key] settle_runs
  by simp

text \<open>
  C37: a skim takes backing away.  A settlement pays the protocol cut to the treasury and also
  accrues it on the books.  When governance then skims the amount of that cut, the treasury has
  received it twice, the accrued fees are back where they were before the settlement, and vault
  balance plus deployed amount, less the assets on the books, have fallen by exactly the cut.
  (Treasury, vault and the agent's token account are different accounts.)
\<close>

theorem skim_pays_the_cut_again:
  assumes "environment rt" and "reachable rt w" and "no_pda_signer rt tx"
    and "claim_and_settle rt tx a payment w = Inr (w1, AdvanceSettled P g k x lpc pc net late)"
    and "skim_protocol_fees rt tx' b pc w1 = Inr (w2, ev)" and "sk_pool b = P"
    and "accounts w P = Some (PoolAccount p)"
    and "pool_treasury_ata p \<noteq> pool_usdc_vault p" and "cs_agent_usdc_ata a \<noteq> pool_treasury_ata p"
  shows "\<exists>p2. accounts w2 P = Some (PoolAccount p2)
     \<and> balance (tokens w2) (pool_treasury_ata p) = balance (tokens w) (pool_treasury_ata p) + 2 * unat pc
     \<and> accrued_protocol_fees p2 = accrued_protocol_fees p
     \<and> surplus w2 p2 = surplus w p - int (unat pc)"
proof -
  note law = environmentD(1) [OF assms(1)]
  have wf: "accounts_wf rt w" "tokens_ok w"
    using reachable_well_formed [OF assms(1,2)] by (simp_all add: well_formed_def)
  obtain p1 where p1: "accounts w1 P = Some (PoolAccount p1)" "same_identity p p1" "surplus w1 p1 = surplus w p"
      "unat (accrued_protocol_fees p1) = unat (accrued_protocol_fees p) + unat pc"
      "balance (tokens w1) (pool_treasury_ata p) = balance (tokens w) (pool_treasury_ata p) + unat pc"
    by (rule settlement_keeps_surplus [OF law assms(3) wf assms(4,7-9)])
  have id: "pool_treasury_ata p1 = pool_treasury_ata p" "pool_usdc_vault p1 = pool_usdc_vault p"
    using p1(2) by (simp_all add: same_identity_def)
  obtain p2 where "accounts w2 P = Some (PoolAccount p2)" "surplus w2 p2 = surplus w1 p1 - int (unat pc)"
      "unat (accrued_protocol_fees p1) = unat (accrued_protocol_fees p2) + unat pc"
      "balance (tokens w2) (pool_treasury_ata p) = balance (tokens w1) (pool_treasury_ata p) + unat pc"
    using skim_takes_surplus [OF law assms(5), unfolded assms(6), OF p1(1)] assms(8) id by metis
  with p1 show ?thesis by (intro exI [of _ p2]) (simp add: word_unat_eq_iff)
qed

lemma skim_pays_the_cut_again_witness:
  "surplus world_skimmed (example_pool 2007650000 2000000000000 0 0)
     = surplus world_issued (example_pool 2000000000 2000000000000 300000000 0) - 1350000
   \<and> balance (tokens world_skimmed) treasury = balance (tokens world_issued) treasury + 2700000"
  using skim_pays_the_cut_again [OF ref_environment examples_reachable(2) _ settle_runs skim_runs _ example_pool_accounts(3)]
  by simp

text \<open>
  C10: assets per share, virtual offsets included, fall only in liquidations: every other escrow
  instruction leaves the price of a share where it was or raises it.
\<close>

theorem share_price_falls_only_in_liquidations:
  assumes "process_escrow rt tx ix w = Inr (w', ev)"
    and "accounts w P = Some (PoolAccount p)" and "accounts w' P = Some (PoolAccount p')"
    and "\<And>a. ix \<noteq> Ix_liquidate a"
  shows "(unat (total_assets p) + 1000000) * (unat (total_shares p') + 1000000000)
     \<le> (unat (total_assets p') + 1000000) * (unat (total_shares p) + 1000000000)"
  using process_escrow_price [OF assms] by (simp add: share_price_le_def)

lemma share_price_witness:
  "(unat (total_assets (example_pool 2000000000 2000000000000 300000000 0)) + 1000000) * (2000000000000 + 1000000000)
     \<le> (unat (total_assets (example_pool 2007650000 2000000000000 0 1350000)) + 1000000) * (2000000000000 + 1000000000)"
  using share_price_falls_only_in_liquidations [of ref_runtime tx_settle "Ix_claim_and_settle acc_settle 400000000"
      world_issued world_settled _ pool_key] settle_runs
  by simp

section \<open>Liveness\<close>

text \<open>
  C11: bad debt can be written off by anybody: in a reachable state, once the grace period of a
  stored advance is over, liquidation by any signer with the derived accounts succeeds, provided
  the tombstone's address is free and the pool's assets still cover the principal.
\<close>

theorem overdue_advance_can_be_liquidated:
  assumes "environment rt" and "reachable rt w" and "length P = 32"
    and "accounts w k = Some (AdvanceAccount adv)" and "advance_at rt P k adv"
    and "i64_fits (sint (adv_expires_at adv) + 1209600)"
    and "sint (adv_expires_at adv) + 1209600 \<le> sint (tx_now tx)"
    and "cranker \<in> set (tx_signers tx)"
    and "address_free w (lq_tombstone (liquidate_accounts_for rt cranker P k adv))"
    and "accounts w P = Some (PoolAccount pool)" and "principal adv \<le> total_assets pool"
  shows "\<exists>w'. liquidate rt tx (liquidate_accounts_for rt cranker P k adv) w
     = Inr (w', AdvanceLiquidated P (adv_agent adv) k (principal adv))"
  using assms reachable_well_formed [OF assms(1,2)]
  by (intro liquidation_possible) (simp_all add: well_formed_def)

lemma overdue_witness:
  "\<exists>w'. liquidate ref_runtime tx_liquidate (liquidate_accounts_for ref_runtime alice pool_key advance_key example_advance)
     world_issued = Inr (w', AdvanceLiquidated pool_key agent advance_key 300000000)"
proof -
  have "advance_at ref_runtime pool_key advance_key example_advance"
    "address_free world_issued tombstone_key" by code_simp+
  moreover have "lq_tombstone (liquidate_accounts_for ref_runtime alice pool_key advance_key example_advance) = tombstone_key"
    by (simp add: liquidate_accounts_for_def tombstone_key_def ref_runtime_def example_advance_def)
  ultimately show ?thesis
    using overdue_advance_can_be_liquidated [OF ref_environment examples_reachable(2), of pool_key advance_key
        example_advance tx_liquidate alice]
    by (simp add: i64_fits_def tx_defs)
qed

text \<open>
  C12: an honest agent can repay: in a reachable state, until 14 days after expiry, settlement
  with the derived accounts succeeds and closes the advance, whenever the transaction is signed by
  the agent and carries the memo with the nonce, the payment covers principal, fee and penalty, the
  agent's token account holds that much, vault and treasury can receive it, the pool's totals have
  room for the fee, the clock is not negative, and the expiry is such that 14 days later is still
  an \<open>i64\<close> (an attestation with a later expiry is accepted, and its advance can never be closed).
  The counters of pool and ledger are never an obstacle.
\<close>

theorem agent_can_settle:
  assumes "environment rt" and "spl_progress rt" and "reachable rt w" and "length P = 32"
    and "accounts w P = Some (PoolAccount pool)"
    and "accounts w k = Some (AdvanceAccount adv)" and "advance_at rt P k adv"
    and "accounts w (consumed_address rt P (adv_agent adv) (adv_receivable_id adv)) = Some (ConsumedAccount c)"
    and "require_memo_nonce (tx_sysvar tx) (cp_nonce c) = Inr ()"
    and "adv_agent adv \<in> set (tx_signers tx)"
    and "i64_fits (sint (adv_expires_at adv) + 1209600)" and "0 \<le> sint (tx_now tx)"
    and "sint (tx_now tx) < sint (adv_expires_at adv) + 1209600"
    and "unat (principal adv) + fees_due (tx_now tx) adv \<le> unat payment"
    and "settlement_payable (tokens w) pool (adv_agent adv) ata (unat (principal adv) + fees_due (tx_now tx) adv)"
    and "unat (total_assets pool) + fees_due (tx_now tx) adv < 2 ^ 64"
    and "unat (accrued_protocol_fees pool) + fees_due (tx_now tx) adv < 2 ^ 64"
  shows "\<exists>w' ev. claim_and_settle rt tx (settle_accounts_for rt P pool k adv ata) payment w = Inr (w', ev)
     \<and> accounts w' k = None"
  using assms reachable_well_formed [OF assms(1,3)]
  by (intro settlement_possible) (simp_all add: well_formed_def)

lemma agent_can_settle_witness:
  "\<exists>w' ev. claim_and_settle ref_runtime tx_settle (settle_accounts_for ref_runtime pool_key
       (example_pool 2000000000 2000000000000 300000000 0) advance_key example_advance agent_usdc) 309000000 world_issued
     = Inr (w', ev) \<and> accounts w' advance_key = None"
proof (rule agent_can_settle [OF ref_environment ref_spl_progress examples_reachable(2), where c = example_consumed])
  show "advance_at ref_runtime pool_key advance_key example_advance" by code_simp
  have "consumed_address ref_runtime pool_key agent receivable = consumed_key"
    by (simp add: consumed_address_def consumed_key_def ref_runtime_def)
  then show "accounts world_issued (consumed_address ref_runtime pool_key (adv_agent example_advance)
      (adv_receivable_id example_advance)) = Some (ConsumedAccount example_consumed)"
    by (simp add: example_advance_def world_issued_def)
  have "fees_due (tx_now tx_settle) example_advance = 9000000"
    by (simp add: fees_due_def days_late_def example_advance_def)
  then show "unat (principal example_advance) + fees_due (tx_now tx_settle) example_advance \<le> unat (309000000 :: u64)"
    "settlement_payable (tokens world_issued) (example_pool 2000000000 2000000000000 300000000 0)
      (adv_agent example_advance) agent_usdc (unat (principal example_advance) + fees_due (tx_now tx_settle) example_advance)"
    "unat (total_assets (example_pool 2000000000 2000000000000 300000000 0)) + fees_due (tx_now tx_settle) example_advance < 2 ^ 64"
    "unat (accrued_protocol_fees (example_pool 2000000000 2000000000000 300000000 0)) + fees_due (tx_now tx_settle) example_advance < 2 ^ 64"
    by (simp_all add: example_advance_def example_pool_def settlement_payable_def usable_def owned_by_def balance_def
        example_tokens_def token_account_def)
  show "require_memo_nonce (tx_sysvar tx_settle) (cp_nonce example_consumed) = Inr ()"
    by (simp add: example_consumed_def memo_run)
qed (simp_all add: example_advance_def i64_fits_def tx_defs world_issued_def)

text \<open>
  C13: a liquidity provider can always leave with what is idle: in a reachable state, redeeming
  shares that the provider holds succeeds and pays their quote, whenever the quote is positive and
  covered by the assets on the books and by the vault, the token accounts involved are the
  provider's and the pool's and not frozen, the receiving account has room, and the assets on the
  books are at most 2^64 - 10^6.  The pool's count of shares is never an obstacle.
\<close>

theorem provider_can_withdraw:
  assumes "environment rt" and "spl_progress rt" and "reachable rt w"
    and "accounts w P = Some (PoolAccount pool)"
    and "g \<in> set (tx_signers tx)" and "no_pda_signer rt tx"
    and "r = assets_for (unat s) (unat (total_assets pool)) (unat (total_shares pool))" and "0 < r"
    and "r \<le> unat (total_assets pool)" and "unat (total_assets pool) + 1000000 \<le> 2 ^ 64"
    and "withdrawal_payable (tokens w) pool g usdc_ata share_ata (unat s) r"
  shows "\<exists>w'. withdraw rt tx (lp_accounts_for P pool g usdc_ata share_ata) s w
     = Inr (w', Withdrew P g s (word_of_nat r))"
  using assms by (rule withdrawal_possible)

lemma provider_can_withdraw_witness:
  "\<exists>w'. withdraw ref_runtime tx_alice (lp_accounts_for pool_key (example_pool 2000000000 2000000000000 300000000 0)
       alice alice_usdc alice_shares) 1000000000000 world_issued = Inr (w', Withdrew pool_key alice 1000000000000 1000000000)"
proof -
  have "withdrawal_payable (tokens world_issued) (example_pool 2000000000 2000000000000 300000000 0) alice
      alice_usdc alice_shares 1000000000000 1000000000"
    by (simp add: withdrawal_payable_def example_pool_def usable_def owned_by_def balance_def supply_of_def
        example_tokens_def token_account_def)
  moreover have "alice \<in> set (tx_signers tx_alice)" by (simp add: tx_defs)
  ultimately show ?thesis
    using provider_can_withdraw [OF ref_environment ref_spl_progress examples_reachable(2), of pool_key
        "example_pool 2000000000 2000000000000 300000000 0" alice tx_alice 1000000000 1000000000000 alice_usdc alice_shares]
    by (simp add: assets_for_def example_pool_def)
qed


text \<open>
  C39: in any stretch of 24 hours an agent draws at most twice the cap from a pool.  Take a history
  that starts on an empty chain, in which the times of the agent's advances on the pool do not
  decrease and in which the pool's cap, whatever governance makes of it, is always positive (a cap
  of 0 switches the limit off) and at most \<open>C\<close>.  Then the advances issued to the agent by that pool
  between any \<open>T\<close> and \<open>T\<close> plus 24 hours add up to at most \<open>2 * C\<close>.  The limit is one of the (pool,
  agent) ledger, whose address must not have the bump seed 0, which the program takes for an
  uninitialised ledger.
\<close>

theorem any_day_at_most_twice_the_cap:
  assumes "environment rt" and "initial w0" and "history (performs rt) w0 h w"
    and "length P = 32" and "length g = 32"
    and "snd (find_program_address rt [ISSUANCE_LEDGER_SEED, P, g] ESCROW) \<noteq> 0"
    and "\<forall>(v, l, u)\<in>set h. \<forall>p. accounts v P = Some (PoolAccount p) \<longrightarrow>
           0 < agent_window_cap p \<and> unat (agent_window_cap p) \<le> C"
    and "sorted (map fst (draws P g h))"
  shows "(\<Sum>(t, x)\<leftarrow>draws P g h. if T \<le> t \<and> t < T + 86400 then x else 0) \<le> 2 * C"
proof -
  obtain K b where "find_program_address rt [ISSUANCE_LEDGER_SEED, P, g] ESCROW = (K, b)" by fastforce
  with assms have "window_ok C (draws P g h) (window_at w K)" by (intro history_window) simp_all
  then have "spent (draws P g h) (\<lambda>t. T \<le> t \<and> t < T + 86400) \<le> 2 * C" by (rule window_ok_stretch)
  then show ?thesis by (simp only: spent_def)
qed

lemma any_day_witness:
  "draws pool_key agent example_history = [(1000, 300000000)]
   \<and> (\<Sum>(t, x)\<leftarrow>draws pool_key agent example_history. if 900 \<le> t \<and> t < 900 + 86400 then x else 0) \<le> 2 * (1000000000 :: nat)"
proof
  show d: "draws pool_key agent example_history = [(1000, 300000000)]"
    by (simp add: example_history_def)
  show "(\<Sum>(t, x)\<leftarrow>draws pool_key agent example_history. if 900 \<le> t \<and> t < 900 + 86400 then x else 0) \<le> 2 * (1000000000 :: nat)"
  proof (rule any_day_at_most_twice_the_cap [OF ref_environment genesis_initial example_history])
    show "snd (find_program_address ref_runtime [ISSUANCE_LEDGER_SEED, pool_key, agent] ESCROW) \<noteq> 0" by code_simp
    have "accounts genesis pool_key = None" "\<And>p. accounts world_registry pool_key \<noteq> Some (PoolAccount p)"
      "\<And>p. accounts world_signer pool_key \<noteq> Some (PoolAccount p)"
      "accounts world_pool pool_key = Some (PoolAccount (example_pool 0 0 0 0))"
      "agent_window_cap (example_pool A S D F) = 1000000000" for A S D F
      by (simp_all add: genesis_def world_registry_def world_signer_def world_pool_def example_pool_def)
    then show "\<forall>(v, l, u)\<in>set example_history. \<forall>p. accounts v pool_key = Some (PoolAccount p) \<longrightarrow>
        0 < agent_window_cap p \<and> unat (agent_window_cap p) \<le> 1000000000"
      by (auto simp: example_history_def)
  qed (simp_all add: d)
qed

end
